(* ===== verification/Prelude.thy ===== *)
theory Prelude
  imports Main "HOL-Library.AList" "HOL-Library.Multiset" "HOL-Library.Word"
    "HOL-Library.Product_Lexorder"
begin

text \<open>
  Shared vocabulary of the development.  Python's \<open>str\<close> is a sequence of Unicode
  code points, so a Python string is modelled as a list of natural numbers
  (\<open>pystr\<close>); Isabelle's own \<open>string\<close> is a list of bytes and is used only for
  ASCII literals, converted by \<open>lit\<close>.  A Python \<open>dict[str, int]\<close> keyed by
  one-character strings is an association list in insertion order
  (\<open>counts\<close>), read through \<open>dict_get\<close> (\<open>d.get(k, 0)\<close>) and abstracted to
  the multiset \<open>dict_mset\<close>, in which key \<open>k\<close> occurs as often as its count.
  File contents are byte lists (\<open>8 word\<close>).
\<close>

named_theorems dict_simps "equations for the dictionary model"

type_synonym codepoint = nat
type_synonym pystr = "codepoint list"
type_synonym byte = "8 word"
type_synonym counts = "(codepoint \<times> nat) list"

definition lit :: "string \<Rightarrow> pystr" where
  "lit s = map of_char s"

definition dict_get :: "('k \<times> nat) list \<Rightarrow> 'k \<Rightarrow> nat" where
  "dict_get d k = (case map_of d k of None \<Rightarrow> 0 | Some n \<Rightarrow> n)"

definition dict_mset :: "('k \<times> nat) list \<Rightarrow> 'k multiset" where
  "dict_mset d = sum_list (map (\<lambda>(k, n). replicate_mset n k) d)"

definition wf_dict :: "('k \<times> nat) list \<Rightarrow> bool" where
  "wf_dict d \<longleftrightarrow> distinct (map fst d) \<and> (\<forall>(k, n) \<in> set d. 0 < n)"

subsection \<open>Literals\<close>

lemma lit_simps [simp]: "lit [] = []" "lit (c # s) = of_char c # lit s"
  by (simp_all add: lit_def)

lemma lit_append [simp]: "lit (s @ t) = lit s @ lit t"
  by (simp add: lit_def)

lemma length_lit [simp]: "length (lit s) = length s"
  by (simp add: lit_def)

lemma replicate_numeral: "replicate (numeral k) x = x # replicate (pred_numeral k) x"
  by (simp add: numeral_eq_Suc)

subsection \<open>The dictionary model\<close>

lemma dict_mset_simps [simp, dict_simps]:
  "dict_mset [] = {#}"
  "dict_mset ((k, n) # d) = replicate_mset n k + dict_mset d"
  by (simp_all add: dict_mset_def)

lemma replicate_mset_add: "replicate_mset (m + n) a = replicate_mset m a + replicate_mset n a"
  by (simp add: multiset_eq_iff)

lemma dict_mset_update_with_aux [dict_simps]:
  "dict_mset (AList.update_with_aux 0 k (\<lambda>v. v + n) (d :: ('k \<times> nat) list)) =
     dict_mset d + replicate_mset n k"
  by (induction d) (auto simp: add_ac replicate_mset_add)

lemma dict_get_update_with_aux [dict_simps]:
  "dict_get (AList.update_with_aux 0 k (\<lambda>v. v + n) d) k' =
     (if k' = k then dict_get d k + n else dict_get d k')"
  by (auto simp: dict_get_def map_of_update_with_aux split: option.splits)

lemma dict_get_Nil [simp, dict_simps]: "dict_get [] k = 0"
  by (simp add: dict_get_def)

lemma wf_dict_Nil [simp, dict_simps]: "wf_dict []"
  by (simp add: wf_dict_def)

lemma set_update_with_aux_pos:
  "(k', m) \<in> set (AList.update_with_aux 0 k (\<lambda>v. v + n) (d :: ('k \<times> nat) list)) \<Longrightarrow> 0 < n \<Longrightarrow>
   (\<forall>(a, b) \<in> set d. 0 < b) \<Longrightarrow> 0 < m"
  by (induction d) (auto split: if_splits)

lemma wf_dict_update_with_aux [dict_simps]:
  "wf_dict d \<Longrightarrow> 0 < n \<Longrightarrow> wf_dict (AList.update_with_aux 0 k (\<lambda>v. v + n) d)"
  unfolding wf_dict_def
  by (auto dest: set_update_with_aux_pos)

lemma update_with_aux_nonempty [simp, dict_simps]:
  "AList.update_with_aux v k f d \<noteq> []"
  by (cases d) auto

text \<open>For a well-formed dictionary the multiset abstraction counts exactly what
  \<open>get\<close> returns, and the dictionary is empty iff its abstraction is.\<close>

lemma count_dict_mset:
  "distinct (map fst d) \<Longrightarrow> count (dict_mset d) k = dict_get d k"
proof (induction d)
  case Nil
  then show ?case by simp
next
  case (Cons p d)
  obtain a n where p: "p = (a, n)" by (cases p)
  with Cons.prems have "a \<notin> fst ` set d" and "distinct (map fst d)" by auto
  then have "map_of d a = None" by (simp add: map_of_eq_None_iff)
  with Cons.IH \<open>distinct (map fst d)\<close> show ?case
    by (auto simp: p dict_get_def split: option.splits)
qed

lemma dict_mset_empty_iff:
  "wf_dict d \<Longrightarrow> dict_mset d = {#} \<longleftrightarrow> d = []"
  by (cases d) (auto simp: wf_dict_def)

end
