(* ===== verification/Normalize.thy ===== *)
theory Normalize
  imports Prelude
begin

text \<open>
  The character policy of \<^verbatim>\<open>src/tools/normalize_hyphens.py\<close>: the three fixed
  tables \<open>TO_ASCII_HYPHEN\<close>, \<open>REMOVE\<close> and \<open>SOFT_HYPHEN\<close>, the helper
  \<open>bump\<close> and the per-file transformation \<open>normalize_text\<close>, whose loop
  \<open>normalize_loop\<close> keeps the source's accumulator \<open>out\<close> and dictionary
  \<open>counts\<close>.  The abstract specification \<open>normalize_spec\<close> maps every code point
  to its replacement independently; the loop refines it, and its counts refine the
  multiset of classified code points of the input.
\<close>

subsection \<open>Character tables\<close>

definition TO_ASCII_HYPHEN :: "codepoint set" where
  "TO_ASCII_HYPHEN = {0x2010, 0x2011, 0x2012, 0x2013, 0x2014, 0x2212, 0xFE63, 0xFF0D}"

definition REMOVE :: "codepoint set" where
  "REMOVE = {0x200B, 0x200C, 0x200D, 0x2060, 0xFEFF}"

definition SOFT_HYPHEN :: codepoint where
  "SOFT_HYPHEN = 0xAD"

abbreviation HYPHEN_MINUS :: codepoint where
  "HYPHEN_MINUS \<equiv> 0x2D"

subsection \<open>The transformation\<close>

definition bump :: "counts \<Rightarrow> codepoint \<Rightarrow> counts" where
  "bump counts ch = AList.update_with_aux 0 ch (\<lambda>n. n + 1) counts"

fun normalize_loop :: "pystr \<Rightarrow> pystr \<Rightarrow> counts \<Rightarrow> pystr \<Rightarrow> pystr \<times> counts" where
  "normalize_loop soft_hyphen_mode out counts [] = (out, counts)"
| "normalize_loop soft_hyphen_mode out counts (ch # s) =
     (if ch \<in> TO_ASCII_HYPHEN then
        normalize_loop soft_hyphen_mode (out @ [HYPHEN_MINUS]) (bump counts ch) s
      else if ch \<in> REMOVE then
        normalize_loop soft_hyphen_mode out (bump counts ch) s
      else if ch = SOFT_HYPHEN then
        normalize_loop soft_hyphen_mode
          (if soft_hyphen_mode = lit ''hyphen'' then out @ [HYPHEN_MINUS] else out)
          (bump counts ch) s
      else normalize_loop soft_hyphen_mode (out @ [ch]) counts s)"

definition normalize_text :: "pystr \<Rightarrow> pystr \<Rightarrow> pystr \<times> counts" where
  "normalize_text s soft_hyphen_mode = normalize_loop soft_hyphen_mode [] [] s"

text \<open>\<open>bump_all xs d\<close> bumps \<open>d\<close> once for every element of \<open>xs\<close>, in order.\<close>

abbreviation bump_all :: "pystr \<Rightarrow> counts \<Rightarrow> counts" where
  "bump_all xs d \<equiv> fold (\<lambda>c d. bump d c) xs d"

subsection \<open>Abstract specification\<close>

text \<open>The four categories of the specification and the replacement of one code point.\<close>

datatype category = Dash | Removed | Soft | Passthrough

definition category_of :: "codepoint \<Rightarrow> category" where
  "category_of c =
     (if c \<in> TO_ASCII_HYPHEN then Dash else if c \<in> REMOVE then Removed
      else if c = SOFT_HYPHEN then Soft else Passthrough)"

definition classified :: "codepoint \<Rightarrow> bool" where
  "classified c \<longleftrightarrow> category_of c \<noteq> Passthrough"

definition norm_char :: "pystr \<Rightarrow> codepoint \<Rightarrow> pystr" where
  "norm_char mode c =
     (case category_of c of
        Dash \<Rightarrow> [HYPHEN_MINUS]
      | Removed \<Rightarrow> []
      | Soft \<Rightarrow> (if mode = lit ''hyphen'' then [HYPHEN_MINUS] else [])
      | Passthrough \<Rightarrow> [c])"

definition normalize_spec :: "pystr \<Rightarrow> pystr \<Rightarrow> pystr" where
  "normalize_spec mode s = concat (map (norm_char mode) s)"

subsection \<open>Basic facts about the tables\<close>

lemma tables_disjoint:
  "TO_ASCII_HYPHEN \<inter> REMOVE = {}" "SOFT_HYPHEN \<notin> TO_ASCII_HYPHEN" "SOFT_HYPHEN \<notin> REMOVE"
  by (simp_all add: TO_ASCII_HYPHEN_def REMOVE_def SOFT_HYPHEN_def)

lemma hyphen_minus_not_classified [simp]: "\<not> classified HYPHEN_MINUS"
  by (simp add: classified_def category_of_def TO_ASCII_HYPHEN_def REMOVE_def SOFT_HYPHEN_def)

lemma classified_iff:
  "classified c \<longleftrightarrow> c \<in> TO_ASCII_HYPHEN \<or> c \<in> REMOVE \<or> c = SOFT_HYPHEN"
  by (simp add: classified_def category_of_def)

lemma norm_char_passthrough [simp]: "\<not> classified c \<Longrightarrow> norm_char mode c = [c]"
  by (simp add: classified_def norm_char_def)

lemma normalize_spec_simps [simp]:
  "normalize_spec mode [] = []"
  "normalize_spec mode (c # s) = norm_char mode c @ normalize_spec mode s"
  "normalize_spec mode (s @ t) = normalize_spec mode s @ normalize_spec mode t"
  by (simp_all add: normalize_spec_def)

lemma length_norm_char: "length (norm_char mode c) \<le> 1"
  by (simp add: norm_char_def split: category.split)

lemma norm_char_unclassified: "x \<in> set (norm_char mode c) \<Longrightarrow> \<not> classified x"
  using hyphen_minus_not_classified
  by (auto simp: norm_char_def classified_def split: category.splits if_splits)


subsection \<open>The loop against the specification\<close>

lemma normalize_loop_eq:
  "normalize_loop mode out counts s =
     (out @ normalize_spec mode s, bump_all (filter classified s) counts)"
proof (induction s arbitrary: out counts)
  case Nil
  then show ?case by simp
next
  case (Cons ch s)
  show ?case
    by (cases "category_of ch")
       (auto simp: Cons.IH norm_char_def classified_def category_of_def split: if_splits)
qed

lemma dict_mset_bump [dict_simps]: "dict_mset (bump d c) = add_mset c (dict_mset d)"
  using dict_mset_update_with_aux [of c 1 d] by (simp add: bump_def)

lemma wf_dict_bump [dict_simps]: "wf_dict d \<Longrightarrow> wf_dict (bump d c)"
  using wf_dict_update_with_aux [of d 1 c] by (simp add: bump_def)

lemma dict_get_bump [dict_simps]:
  "dict_get (bump d c) k = (if k = c then Suc (dict_get d c) else dict_get d k)"
  using dict_get_update_with_aux [of c 1 d k] by (simp add: bump_def)

lemma dict_mset_bump_all: "dict_mset (bump_all xs d) = dict_mset d + mset xs"
  by (induction xs arbitrary: d) (simp_all add: dict_mset_bump)

lemma wf_dict_bump_all: "wf_dict d \<Longrightarrow> wf_dict (bump_all xs d)"
  by (induction xs arbitrary: d) (simp_all add: wf_dict_bump)

lemma bump_all_Nil_iff: "bump_all xs d = [] \<longleftrightarrow> xs = [] \<and> d = []"
  by (induction xs arbitrary: d) (auto simp: bump_def)

lemma normalize_text_eq:
  "normalize_text s mode = (normalize_spec mode s, bump_all (filter classified s) [])"
  by (simp add: normalize_text_def normalize_loop_eq)

text \<open>C1. Functional refinement: the text returned by \<open>normalize_text\<close> is the
  specification \<open>normalize_spec\<close>, which replaces every code point independently by
  its category's replacement (a hyphen-minus, nothing, or the code point itself).\<close>

theorem normalize_text_refines: "fst (normalize_text s mode) = normalize_spec mode s"
  by (simp add: normalize_text_eq)

text \<open>C2. The hit counts returned by \<open>normalize_text\<close> form a well-formed
  dictionary (distinct keys, positive counts) whose multiset abstraction is exactly the
  multiset of classified code points of the input: every dash-like, invisible and soft
  hyphen occurrence is counted once, nothing else is counted.\<close>

theorem normalize_text_counts:
  "wf_dict (snd (normalize_text s mode)) \<and>
   dict_mset (snd (normalize_text s mode)) = filter_mset classified (mset s)"
  by (simp add: normalize_text_eq wf_dict_bump_all dict_mset_bump_all)

lemma normalize_spec_unclassified: "x \<in> set (normalize_spec mode s) \<Longrightarrow> \<not> classified x"
  by (induction s) (auto dest: norm_char_unclassified)

lemma normalize_spec_id: "\<forall>c \<in> set s. \<not> classified c \<Longrightarrow> normalize_spec mode s = s"
  by (induction s) simp_all

lemma length_normalize_spec: "length (normalize_spec mode s) \<le> length s"
proof (induction s)
  case Nil
  then show ?case by simp
next
  case (Cons c s)
  with length_norm_char [of mode c] show ?case by simp
qed

lemma normalize_spec_fixed_iff: "normalize_spec mode s = s \<longleftrightarrow> (\<forall>c \<in> set s. \<not> classified c)"
proof
  assume eq: "normalize_spec mode s = s"
  then show "\<forall>c \<in> set s. \<not> classified c"
  proof (induction s)
    case Nil
    then show ?case by simp
  next
    case (Cons c s)
    show ?case
    proof (cases "classified c")
      case True
      then have "norm_char mode c = [] \<or> norm_char mode c = [HYPHEN_MINUS]"
        by (auto simp: norm_char_def classified_def split: category.split)
      moreover have "c \<noteq> HYPHEN_MINUS" using True by auto
      moreover have "length (normalize_spec mode s) \<le> length s"
        by (rule length_normalize_spec)
      ultimately show ?thesis using Cons.prems by auto
    next
      case False
      with Cons show ?thesis by simp
    qed
  qed
qed (rule normalize_spec_id)

text \<open>C4. Idempotence: normalising the output again changes nothing and counts no
  hit.\<close>

theorem normalize_text_idempotent:
  "normalize_text (fst (normalize_text s mode)) mode = (fst (normalize_text s mode), [])"
proof -
  have "\<forall>c \<in> set (normalize_spec mode s). \<not> classified c"
    using normalize_spec_unclassified by blast
  then show ?thesis
    by (simp add: normalize_text_eq normalize_spec_id filter_empty_conv)
qed

text \<open>C3. The output differs from the input exactly when some hit was counted: a
  classified code point always changes the text, so the caller's test \<open>new != data\<close>
  agrees with "the counts are non-empty".\<close>

theorem normalize_text_changed_iff_hits:
  "fst (normalize_text s mode) \<noteq> s \<longleftrightarrow> snd (normalize_text s mode) \<noteq> []"
  by (simp add: normalize_text_eq normalize_spec_fixed_iff bump_all_Nil_iff filter_empty_conv)

lemma dict_get_normalize_text:
  "dict_get (snd (normalize_text s mode)) c = (if classified c then count_list s c else 0)"
proof -
  have wf: "wf_dict (snd (normalize_text s mode))"
    and m: "dict_mset (snd (normalize_text s mode)) = filter_mset classified (mset s)"
    using normalize_text_counts by blast+
  from wf have "dict_get (snd (normalize_text s mode)) c =
      count (dict_mset (snd (normalize_text s mode))) c"
    by (simp add: wf_dict_def count_dict_mset)
  also have "\<dots> = count (filter_mset classified (mset s)) c"
    by (simp only: m)
  finally show ?thesis by (simp add: count_mset)
qed

lemma normalize_text_single:
  "normalize_text [c] mode = (norm_char mode c, if classified c then [(c, 1)] else [])"
  by (simp add: normalize_text_eq bump_def)

subsection \<open>The categories, one code point at a time\<close>

text \<open>C5. Every dash-like code point becomes exactly one ASCII hyphen-minus, whatever
  the soft-hyphen mode, and is counted once.\<close>

theorem normalize_text_dash:
  "c \<in> TO_ASCII_HYPHEN \<Longrightarrow> normalize_text [c] mode = ([HYPHEN_MINUS], [(c, 1)])"
  by (simp add: normalize_text_def bump_def)

text \<open>C6. Every invisible code point of \<open>REMOVE\<close> is dropped, whatever the mode, and
  counted once.\<close>

theorem normalize_text_remove:
  "c \<in> REMOVE \<Longrightarrow> normalize_text [c] mode = ([], [(c, 1)])"
  using tables_disjoint by (auto simp: normalize_text_def bump_def)

text \<open>C7. The soft hyphen U+00AD becomes a hyphen-minus in mode \<open>"hyphen"\<close>, is dropped
  in mode \<open>"remove"\<close>, and is counted once in both.\<close>

theorem normalize_text_soft_hyphen:
  "normalize_text [0xAD] (lit ''hyphen'') = ([HYPHEN_MINUS], [(0xAD, 1)]) \<and>
   normalize_text [0xAD] (lit ''remove'') = ([], [(0xAD, 1)])"
  by (simp add: normalize_text_def bump_def TO_ASCII_HYPHEN_def REMOVE_def SOFT_HYPHEN_def)

text \<open>C8. A code point of no category passes through unchanged and is not counted.\<close>

theorem normalize_text_passthrough:
  "\<not> classified c \<Longrightarrow> normalize_text [c] mode = ([c], [])"
  by (simp add: normalize_text_single)

text \<open>C25. \<open>normalize_text\<close> accepts any mode string: every value other than
  \<open>"hyphen"\<close> behaves as \<open>"remove"\<close> (only the command line restricts the choice).\<close>

theorem normalize_text_other_mode:
  "mode \<noteq> lit ''hyphen'' \<Longrightarrow> normalize_text s mode = normalize_text s (lit ''remove'')"
proof -
  assume m: "mode \<noteq> lit ''hyphen''"
  have "norm_char mode = norm_char (lit ''remove'')"
    using m by (simp add: fun_eq_iff norm_char_def split: category.split)
  then have "normalize_spec mode s = normalize_spec (lit ''remove'') s"
    by (simp add: normalize_spec_def)
  then show ?thesis by (simp add: normalize_text_eq)
qed

subsection \<open>Witnesses\<close>

theorem normalize_text_dash_witness:
  "(0x2013::nat) \<in> TO_ASCII_HYPHEN \<and> normalize_text [0x2013] (lit ''remove'') = ([HYPHEN_MINUS], [(0x2013, 1)])"
proof -
  have h: "(0x2013::nat) \<in> TO_ASCII_HYPHEN" by (simp add: TO_ASCII_HYPHEN_def)
  show ?thesis using h normalize_text_dash [OF h, of "lit ''remove''"] by simp
qed

theorem normalize_text_remove_witness:
  "(0xFEFF::nat) \<in> REMOVE \<and> normalize_text [0xFEFF] (lit ''hyphen'') = ([], [(0xFEFF, 1)])"
proof -
  have h: "(0xFEFF::nat) \<in> REMOVE" by (simp add: REMOVE_def)
  show ?thesis using h normalize_text_remove [OF h, of "lit ''hyphen''"] by simp
qed

theorem normalize_text_passthrough_witness:
  "\<not> classified 0x2015 \<and> normalize_text [0x2015] (lit ''hyphen'') = ([0x2015], [])"
proof -
  have h: "\<not> classified 0x2015"
    by (simp add: classified_iff TO_ASCII_HYPHEN_def REMOVE_def SOFT_HYPHEN_def)
  show ?thesis using h normalize_text_passthrough [OF h, of "lit ''hyphen''"] by simp
qed

theorem normalize_text_other_mode_witness:
  "lit ''soft'' \<noteq> lit ''hyphen'' \<and> normalize_text [0xAD] (lit ''soft'') = normalize_text [0xAD] (lit ''remove'') \<and>
   normalize_text [0xAD] (lit ''soft'') = ([], [(0xAD, 1)])"
proof -
  have h: "lit ''soft'' \<noteq> lit ''hyphen''" by simp
  have "normalize_text [0xAD] (lit ''remove'') = ([], [(0xAD, 1)])"
    by (simp add: normalize_text_def bump_def TO_ASCII_HYPHEN_def REMOVE_def SOFT_HYPHEN_def)
  with h normalize_text_other_mode [OF h, of "[0xAD]"] show ?thesis by simp
qed

end
