(* ===== verification/Utf8.thy ===== *)
theory Utf8
  imports Prelude
begin

text \<open>
  The text I/O the script relies on: \<^verbatim>\<open>Path.read_text(encoding="utf-8",
  errors="strict")\<close> and \<^verbatim>\<open>Path.write_text\<close> (lines 107 and 120).  Python's
  strict UTF-8 codec is library code, modelled here from the Unicode standard (table 3-7
  of well-formed byte sequences): \<open>utf8_seq\<close> decodes one sequence, \<open>utf8_decode\<close>
  a whole file (\<open>None\<close> is \<^verbatim>\<open>UnicodeDecodeError\<close>), \<open>utf8_encode\<close> encodes,
  failing (\<^verbatim>\<open>UnicodeEncodeError\<close>) on a surrogate code point.  Reading in text mode
  also translates \<^verbatim>\<open>\r\n\<close> and a lone \<^verbatim>\<open>\r\<close> to \<^verbatim>\<open>\n\<close>
  (\<open>univ_newlines\<close>); writing translates \<^verbatim>\<open>\n\<close> to \<^verbatim>\<open>os.linesep\<close>, which
  is \<^verbatim>\<open>\n\<close> on POSIX, the platform modelled.  The lemmas: both round trips of the
  codec, and that exactly the strings of Unicode scalar values can be encoded.
\<close>

definition byte_of :: "nat \<Rightarrow> byte" where
  "byte_of n = word_of_nat n"

definition is_cont :: "byte \<Rightarrow> bool" where
  "is_cont b \<longleftrightarrow> 0x80 \<le> unat b \<and> unat b \<le> 0xBF"

definition utf8_seq :: "byte \<Rightarrow> byte list \<Rightarrow> (codepoint \<times> byte list) option" where
  "utf8_seq b0 bs =
     (let x = unat b0 in
      if x \<le> 0x7F then Some (x, bs)
      else if 0xC2 \<le> x \<and> x \<le> 0xDF then
        (case bs of
           b1 # r \<Rightarrow> if is_cont b1 then Some ((x - 0xC0) * 64 + (unat b1 - 0x80), r) else None
         | _ \<Rightarrow> None)
      else if 0xE0 \<le> x \<and> x \<le> 0xEF then
        (case bs of
           b1 # b2 # r \<Rightarrow>
             if (if x = 0xE0 then 0xA0 else 0x80) \<le> unat b1 \<and> unat b1 \<le> (if x = 0xED then 0x9F else 0xBF)
                \<and> is_cont b2
             then Some ((x - 0xE0) * 4096 + (unat b1 - 0x80) * 64 + (unat b2 - 0x80), r) else None
         | _ \<Rightarrow> None)
      else if 0xF0 \<le> x \<and> x \<le> 0xF4 then
        (case bs of
           b1 # b2 # b3 # r \<Rightarrow>
             if (if x = 0xF0 then 0x90 else 0x80) \<le> unat b1 \<and> unat b1 \<le> (if x = 0xF4 then 0x8F else 0xBF)
                \<and> is_cont b2 \<and> is_cont b3
             then Some ((x - 0xF0) * 262144 + (unat b1 - 0x80) * 4096 + (unat b2 - 0x80) * 64
                        + (unat b3 - 0x80), r)
             else None
         | _ \<Rightarrow> None)
      else None)"

function utf8_decode :: "byte list \<Rightarrow> pystr option" where
  "utf8_decode [] = Some []"
| "utf8_decode (b # bs) =
     (case utf8_seq b bs of
        None \<Rightarrow> None
      | Some (c, r) \<Rightarrow> map_option (Cons c) (utf8_decode r))"
  by pat_completeness auto
termination
  by (relation "measure length") (auto simp: utf8_seq_def Let_def split: if_splits list.splits)

definition is_scalar :: "codepoint \<Rightarrow> bool" where
  "is_scalar c \<longleftrightarrow> c < 0x110000 \<and> \<not> (0xD800 \<le> c \<and> c \<le> 0xDFFF)"

definition utf8_encode_char :: "codepoint \<Rightarrow> byte list option" where
  "utf8_encode_char c =
     (if c < 0x80 then Some [byte_of c]
      else if c < 0x800 then Some [byte_of (0xC0 + c div 64), byte_of (0x80 + c mod 64)]
      else if 0xD800 \<le> c \<and> c \<le> 0xDFFF then None
      else if c < 0x10000 then
        Some [byte_of (0xE0 + c div 4096), byte_of (0x80 + c div 64 mod 64), byte_of (0x80 + c mod 64)]
      else if c < 0x110000 then
        Some [byte_of (0xF0 + c div 262144), byte_of (0x80 + c div 4096 mod 64),
              byte_of (0x80 + c div 64 mod 64), byte_of (0x80 + c mod 64)]
      else None)"

fun utf8_encode :: "pystr \<Rightarrow> byte list option" where
  "utf8_encode [] = Some []"
| "utf8_encode (c # s) =
     (case utf8_encode_char c of
        None \<Rightarrow> None
      | Some bs \<Rightarrow> map_option (\<lambda>rest. bs @ rest) (utf8_encode s))"

abbreviation CR :: codepoint where "CR \<equiv> 13"
abbreviation LF :: codepoint where "LF \<equiv> 10"

fun univ_newlines :: "pystr \<Rightarrow> pystr" where
  "univ_newlines [] = []"
| "univ_newlines [c] = [if c = CR then LF else c]"
| "univ_newlines (c # d # s) =
     (if c = CR \<and> d = LF then LF # univ_newlines s
      else (if c = CR then LF else c) # univ_newlines (d # s))"

definition read_text :: "byte list \<Rightarrow> pystr option" where
  "read_text bs = map_option univ_newlines (utf8_decode bs)"

definition write_text :: "pystr \<Rightarrow> byte list option" where
  "write_text s = utf8_encode s"

subsection \<open>Bytes and digits\<close>

lemma unat_byte_of [simp]: "n < 256 \<Longrightarrow> unat (byte_of n) = n"
  by (simp add: byte_of_def unat_of_nat)

lemma byte_of_unat [simp]: "byte_of (unat b) = b"
  by (simp add: byte_of_def)

lemma digit_div_mod:
  assumes "a < (n::nat)"
  shows "(q * n + a) div n = q" "(q * n + a) mod n = a"
  using assms by simp_all

lemma digits2: "(c::nat) = c div 64 * 64 + c mod 64"
  by simp

lemma digits3: "(c::nat) = c div 4096 * 4096 + c div 64 mod 64 * 64 + c mod 64"
proof -
  have "c = c div 64 * 64 + c mod 64" by simp
  moreover have "c div 64 = c div 64 div 64 * 64 + c div 64 mod 64" by simp
  moreover have "c div 4096 = c div 64 div 64" using div_mult2_eq [of c 64 64] by simp
  ultimately show ?thesis by linarith
qed

lemma digits4:
  "(c::nat) = c div 262144 * 262144 + c div 4096 mod 64 * 4096 + c div 64 mod 64 * 64 + c mod 64"
proof -
  have "c = c div 4096 * 4096 + c div 64 mod 64 * 64 + c mod 64" by (rule digits3)
  moreover have "c div 4096 = c div 4096 div 64 * 64 + c div 4096 mod 64" by simp
  moreover have "c div 262144 = c div 4096 div 64" using div_mult2_eq [of c 4096 64] by simp
  ultimately show ?thesis by linarith
qed

subsection \<open>One sequence, from its digits\<close>

lemma seq_digits1: "q < 128 \<Longrightarrow> utf8_seq (byte_of q) r = Some (q, r)"
  by (simp add: utf8_seq_def)

lemma seq_digits2:
  assumes "2 \<le> q" "q < 32" "a < 64"
  shows "utf8_seq (byte_of (0xC0 + q)) (byte_of (0x80 + a) # r) = Some (q * 64 + a, r)"
  using assms by (simp add: utf8_seq_def is_cont_def Let_def)

lemma seq_digits3:
  assumes "q < 16" "m < 64" "a < 64" "q = 0 \<Longrightarrow> 32 \<le> m" "q = 13 \<Longrightarrow> m < 32"
  shows "utf8_seq (byte_of (0xE0 + q)) (byte_of (0x80 + m) # byte_of (0x80 + a) # r) =
           Some (q * 4096 + m * 64 + a, r)"
  using assms by (auto simp: utf8_seq_def is_cont_def Let_def)

lemma seq_digits4:
  assumes "q < 5" "m < 64" "n < 64" "a < 64" "q = 0 \<Longrightarrow> 16 \<le> m" "q = 4 \<Longrightarrow> m < 16"
  shows "utf8_seq (byte_of (0xF0 + q))
           (byte_of (0x80 + m) # byte_of (0x80 + n) # byte_of (0x80 + a) # r) =
           Some (q * 262144 + m * 4096 + n * 64 + a, r)"
  using assms by (auto simp: utf8_seq_def is_cont_def Let_def)

lemma enc_digits2:
  assumes "2 \<le> q" "q < 32" "a < 64"
  shows "utf8_encode_char (q * 64 + a) = Some [byte_of (0xC0 + q), byte_of (0x80 + a)]"
  using assms by (simp add: utf8_encode_char_def digit_div_mod)

lemma enc_digits3:
  assumes "q < 16" "m < 64" "a < 64" "q = 0 \<Longrightarrow> 32 \<le> m" "q = 13 \<Longrightarrow> m < 32"
  shows "utf8_encode_char (q * 4096 + m * 64 + a) =
           Some [byte_of (0xE0 + q), byte_of (0x80 + m), byte_of (0x80 + a)]"
proof -
  let ?c = "q * 4096 + m * 64 + a"
  have ma: "m * 64 + a < 4096" using assms(2,3) by linarith
  have c1: "?c = q * 4096 + (m * 64 + a)" by simp
  have c2: "?c = (q * 64 + m) * 64 + a" by simp
  have "?c div 4096 = q" unfolding c1 using ma by (rule digit_div_mod)
  moreover have "?c div 64 mod 64 = m"
  proof -
    have d: "?c div 64 = q * 64 + m" unfolding c2 using assms(3) by (rule digit_div_mod)
    show ?thesis unfolding d using assms(2) by (rule digit_div_mod)
  qed
  moreover have "?c mod 64 = a" unfolding c2 using assms(3) by (rule digit_div_mod)
  moreover have "0x800 \<le> ?c" "?c < 0x10000" "\<not> (0xD800 \<le> ?c \<and> ?c \<le> 0xDFFF)"
    using assms by (cases "q = 0"; cases "q = 13"; linarith)+
  ultimately show ?thesis by (simp add: utf8_encode_char_def)
qed

lemma enc_digits4:
  assumes "q < 5" "m < 64" "n < 64" "a < 64" "q = 0 \<Longrightarrow> 16 \<le> m" "q = 4 \<Longrightarrow> m < 16"
  shows "utf8_encode_char (q * 262144 + m * 4096 + n * 64 + a) =
           Some [byte_of (0xF0 + q), byte_of (0x80 + m), byte_of (0x80 + n), byte_of (0x80 + a)]"
proof -
  let ?c = "q * 262144 + m * 4096 + n * 64 + a"
  have na: "n * 64 + a < 4096" using assms(3,4) by linarith
  have mna: "m * 4096 + n * 64 + a < 262144" using assms(2) na by linarith
  have c1: "?c = q * 262144 + (m * 4096 + n * 64 + a)" by simp
  have c2: "?c = (q * 64 + m) * 4096 + (n * 64 + a)" by simp
  have c3: "?c = ((q * 64 + m) * 64 + n) * 64 + a" by simp
  have "?c div 262144 = q" unfolding c1 using mna by (rule digit_div_mod)
  moreover have "?c div 4096 mod 64 = m"
  proof -
    have d: "?c div 4096 = q * 64 + m" unfolding c2 using na by (rule digit_div_mod)
    show ?thesis unfolding d using assms(2) by (rule digit_div_mod)
  qed
  moreover have "?c div 64 mod 64 = n"
  proof -
    have d: "?c div 64 = (q * 64 + m) * 64 + n" unfolding c3 using assms(4) by (rule digit_div_mod)
    show ?thesis unfolding d using assms(3) by (rule digit_div_mod)
  qed
  moreover have "?c mod 64 = a" unfolding c3 using assms(4) by (rule digit_div_mod)
  moreover have "0x10000 \<le> ?c" "?c < 0x110000"
    using assms by (cases "q = 0"; cases "q = 4"; linarith)+
  ultimately show ?thesis by (simp add: utf8_encode_char_def)
qed

subsection \<open>One sequence, both directions\<close>

lemma encode_char_seq:
  assumes "is_scalar c"
  shows "\<exists>b bs. utf8_encode_char c = Some (b # bs) \<and> utf8_seq b (bs @ r) = Some (c, r)"
proof -
  consider "c < 0x80" | "0x80 \<le> c" "c < 0x800" | "0x800 \<le> c" "c < 0xD800" | "0xDFFF < c" "c < 0x10000"
    | "0x10000 \<le> c" "c < 0x110000"
    using assms unfolding is_scalar_def by linarith
  then show ?thesis
  proof cases
    case 1
    then show ?thesis by (simp add: utf8_encode_char_def seq_digits1)
  next
    case 2
    define q a where "q = c div 64" and "a = c mod 64"
    have c: "c = q * 64 + a" using digits2 [of c] by (simp add: q_def a_def)
    have a: "a < 64" by (simp add: a_def)
    with 2 c have q: "2 \<le> q" "q < 32" by linarith+
    show ?thesis unfolding c using enc_digits2 [OF q a] seq_digits2 [OF q a] by simp
  next
    case 3
    define q m a where "q = c div 4096" and "m = c div 64 mod 64" and "a = c mod 64"
    have c: "c = q * 4096 + m * 64 + a" using digits3 [of c] by (simp add: q_def m_def a_def)
    have ma: "m < 64" "a < 64" by (simp_all add: m_def a_def)
    with 3 c have q: "q < 16" "q = 0 \<Longrightarrow> 32 \<le> m" "q = 13 \<Longrightarrow> m < 32" by linarith+
    show ?thesis unfolding c using enc_digits3 [OF q(1) ma q(2,3)] seq_digits3 [OF q(1) ma q(2,3)]
      by simp
  next
    case 4
    define q m a where "q = c div 4096" and "m = c div 64 mod 64" and "a = c mod 64"
    have c: "c = q * 4096 + m * 64 + a" using digits3 [of c] by (simp add: q_def m_def a_def)
    have ma: "m < 64" "a < 64" by (simp_all add: m_def a_def)
    with 4 c have q: "q < 16" "q = 0 \<Longrightarrow> 32 \<le> m" "q = 13 \<Longrightarrow> m < 32" by linarith+
    show ?thesis unfolding c using enc_digits3 [OF q(1) ma q(2,3)] seq_digits3 [OF q(1) ma q(2,3)]
      by simp
  next
    case 5
    define q m n a where "q = c div 262144" and "m = c div 4096 mod 64" and "n = c div 64 mod 64"
      and "a = c mod 64"
    have c: "c = q * 262144 + m * 4096 + n * 64 + a"
      using digits4 [of c] by (simp add: q_def m_def n_def a_def)
    have mna: "m < 64" "n < 64" "a < 64" by (simp_all add: m_def n_def a_def)
    with 5 c have q: "q < 5" "q = 0 \<Longrightarrow> 16 \<le> m" "q = 4 \<Longrightarrow> m < 16" by linarith+
    show ?thesis unfolding c
      using enc_digits4 [OF q(1) mna q(2,3)] seq_digits4 [OF q(1) mna q(2,3)] by simp
  qed
qed

lemma side3:
  assumes "224 \<le> x" "x \<le> (239::nat)"
    "(if x = 0xE0 then 0xA0 else 0x80) \<le> y" "y \<le> (if x = 0xED then 0x9F else (0xBF::nat))"
  shows "x - 224 < 16" "y - 128 < 64" "x - 224 = 0 \<Longrightarrow> 32 \<le> y - 128" "x - 224 = 13 \<Longrightarrow> y - 128 < 32"
  using assms by (auto split: if_splits)

lemma side4:
  assumes "240 \<le> x" "x \<le> (244::nat)"
    "(if x = 0xF0 then 0x90 else 0x80) \<le> y" "y \<le> (if x = 0xF4 then 0x8F else (0xBF::nat))"
  shows "x - 240 < 5" "y - 128 < 64" "x - 240 = 0 \<Longrightarrow> 16 \<le> y - 128" "x - 240 = 4 \<Longrightarrow> y - 128 < 16"
  using assms by (auto split: if_splits)

lemma cont_digit: "is_cont b \<Longrightarrow> unat b - 0x80 < 64" "is_cont b \<Longrightarrow> byte_of (0x80 + (unat b - 0x80)) = b"
  by (auto simp: is_cont_def)

lemma seq_encode2:
  assumes "194 \<le> unat b" "unat b \<le> 223" "is_cont b1"
  shows "utf8_encode_char ((unat b - 0xC0) * 64 + (unat b1 - 0x80)) = Some [b, b1]"
proof -
  have "2 \<le> unat b - 0xC0" "unat b - 0xC0 < 32" using assms(1,2) by arith+
  from enc_digits2 [OF this cont_digit(1) [OF assms(3)]] assms show ?thesis
    by (simp add: cont_digit(2))
qed

lemma seq_encode3:
  assumes "224 \<le> unat b" "unat b \<le> 239"
    "(if unat b = 0xE0 then 0xA0 else 0x80) \<le> unat b1" "unat b1 \<le> (if unat b = 0xED then 0x9F else 0xBF)"
    "is_cont b2"
  shows "utf8_encode_char ((unat b - 0xE0) * 4096 + (unat b1 - 0x80) * 64 + (unat b2 - 0x80)) =
           Some [b, b1, b2]"
proof -
  note s = side3 [OF assms(1-4)]
  have b1: "byte_of (0x80 + (unat b1 - 0x80)) = b1"
    using assms(3) by (simp split: if_splits)
  from enc_digits3 [OF s(1,2) cont_digit(1) [OF assms(5)] s(3,4)] assms(1) show ?thesis
    by (simp add: cont_digit(2) [OF assms(5)] b1)
qed

lemma seq_encode4:
  assumes "240 \<le> unat b" "unat b \<le> 244"
    "(if unat b = 0xF0 then 0x90 else 0x80) \<le> unat b1" "unat b1 \<le> (if unat b = 0xF4 then 0x8F else 0xBF)"
    "is_cont b2" "is_cont b3"
  shows "utf8_encode_char ((unat b - 0xF0) * 262144 + (unat b1 - 0x80) * 4096 + (unat b2 - 0x80) * 64
           + (unat b3 - 0x80)) = Some [b, b1, b2, b3]"
proof -
  note s = side4 [OF assms(1-4)]
  have b1: "byte_of (0x80 + (unat b1 - 0x80)) = b1"
    using assms(3) by (simp split: if_splits)
  from enc_digits4 [OF s(1,2) cont_digit(1) [OF assms(5)] cont_digit(1) [OF assms(6)] s(3,4)] assms(1)
  show ?thesis
    by (simp add: cont_digit(2) [OF assms(5)] cont_digit(2) [OF assms(6)] b1)
qed

lemma seq_encode_char:
  assumes seq: "utf8_seq b bs = Some (c, r)"
  shows "\<exists>e. utf8_encode_char c = Some e \<and> b # bs = e @ r"
proof -
  consider (one) "unat b \<le> 0x7F" | (two) "0xC2 \<le> unat b" "unat b \<le> 0xDF"
    | (three) "0xE0 \<le> unat b" "unat b \<le> 0xEF" | (four) "0xF0 \<le> unat b" "unat b \<le> 0xF4"
    using seq by (auto simp: utf8_seq_def Let_def split: if_splits)
  then show ?thesis
  proof cases
    case one
    with seq have "c = unat b" "r = bs" by (simp_all add: utf8_seq_def)
    with one show ?thesis by (simp add: utf8_encode_char_def)
  next
    case two
    with seq obtain b1 where "bs = b1 # r" "is_cont b1" "c = (unat b - 0xC0) * 64 + (unat b1 - 0x80)"
      by (auto simp: utf8_seq_def Let_def split: if_splits list.splits)
    with two seq_encode2 [of b b1] show ?thesis by simp
  next
    case three
    with seq obtain b1 b2 where "bs = b1 # b2 # r" "is_cont b2"
      "(if unat b = 0xE0 then 0xA0 else 0x80) \<le> unat b1" "unat b1 \<le> (if unat b = 0xED then 0x9F else 0xBF)"
      "c = (unat b - 0xE0) * 4096 + (unat b1 - 0x80) * 64 + (unat b2 - 0x80)"
      by (auto simp: utf8_seq_def Let_def split: if_splits list.splits)
    with three seq_encode3 [of b b1 b2] show ?thesis by simp
  next
    case four
    with seq obtain b1 b2 b3 where "bs = b1 # b2 # b3 # r" "is_cont b2" "is_cont b3"
      "(if unat b = 0xF0 then 0x90 else 0x80) \<le> unat b1" "unat b1 \<le> (if unat b = 0xF4 then 0x8F else 0xBF)"
      "c = (unat b - 0xF0) * 262144 + (unat b1 - 0x80) * 4096 + (unat b2 - 0x80) * 64 + (unat b3 - 0x80)"
      by (auto simp: utf8_seq_def Let_def split: if_splits list.splits)
    with four seq_encode4 [of b b1 b2 b3] show ?thesis by simp
  qed
qed

subsection \<open>Whole strings\<close>

theorem utf8_encode_decode: "utf8_encode s = Some bs \<Longrightarrow> utf8_decode bs = Some s"
proof (induction s arbitrary: bs)
  case Nil
  then show ?case by simp
next
  case (Cons c s)
  from Cons.prems obtain e rest where e: "utf8_encode_char c = Some e"
    and rest: "utf8_encode s = Some rest" and bs: "bs = e @ rest"
    by (auto split: option.splits)
  have "is_scalar c"
    using e by (auto simp: utf8_encode_char_def is_scalar_def split: if_splits)
  then obtain b es where be: "utf8_encode_char c = Some (b # es)"
    and seq: "utf8_seq b (es @ rest) = Some (c, rest)"
    using encode_char_seq by blast
  from seq Cons.IH [OF rest] have dec: "utf8_decode (b # es @ rest) = Some (c # s)" by simp
  have eq: "e = b # es" using e be by simp
  show ?case using dec unfolding bs eq by simp
qed

theorem utf8_decode_encode: "utf8_decode bs = Some s \<Longrightarrow> utf8_encode s = Some bs"
proof (induction bs arbitrary: s rule: utf8_decode.induct)
  case 1
  then show ?case by simp
next
  case (2 b bs)
  from "2.prems" obtain c r s' where seq: "utf8_seq b bs = Some (c, r)"
    and dec: "utf8_decode r = Some s'" and s: "s = c # s'"
    by (auto split: option.splits)
  from seq_encode_char [OF seq] obtain e where "utf8_encode_char c = Some e" "b # bs = e @ r"
    by blast
  with "2.IH" [OF seq refl dec] s show ?case by simp
qed

theorem utf8_encode_Some_iff: "(\<exists>bs. utf8_encode s = Some bs) \<longleftrightarrow> (\<forall>c \<in> set s. is_scalar c)"
proof (induction s)
  case Nil
  then show ?case by simp
next
  case (Cons c s)
  have "(\<exists>e. utf8_encode_char c = Some e) \<longleftrightarrow> is_scalar c"
    by (auto simp: utf8_encode_char_def is_scalar_def)
  with Cons.IH show ?case by (auto split: option.splits)
qed

lemma utf8_decode_scalar: "utf8_decode bs = Some s \<Longrightarrow> \<forall>c \<in> set s. is_scalar c"
  using utf8_decode_encode utf8_encode_Some_iff by blast

lemma univ_newlines_no_CR: "CR \<notin> set (univ_newlines s)"
  by (induction s rule: univ_newlines.induct) auto

lemma set_univ_newlines: "set (univ_newlines s) \<subseteq> set s \<union> {LF}"
  by (induction s rule: univ_newlines.induct) auto

lemma univ_newlines_id: "CR \<notin> set s \<Longrightarrow> univ_newlines s = s"
  by (induction s rule: univ_newlines.induct) auto

lemma read_text_scalar: "read_text bs = Some s \<Longrightarrow> \<forall>c \<in> set s. is_scalar c"
  using set_univ_newlines utf8_decode_scalar
  by (fastforce simp: read_text_def is_scalar_def)


end
