(* ===== verification/Report.thy ===== *)
theory Report
  imports Normalize
begin

text \<open>
  The end-of-run summary of \<^verbatim>\<open>main\<close> (lines 126--138).  Python's format
  specifications are modelled as functions on code-point strings: \<open>hex_digits\<close>
  and \<open>format_04X\<close> for \<^verbatim>\<open>{ord(ch):04X}\<close>, \<open>str_nat\<close> for a count,
  \<open>ljust\<close> for \<^verbatim>\<open>{x:<w}\<close>.  \<open>sort_hits\<close> is the \<^verbatim>\<open>sorted\<close> call of line 131,
  \<open>label_of\<close> the label of line 135, \<open>report_line\<close> one table row and
  \<open>summary_lines\<close> everything printed after the per-file loop.  The lemmas: the table is
  a permutation of the hits sorted by descending count and then code point; the hexadecimal
  and decimal fields read back to the code point and the count, and the code column never
  overflows its width of 8 for a Unicode code point.
\<close>

definition hex_char :: "nat \<Rightarrow> codepoint" where
  "hex_char d = (if d < 10 then 48 + d else 55 + d)"

fun hex_digits :: "nat \<Rightarrow> pystr" where
  "hex_digits n = (if n < 16 then [hex_char n] else hex_digits (n div 16) @ [hex_char (n mod 16)])"

definition format_04X :: "nat \<Rightarrow> pystr" where
  "format_04X n = (let ds = hex_digits n in replicate (4 - length ds) 48 @ ds)"

fun dec_digits :: "nat \<Rightarrow> pystr" where
  "dec_digits n = (if n < 10 then [48 + n] else dec_digits (n div 10) @ [48 + n mod 10])"

definition str_nat :: "nat \<Rightarrow> pystr" where
  "str_nat n = dec_digits n"

definition ljust :: "nat \<Rightarrow> pystr \<Rightarrow> pystr" where
  "ljust w s = s @ replicate (w - length s) 32"

definition code_of :: "codepoint \<Rightarrow> pystr" where
  "code_of ch = lit ''U+'' @ format_04X ch"

definition label_of :: "codepoint \<Rightarrow> pystr" where
  "label_of ch =
     (if ch = SOFT_HYPHEN then lit ''SOFT_HYPHEN''
      else if ch \<in> REMOVE then lit ''REMOVED'' else lit ''DASH/HYPHEN'')"

definition report_line :: "codepoint \<times> nat \<Rightarrow> pystr" where
  "report_line kv = (case kv of (ch, n) \<Rightarrow>
     lit ''    '' @ ljust 8 (code_of ch) @ lit '' '' @ ljust 11 (label_of ch) @ lit '' count='' @ str_nat n)"

definition hit_key :: "codepoint \<times> nat \<Rightarrow> int \<times> codepoint" where
  "hit_key kv = (- int (snd kv), fst kv)"

definition sort_hits :: "counts \<Rightarrow> counts" where
  "sort_hits total_hits = sort_key hit_key total_hits"

definition summary_lines :: "nat \<Rightarrow> nat \<Rightarrow> counts \<Rightarrow> pystr list" where
  "summary_lines scanned total_changed total_hits =
     [10 # lit ''Summary:'', lit ''  Files scanned:   '' @ str_nat scanned,
      lit ''  Files modified:  '' @ str_nat total_changed] @
     (if total_hits \<noteq> [] then lit ''  Replacements/removals:'' # map report_line (sort_hits total_hits)
      else [lit ''  No normalization needed.''])"

subsection \<open>Reading the fields back\<close>

definition hex_val :: "codepoint \<Rightarrow> nat" where
  "hex_val c = (if c < 58 then c - 48 else c - 55)"

definition parse_hex :: "pystr \<Rightarrow> nat" where
  "parse_hex s = foldl (\<lambda>acc c. acc * 16 + hex_val c) 0 s"

definition parse_dec :: "pystr \<Rightarrow> nat" where
  "parse_dec s = foldl (\<lambda>acc c. acc * 10 + (c - 48)) 0 s"

definition rstrip :: "pystr \<Rightarrow> pystr" where
  "rstrip s = rev (dropWhile (\<lambda>c. c = 32) (rev s))"

definition report_fields :: "pystr \<Rightarrow> codepoint \<times> nat" where
  "report_fields line = (parse_hex (drop 2 (rstrip (take 8 (drop 4 line)))), parse_dec (drop 31 line))"

declare hex_digits.simps [simp del] dec_digits.simps [simp del]

lemma hex_digits_simps:
  "n < 16 \<Longrightarrow> hex_digits n = [hex_char n]"
  "\<not> n < 16 \<Longrightarrow> hex_digits n = hex_digits (n div 16) @ [hex_char (n mod 16)]"
  by (simp_all add: hex_digits.simps [of n])

lemma dec_digits_simps:
  "n < 10 \<Longrightarrow> dec_digits n = [48 + n]"
  "\<not> n < 10 \<Longrightarrow> dec_digits n = dec_digits (n div 10) @ [48 + n mod 10]"
  by (simp_all add: dec_digits.simps [of n])

lemma hex_val_hex_char: "d < 16 \<Longrightarrow> hex_val (hex_char d) = d"
  by (simp add: hex_val_def hex_char_def)

lemma parse_hex_snoc: "parse_hex (s @ [c]) = parse_hex s * 16 + hex_val c"
  by (simp add: parse_hex_def)

lemma parse_dec_snoc: "parse_dec (s @ [c]) = parse_dec s * 10 + (c - 48)"
  by (simp add: parse_dec_def)

lemma parse_hex_hex_digits: "parse_hex (hex_digits n) = n"
proof (induction n rule: hex_digits.induct)
  case (1 n)
  show ?case
  proof (cases "n < 16")
    case True
    then show ?thesis
      by (simp add: hex_digits_simps parse_hex_def hex_val_hex_char)
  next
    case False
    with "1.IH" show ?thesis
      by (simp add: hex_digits_simps parse_hex_snoc hex_val_hex_char)
  qed
qed

lemma parse_dec_dec_digits: "parse_dec (dec_digits n) = n"
proof (induction n rule: dec_digits.induct)
  case (1 n)
  show ?case
  proof (cases "n < 10")
    case True
    then show ?thesis by (simp add: dec_digits_simps parse_dec_def)
  next
    case False
    with "1.IH" show ?thesis by (simp add: dec_digits_simps parse_dec_snoc)
  qed
qed

lemma parse_hex_zeros: "parse_hex (replicate k 48 @ s) = parse_hex s"
proof -
  have "foldl (\<lambda>acc c. acc * 16 + hex_val c) 0 (replicate k 48) = 0"
    by (induction k) (simp_all add: hex_val_def)
  then show ?thesis by (simp add: parse_hex_def)
qed

lemma parse_hex_format_04X: "parse_hex (format_04X n) = n"
  by (simp add: format_04X_def Let_def parse_hex_zeros parse_hex_hex_digits)

lemma hex_digits_length: "n < 16 ^ k \<Longrightarrow> 0 < k \<Longrightarrow> length (hex_digits n) \<le> k"
proof (induction n arbitrary: k rule: hex_digits.induct)
  case (1 n)
  show ?case
  proof (cases "n < 16")
    case True
    with "1.prems" show ?thesis by (simp add: hex_digits_simps)
  next
    case False
    then obtain k' where k: "k = Suc k'" using "1.prems" by (cases k) auto
    have "0 < k'"
      using False "1.prems" k by (cases k') auto
    moreover have "n div 16 < 16 ^ k'"
      using "1.prems" k by (simp add: div_less_iff_less_mult mult.commute)
    ultimately have "length (hex_digits (n div 16)) \<le> k'"
      using "1.IH" False by blast
    with False k show ?thesis by (simp add: hex_digits_simps)
  qed
qed

lemma hex_digits_not_space: "c \<in> set (hex_digits n) \<Longrightarrow> 48 \<le> c"
proof (induction n rule: hex_digits.induct)
  case (1 n)
  then show ?case
    by (cases "n < 16") (auto simp: hex_digits_simps hex_char_def)
qed

lemma hex_digits_nonempty: "hex_digits n \<noteq> []"
  by (cases "n < 16") (simp_all add: hex_digits_simps)

lemma length_format_04X: "length (format_04X n) = max 4 (length (hex_digits n))"
  by (simp add: format_04X_def Let_def)

lemma rstrip_spaces: "rstrip (s @ replicate k 32) = rstrip s"
proof -
  have "dropWhile (\<lambda>c. c = 32) (replicate k 32 @ t) = dropWhile (\<lambda>c. c = (32::nat)) t" for t
    by (induction k) simp_all
  then show ?thesis by (simp add: rstrip_def)
qed

lemma rstrip_id: "s \<noteq> [] \<Longrightarrow> last s \<noteq> 32 \<Longrightarrow> rstrip s = s"
  by (cases s rule: rev_cases) (simp_all add: rstrip_def)

lemma last_format_04X: "last (format_04X n) \<noteq> 32"
proof -
  have "last (hex_digits n) \<in> set (hex_digits n)" using hex_digits_nonempty by simp
  then have "48 \<le> last (hex_digits n)" by (rule hex_digits_not_space)
  then show ?thesis using hex_digits_nonempty by (simp add: format_04X_def Let_def)
qed

lemma format_04X_nonempty: "format_04X n \<noteq> []"
  using hex_digits_nonempty by (simp add: format_04X_def Let_def)

lemma last_code_of: "last (code_of ch) \<noteq> 32"
  using last_format_04X [of ch] format_04X_nonempty [of ch] by (simp add: code_of_def)

lemma rstrip_ljust_code_of: "rstrip (ljust w (code_of ch)) = code_of ch"
proof -
  have "rstrip (ljust w (code_of ch)) = rstrip (code_of ch)"
    unfolding ljust_def by (rule rstrip_spaces)
  also have "\<dots> = code_of ch"
    using last_code_of by (intro rstrip_id) (simp_all add: code_of_def)
  finally show ?thesis .
qed

lemma length_ljust: "length s \<le> w \<Longrightarrow> length (ljust w s) = w"
  by (simp add: ljust_def)

lemma length_label_of: "length (label_of ch) \<le> 11"
  by (simp add: label_of_def)

text \<open>C11. The code column is wide enough: for every Unicode code point
  (below \<open>0x110000\<close>) the text \<^verbatim>\<open>U+XXXX\<close> has between 6 and 8 characters, so the
  \<^verbatim>\<open>{code:<8}\<close> field is never overflowed and the columns of the table stay aligned.\<close>

theorem code_of_width:
  "ch < 0x110000 \<Longrightarrow> 6 \<le> length (code_of ch) \<and> length (code_of ch) \<le> 8"
proof -
  assume "ch < 0x110000"
  then have "ch < 16 ^ 6" by simp
  then have "length (hex_digits ch) \<le> 6" by (rule hex_digits_length) simp
  then show ?thesis by (simp add: code_of_def length_format_04X)
qed

text \<open>C10. Round trip of a table row: the hexadecimal field of \<open>report_line\<close> reads back
  to the code point and the \<^verbatim>\<open>count=\<close> field to the count, for every Unicode code
  point and every count.\<close>

theorem report_line_fields:
  "ch < 0x110000 \<Longrightarrow> report_fields (report_line (ch, n)) = (ch, n)"
proof -
  assume ch: "ch < 0x110000"
  have "length (code_of ch) \<le> 8" using code_of_width [OF ch] by simp
  then have lc: "length (ljust 8 (code_of ch)) = 8" by (rule length_ljust)
  have ll: "length (ljust 11 (label_of ch)) = 11" using length_label_of by (rule length_ljust)
  have take8: "take 8 (drop 4 (report_line (ch, n))) = ljust 8 (code_of ch)"
    using lc by (simp add: report_line_def)
  have hex: "parse_hex (drop 2 (rstrip (take 8 (drop 4 (report_line (ch, n)))))) = ch"
    unfolding take8 rstrip_ljust_code_of by (simp add: code_of_def parse_hex_format_04X)
  have "drop 31 (report_line (ch, n)) = str_nat n"
    using lc ll by (simp add: report_line_def)
  with hex show ?thesis
    by (simp add: report_fields_def str_nat_def parse_dec_dec_digits)
qed

text \<open>C9. The summary table is the hit dictionary sorted as the specification says: it
  lists every entry exactly once (a permutation), in strictly descending order of count and,
  among equal counts, in ascending order of code point.\<close>

theorem sort_hits_table:
  "wf_dict h \<Longrightarrow>
   mset (sort_hits h) = mset h \<and>
   sorted_wrt (\<lambda>(c1, n1) (c2, n2). n2 < n1 \<or> n1 = n2 \<and> c1 < c2) (sort_hits h)"
proof -
  assume wf: "wf_dict h"
  have perm: "mset (sort_hits h) = mset h" by (simp add: sort_hits_def)
  then have "mset (map fst (sort_hits h)) = mset (map fst h)" by simp
  then have "distinct (map fst (sort_hits h)) \<longleftrightarrow> distinct (map fst h)"
    by (rule mset_eq_imp_distinct_iff)
  with wf have dfst: "distinct (map fst (sort_hits h))"
    by (simp add: wf_dict_def)
  have "distinct (map hit_key (sort_hits h))"
    using dfst by (induction "sort_hits h") (auto simp: hit_key_def distinct_map inj_on_def)
  then have "sorted_wrt (<) (map hit_key (sort_hits h))"
    by (simp add: strict_sorted_iff sort_hits_def)
  then have "sorted_wrt (\<lambda>a b. hit_key a < hit_key b) (sort_hits h)"
    by (simp add: sorted_wrt_map)
  then have "sorted_wrt (\<lambda>(c1, n1) (c2, n2). n2 < n1 \<or> n1 = n2 \<and> c1 < c2) (sort_hits h)"
    by (rule sorted_wrt_mono_rel [rotated]) (auto simp: hit_key_def)
  with perm show ?thesis by simp
qed

subsection \<open>Witnesses\<close>

theorem sort_hits_table_witness:
  "wf_dict [(0x2013::codepoint, 1::nat), (0xAD, 3), (0x2014, 3)] \<and>
   mset (sort_hits [(0x2013, 1), (0xAD, 3), (0x2014, 3)]) = mset [(0x2013, 1), (0xAD, 3), (0x2014, 3)] \<and>
   sorted_wrt (\<lambda>(c1, n1) (c2, n2). n2 < n1 \<or> n1 = n2 \<and> c1 < c2)
     (sort_hits [(0x2013, 1), (0xAD, 3), (0x2014, 3)]) \<and>
   sort_hits [(0x2013, 1), (0xAD, 3), (0x2014, 3)] = [(0xAD, 3), (0x2014, 3), (0x2013, 1)]"
proof -
  have h: "wf_dict [(0x2013::nat, 1::nat), (0xAD, 3), (0x2014, 3)]" by (simp add: wf_dict_def)
  have "sort_hits [(0x2013, 1), (0xAD, 3), (0x2014, 3)] = [(0xAD, 3), (0x2014, 3), (0x2013, 1)]"
    by (simp add: sort_hits_def hit_key_def)
  with h sort_hits_table [OF h] show ?thesis by simp
qed

theorem report_line_fields_witness:
  "(0xAD::nat) < 0x110000 \<and> report_fields (report_line (0xAD, 3)) = (0xAD, 3)"
proof -
  have h: "(0xAD::nat) < 0x110000" by simp
  show ?thesis using h report_line_fields [OF h, of 3] by simp
qed

theorem code_of_width_witness:
  "(0x1F600::nat) < 0x110000 \<and> 6 \<le> length (code_of 0x1F600) \<and> length (code_of 0x1F600) \<le> 8"
proof -
  have h: "(0x1F600::nat) < 0x110000" by simp
  show ?thesis using h code_of_width [OF h] by simp
qed

end
