(* ===== verification/Glob.thy ===== *)
theory Glob
  imports Prelude
begin

text \<open>
  Glob matching of one file name, as \<^verbatim>\<open>Path.rglob\<close> does it on POSIX (line 81):
  the pattern \<^verbatim>\<open>*ext\<close> is compiled by CPython 3.11's \<^verbatim>\<open>fnmatch.translate\<close> into a
  regular expression matched against the whole name, case-sensitively.  \<open>translate\<close>
  follows \<^verbatim>\<open>fnmatch._translate\<close> item by item: \<^verbatim>\<open>*\<close> (runs of stars compressed),
  \<^verbatim>\<open>?\<close>, a bracket expression \<^verbatim>\<open>[...]\<close> (a leading \<^verbatim>\<open>!\<close> negates, a leading
  \<^verbatim>\<open>]\<close> is a member, an unclosed \<^verbatim>\<open>[\<close> is a literal), and literal characters.  A
  bracket expression is cut at its range dashes into chunks (\<open>chunks_from\<close>, with
  Python's search positions), empty ranges are removed (\<open>merge_ranges\<close>), and the
  class is read back as the regular-expression set the chunks denote (\<open>class_of\<close>,
  \<open>in_class\<close>).  The translated regular expression emulates an atomic group for each
  \<^verbatim>\<open>*\<close> followed by fixed items; for globs this matches the same names as plain
  backtracking, which is how \<open>gmatch\<close> matches.  The reference semantics
  \<open>glob_lang\<close> gives the set of names an item list denotes.
\<close>

datatype glob_item = GStar | GAny | GChar codepoint | GClass bool "pystr list" | GNever

text \<open>\<^verbatim>\<open>str.find(c, k)\<close> within a string.\<close>

definition find_from :: "codepoint \<Rightarrow> pystr \<Rightarrow> nat \<Rightarrow> nat option" where
  "find_from c s k =
     (if c \<in> set (drop k s) then Some (k + length (takeWhile (\<lambda>x. x \<noteq> c) (drop k s))) else None)"

text \<open>The scan for the closing bracket: skip a leading \<^verbatim>\<open>!\<close>, then a leading
  \<^verbatim>\<open>]\<close>, then find the next \<^verbatim>\<open>]\<close>; \<open>p\<close> is the pattern after \<^verbatim>\<open>[\<close>.\<close>

definition class_end :: "pystr \<Rightarrow> nat option" where
  "class_end p =
     (let j0 = (if p \<noteq> [] \<and> hd p = 33 then 1 else 0);
          j1 = (if j0 < length p \<and> p ! j0 = 93 then Suc j0 else j0)
      in find_from 93 p j1)"

text \<open>The chunk loop: find a dash at or after position \<open>k\<close>, cut there, and search the
  rest from two characters after the cut (\<^verbatim>\<open>k = k + 3\<close> in the source's absolute
  positions).\<close>

function chunks_from :: "pystr \<Rightarrow> nat \<Rightarrow> pystr list" where
  "chunks_from s k =
     (case find_from 45 s k of
        None \<Rightarrow> [s]
      | Some p \<Rightarrow> take p s # chunks_from (drop (Suc p) s) 2)"
  by pat_completeness auto
termination
  by (relation "measure (\<lambda>(s, k). length s)")
     (auto simp: find_from_def split: if_splits dest!: in_set_dropD length_pos_if_in_set)

text \<open>An empty last chunk (a dash at the end) becomes a literal dash of the chunk before.\<close>

definition fix_last :: "pystr list \<Rightarrow> pystr list" where
  "fix_last cs =
     (if 2 \<le> length cs \<and> last cs = [] then butlast (butlast cs) @ [last (butlast cs) @ [45]] else cs)"

text \<open>Removal of empty ranges, from the last pair of chunks to the first: when a range
  would go down, both its ends are dropped and the two chunks joined.\<close>

fun merge_ranges :: "pystr list \<Rightarrow> pystr list" where
  "merge_ranges [] = []"
| "merge_ranges (c # cs) =
     (case merge_ranges cs of
        [] \<Rightarrow> [c]
      | d # ds \<Rightarrow> if hd d < last c then (butlast c @ tl d) # ds else c # d # ds)"

text \<open>The item for the text \<open>s\<close> between the brackets: the empty set never matches, a
  leading \<^verbatim>\<open>!\<close> of the resulting set negates it.\<close>

definition class_of :: "pystr \<Rightarrow> glob_item" where
  "class_of s =
     (let cs = (if 45 \<in> set s
                then merge_ranges (fix_last (chunks_from s (if s \<noteq> [] \<and> hd s = 33 then 2 else 1)))
                else [s])
      in if cs = [[]] then GNever
         else if hd cs \<noteq> [] \<and> hd (hd cs) = 33 then GClass True (tl (hd cs) # tl cs)
         else GClass False cs)"

text \<open>Membership in the set the chunks denote: every character of a chunk, and every
  character of the range from the last character of a chunk to the first of the next.
  An empty chunk can only be the first one of a negated class whose text after the
  \<^verbatim>\<open>!\<close> begins with the joining dash (\<^verbatim>\<open>[^-c]\<close>); the regular expression reads
  that dash as a literal \<^verbatim>\<open>-\<close>.\<close>

definition in_class :: "pystr list \<Rightarrow> codepoint \<Rightarrow> bool" where
  "in_class cs c \<longleftrightarrow>
     list_ex (\<lambda>w. c \<in> set w) cs \<or>
     list_ex (\<lambda>(w, v). w \<noteq> [] \<and> v \<noteq> [] \<and> last w \<le> c \<and> c \<le> hd v) (zip cs (tl cs)) \<or>
     list_ex (\<lambda>(w, v). w = [] \<and> c = 45) (zip cs (tl cs))"

function translate :: "pystr \<Rightarrow> glob_item list" where
  "translate [] = []"
| "translate (c # p) =
     (if c = 42 then GStar # translate (dropWhile (\<lambda>x. x = 42) p)
      else if c = 63 then GAny # translate p
      else if c = 91 then
        (case class_end p of
           None \<Rightarrow> GChar 91 # translate p
         | Some j \<Rightarrow> class_of (take j p) # translate (drop (Suc j) p))
      else GChar c # translate p)"
  by pat_completeness auto
termination
  by (relation "measure length")
     (auto simp: class_end_def find_from_def Let_def less_Suc_eq_le length_dropWhile_le split: if_splits)

text \<open>Matching a whole name, with backtracking over the length a star absorbs.\<close>

fun item_matches :: "glob_item \<Rightarrow> codepoint \<Rightarrow> bool" where
  "item_matches GAny c = True"
| "item_matches (GChar x) c = (c = x)"
| "item_matches (GClass neg cs) c = (in_class cs c \<noteq> neg)"
| "item_matches GNever c = False"
| "item_matches GStar c = True"

fun gmatch :: "glob_item list \<Rightarrow> pystr \<Rightarrow> bool" where
  "gmatch [] s = (s = [])"
| "gmatch (GStar # ps) s =
     (case s of [] \<Rightarrow> gmatch ps [] | c # s' \<Rightarrow> gmatch ps s \<or> gmatch (GStar # ps) s')"
| "gmatch (i # ps) s = (case s of [] \<Rightarrow> False | c # s' \<Rightarrow> item_matches i c \<and> gmatch ps s')"

definition fnmatch :: "pystr \<Rightarrow> pystr \<Rightarrow> bool" where
  "fnmatch p name = gmatch (translate p) name"

text \<open>The reference semantics: the set of names an item list denotes.\<close>

fun glob_lang :: "glob_item list \<Rightarrow> pystr set" where
  "glob_lang [] = {[]}"
| "glob_lang (GStar # ps) = {u @ v | u v. v \<in> glob_lang ps}"
| "glob_lang (i # ps) = {c # v | c v. item_matches i c \<and> v \<in> glob_lang ps}"

text \<open>The reading of a pattern without brackets that the specification's "glob"
  means: \<^verbatim>\<open>*\<close> stands for any string, \<^verbatim>\<open>?\<close> for any one character, every
  other character for itself.\<close>

fun pat_lang :: "pystr \<Rightarrow> pystr set" where
  "pat_lang [] = {[]}"
| "pat_lang (c # p) =
     (if c = 42 then {u @ v | u v. v \<in> pat_lang p}
      else if c = 63 then {x # v | x v. v \<in> pat_lang p}
      else {c # v | v. v \<in> pat_lang p})"

declare fnmatch_def [simp]

subsection \<open>Matching lemmas\<close>

text \<open>Backtracking matching decides membership in the reference language; a pattern
  without \<^verbatim>\<open>*\<close>, \<^verbatim>\<open>?\<close> or \<^verbatim>\<open>[\<close> matches only itself, and a star
  before one is a suffix test; a simple bracket expression tests one character.\<close>

lemma find_from_first:
  "k \<le> length w \<Longrightarrow> c \<notin> set (drop k w) \<Longrightarrow> find_from c (w @ c # r) k = Some (length w)"
  by (simp add: find_from_def takeWhile_append)

lemma translate_literal:
  "\<forall>c \<in> set p. c \<noteq> 42 \<and> c \<noteq> 63 \<and> c \<noteq> 91 \<Longrightarrow> translate p = map GChar p"
  by (induction p) auto

lemma translate_append_literal:
  "\<forall>c \<in> set u. c \<noteq> 42 \<and> c \<noteq> 63 \<and> c \<noteq> 91 \<Longrightarrow> translate (u @ s) = map GChar u @ translate s"
  by (induction u) auto

lemma translate_star_class:
  assumes u: "\<forall>c \<in> set u. c \<noteq> 42 \<and> c \<noteq> 63 \<and> c \<noteq> 91"
    and v: "\<forall>c \<in> set v. c \<noteq> 42 \<and> c \<noteq> 63 \<and> c \<noteq> 91"
    and e: "class_end (s @ 93 # v) = Some (length s)"
  shows "translate (42 # u @ 91 # s @ 93 # v) = GStar # map GChar u @ class_of s # map GChar v"
proof -
  from u have "dropWhile (\<lambda>x. x = 42) (u @ 91 # s @ 93 # v) = u @ 91 # s @ 93 # v" by (cases u) auto
  moreover have "translate (91 # s @ 93 # v) = class_of s # map GChar v"
    using e v by (simp add: translate_literal)
  ultimately show ?thesis using u by (simp add: translate_append_literal)
qed

lemma gmatch_chars: "gmatch (map GChar p) n \<longleftrightarrow> n = p"
proof (induction p arbitrary: n)
  case Nil then show ?case by simp
next
  case (Cons c p) then show ?case by (cases n) auto
qed

lemma gmatch_star_chars: "gmatch (GStar # map GChar e) n \<longleftrightarrow> (\<exists>u. n = u @ e)"
proof (induction n)
  case Nil then show ?case by (auto simp: gmatch_chars)
next
  case (Cons c cs)
  have "gmatch (GStar # map GChar e) (c # cs) \<longleftrightarrow> c # cs = e \<or> (\<exists>u. cs = u @ e)"
    using Cons.IH by (simp add: gmatch_chars)
  also have "\<dots> \<longleftrightarrow> (\<exists>u. c # cs = u @ e)"
    by (auto simp: Cons_eq_append_conv)
  finally show ?case .
qed

lemma fnmatch_star_literal:
  "\<forall>c \<in> set e. c \<noteq> 42 \<and> c \<noteq> 63 \<and> c \<noteq> 91 \<Longrightarrow> fnmatch (42 # e) n \<longleftrightarrow> (\<exists>u. n = u @ e)"
proof -
  assume e: "\<forall>c \<in> set e. c \<noteq> 42 \<and> c \<noteq> 63 \<and> c \<noteq> 91"
  then have "dropWhile (\<lambda>x. x = 42) e = e" by (cases e) auto
  with e have t: "translate (42 # e) = GStar # map GChar e" by (simp add: translate_literal)
  show ?thesis unfolding fnmatch_def t by (rule gmatch_star_chars)
qed

lemma gmatch_glob_lang: "gmatch ps s \<longleftrightarrow> s \<in> glob_lang ps"
proof (induction ps s rule: gmatch.induct)
  case (2 ps s)
  show ?case
  proof (cases s)
    case Nil with "2.IH"(1) show ?thesis by simp
  next
    case (Cons c s')
    with "2.IH"(2,3) show ?thesis by (auto simp: Cons_eq_append_conv)
  qed
qed (auto split: list.splits)

lemma glob_lang_chars: "glob_lang (map GChar u @ ps) = {u @ s | s. s \<in> glob_lang ps}"
  by (induction u) auto

lemma glob_lang_star_item:
  assumes "i \<noteq> GStar"
  shows "n \<in> glob_lang (GStar # map GChar u @ i # map GChar v) \<longleftrightarrow>
    (\<exists>x c. n = x @ u @ c # v \<and> item_matches i c)"
proof -
  have "glob_lang (map GChar v) = {v}" using glob_lang_chars [of v "[]"] by simp
  moreover have "glob_lang (i # ps) = {c # s | c s. item_matches i c \<and> s \<in> glob_lang ps}" for ps
    using assms by (cases i) auto
  ultimately show ?thesis by (auto simp: glob_lang_chars)
qed

lemma star_star_absorb:
  "{u @ v | u v. v \<in> {u' @ v' | u' v'. v' \<in> S}} = {u @ v | u v. v \<in> (S :: pystr set)}"
proof (intro set_eqI iffI)
  fix n assume "n \<in> {u @ v | u v. v \<in> {u' @ v' | u' v'. v' \<in> S}}"
  then obtain u u' v' where "n = (u @ u') @ v'" "v' \<in> S" by auto
  then show "n \<in> {u @ v | u v. v \<in> S}" by blast
next
  fix n assume "n \<in> {u @ v | u v. v \<in> S}"
  then obtain u v where "n = u @ [] @ v" "v \<in> S" by auto
  then show "n \<in> {u @ v | u v. v \<in> {u' @ v' | u' v'. v' \<in> S}}" by blast
qed

lemma pat_lang_stars:
  "{u @ v | u v. v \<in> pat_lang (dropWhile (\<lambda>x. x = 42) p)} = {u @ v | u v. v \<in> pat_lang p}"
proof (induction p)
  case (Cons c p)
  show ?case
  proof (cases "c = 42")
    case True
    with Cons.IH star_star_absorb [of "pat_lang p"] show ?thesis by simp
  qed simp
qed simp

lemma glob_lang_translate_plain: "91 \<notin> set p \<Longrightarrow> glob_lang (translate p) = pat_lang p"
proof (induction p rule: translate.induct)
  case (2 c p)
  consider "c = 42" | "c = 63" | "c \<noteq> 42 \<and> c \<noteq> 63" by blast
  then show ?case
  proof cases
    case 1
    with "2.prems" have "91 \<notin> set (dropWhile (\<lambda>x. x = 42) p)" by (auto dest: set_dropWhileD)
    with 1 "2.IH"(1) pat_lang_stars [of p] show ?thesis by simp
  next
    case 2 with "2.prems" "2.IH"(2) show ?thesis by simp
  next
    case 3 with "2.prems" "2.IH"(5) show ?thesis by simp
  qed
qed simp

lemma bracket_plain:
  assumes "w \<noteq> []" "hd w \<noteq> 33" "93 \<notin> set w" "45 \<notin> set w"
  shows "class_end ((if neg then 33 # w else w) @ 93 # p) = Some (length (if neg then 33 # w else w))"
    and "class_of (if neg then 33 # w else w) = GClass neg [w]"
proof -
  from assms(1,3) have "hd w \<noteq> 93" by (cases w) auto
  with assms(1,2,3) show "class_end ((if neg then 33 # w else w) @ 93 # p) = Some (length (if neg then 33 # w else w))"
    by (cases w) (auto simp: class_end_def find_from_first)
  from assms show "class_of (if neg then 33 # w else w) = GClass neg [w]"
    by (simp add: class_of_def)
qed

text \<open>An empty range followed by \<^verbatim>\<open>!\<close>: the range's ends are dropped and the
  \<^verbatim>\<open>!\<close> becomes the first character of the class, a negation.\<close>

lemma bracket_empty_range_bang:
  assumes "b < a" "a \<noteq> 33" "a \<noteq> 93" "b \<noteq> 93" "93 \<notin> set w" "45 \<notin> set w"
  shows "class_end ((a # 45 # b # 33 # w) @ 93 # p) = Some (length (a # 45 # b # 33 # w))"
    and "class_of (a # 45 # b # 33 # w) = GClass True [w]"
proof -
  have "find_from 93 ((a # 45 # b # 33 # w) @ 93 # p) 0 = Some (length (a # 45 # b # 33 # w))"
    using assms(3-5) by (intro find_from_first) simp_all
  then show "class_end ((a # 45 # b # 33 # w) @ 93 # p) = Some (length (a # 45 # b # 33 # w))"
    using assms(2,3) by (simp add: class_end_def)
  have "chunks_from (b # 33 # w) 2 = [b # 33 # w]"
    using assms(6) by (subst chunks_from.simps) (simp add: find_from_def)
  then have "chunks_from (a # 45 # b # 33 # w) 1 = [[a], b # 33 # w]"
    by (subst chunks_from.simps) (simp add: find_from_def)
  with assms(1,2) show "class_of (a # 45 # b # 33 # w) = GClass True [w]"
    by (simp add: class_of_def fix_last_def)
qed

end
