(* ===== verification/Files.thy ===== *)
theory Files
  imports Normalize Utf8 Report Glob
begin

text \<open>
  The file-level behaviour of \<^verbatim>\<open>iter_files\<close> (lines 79--84: CPython 3.11's
  \<^verbatim>\<open>Path.rglob\<close>, with the glob matching of theory \<open>Glob\<close>; a pattern that holds
  \<^verbatim>\<open>**\<close> without being it raises \<^verbatim>\<open>ValueError\<close> at the first iteration) and of \<^verbatim>\<open>main\<close> after argument parsing (lines
  97--140).  The file system is a map from absolute paths (lists of names) to
  nodes; the order in which \<^verbatim>\<open>Path.rglob\<close> walks the tree is an input \<open>walk\<close>
  (a listing of the tree, which the program does not control).  Failures of the disk are
  an input too: \<open>faults\<close> says, per path, whether opening it for writing fails or the
  write stops after some bytes.  One iteration of the \<^verbatim>\<open>for f in files\<close> loop is
  \<open>process_file\<close>, on a state record holding the disk, \<^verbatim>\<open>total_changed\<close>,
  \<^verbatim>\<open>total_hits\<close> and the printed lines; an exception is the value
  \<open>Inl (error, state)\<close>, the state being the one at the moment it was raised.
  \<open>run_files\<close> is the loop, \<open>main\<close> the whole program after argument parsing, its
  result the exit status, the final disk, the printed lines and the exception raised.
\<close>

datatype node = File "byte list" | Dir

type_synonym path = "pystr list"
type_synonym disk = "path \<Rightarrow> node option"

record args =
  root :: path
  ext :: pystr
  soft_hyphen :: pystr
  dry_run :: bool

datatype write_fault = OpenFails | FailsAfter nat

datatype error =
    UnicodeDecodeError path
  | UnicodeEncodeError path
  | FileNotFoundError path
  | IsADirectoryError path
  | WriteError path
  | ValueError pystr

record run_state =
  disk :: disk
  total_changed :: nat
  total_hits :: counts
  stdout :: "pystr list"

record outcome =
  exit_code :: nat
  final_disk :: disk
  printed :: "pystr list"
  raised :: "error option"

subsection \<open>Enumeration\<close>

definition is_file :: "disk \<Rightarrow> path \<Rightarrow> bool" where
  "is_file d p = (case d p of Some (File _) \<Rightarrow> True | _ \<Rightarrow> False)"

text \<open>\<^verbatim>\<open>'**' in pat\<close>: the pattern holds two adjacent stars.\<close>

fun has_double_star :: "pystr \<Rightarrow> bool" where
  "has_double_star (c # c' # s) = (c = 42 \<and> c' = 42 \<or> has_double_star (c' # s))"
| "has_double_star _ = False"

text \<open>\<^verbatim>\<open>Path.rglob(pattern)\<close> with a one-component pattern: the selector for
  \<^verbatim>\<open>("**", pattern)\<close>.  A pattern that holds \<^verbatim>\<open>**\<close> without being it raises
  \<^verbatim>\<open>ValueError\<close> (\<^verbatim>\<open>_make_selector\<close>, before the root is looked at); on a root
  that is not a directory nothing is selected; the pattern \<^verbatim>\<open>**\<close> selects the root
  and the directories below it; any other pattern the entries strictly below the root
  whose name matches it.\<close>

definition rglob :: "disk \<Rightarrow> path list \<Rightarrow> path \<Rightarrow> pystr \<Rightarrow> error + path list" where
  "rglob d walk r pattern =
     (if pattern \<noteq> [42, 42] \<and> has_double_star pattern then Inl (ValueError pattern)
      else if d r \<noteq> Some Dir then Inr []
      else if pattern = [42, 42] then
        Inr [p \<leftarrow> walk. length r \<le> length p \<and> take (length r) p = r \<and> d p = Some Dir]
      else Inr [p \<leftarrow> walk. length r < length p \<and> take (length r) p = r \<and> fnmatch pattern (last p)])"

definition iter_files :: "disk \<Rightarrow> path list \<Rightarrow> path \<Rightarrow> pystr \<Rightarrow> error + path list" where
  "iter_files d walk r e = map_sum id (filter (is_file d)) (rglob d walk r (42 # e))"

subsection \<open>One file\<close>

definition show_path :: "path \<Rightarrow> pystr" where
  "show_path p = (if p = [] then [47] else concat (map (\<lambda>n. 47 # n) p))"

definition read_file :: "disk \<Rightarrow> path \<Rightarrow> error + pystr" where
  "read_file d f =
     (case d f of
        None \<Rightarrow> Inl (FileNotFoundError f)
      | Some Dir \<Rightarrow> Inl (IsADirectoryError f)
      | Some (File bs) \<Rightarrow>
          (case read_text bs of None \<Rightarrow> Inl (UnicodeDecodeError f) | Some s \<Rightarrow> Inr s))"

definition tmp_path :: "path \<Rightarrow> path" where
  "tmp_path f = butlast f @ [last f @ lit ''.tmp'']"

definition write_back :: "(path \<Rightarrow> write_fault option) \<Rightarrow> path \<Rightarrow> pystr \<Rightarrow> disk \<Rightarrow> (error \<times> disk) + disk" where
  "write_back faults f new d =
     (let tmp = tmp_path f in
      if d tmp = Some Dir then Inl (IsADirectoryError tmp, d)
      else if faults tmp = Some OpenFails then Inl (WriteError tmp, d)
      else (case write_text new of
              None \<Rightarrow> Inl (UnicodeEncodeError tmp, d(tmp \<mapsto> File []))
            | Some bs \<Rightarrow>
                (case faults tmp of
                   Some (FailsAfter k) \<Rightarrow> Inl (WriteError tmp, d(tmp \<mapsto> File (take k bs)))
                 | _ \<Rightarrow> Inr (d(tmp := None, f \<mapsto> File bs)))))"

definition merge_counts :: "counts \<Rightarrow> counts \<Rightarrow> counts" where
  "merge_counts hits counts =
     fold (\<lambda>(ch, n) d. AList.update_with_aux 0 ch (\<lambda>v. v + n) d) counts hits"

definition process_file ::
  "args \<Rightarrow> (path \<Rightarrow> write_fault option) \<Rightarrow> run_state \<Rightarrow> path \<Rightarrow> (error \<times> run_state) + run_state" where
  "process_file a faults st f =
     (case read_file (disk st) f of
        Inl e \<Rightarrow> Inl (e, st)
      | Inr data \<Rightarrow>
          (case normalize_text data (soft_hyphen a) of
             (new, counts) \<Rightarrow>
               if new \<noteq> data then
                 (let st' = st\<lparr>total_changed := Suc (total_changed st),
                               stdout := stdout st @ [lit ''[CHANGED] '' @ show_path f],
                               total_hits := merge_counts (total_hits st) counts\<rparr>
                  in if \<not> dry_run a then
                       (case write_back faults f new (disk st') of
                          Inl (e, d) \<Rightarrow> Inl (e, st'\<lparr>disk := d\<rparr>)
                        | Inr d \<Rightarrow> Inr (st'\<lparr>disk := d\<rparr>))
                     else Inr st')
               else Inr st))"

subsection \<open>The loop and the program\<close>

fun run_files ::
  "args \<Rightarrow> (path \<Rightarrow> write_fault option) \<Rightarrow> run_state \<Rightarrow> path list \<Rightarrow> (error \<times> run_state) + run_state" where
  "run_files a faults st [] = Inr st"
| "run_files a faults st (f # fs) =
     (case process_file a faults st f of
        Inl err \<Rightarrow> Inl err
      | Inr st' \<Rightarrow> run_files a faults st' fs)"

definition main :: "args \<Rightarrow> (path \<Rightarrow> write_fault option) \<Rightarrow> disk \<Rightarrow> path list \<Rightarrow> outcome" where
  "main a faults d walk =
     (case iter_files d walk (root a) (ext a) of
        Inl e \<Rightarrow> \<lparr>exit_code = 1, final_disk = d, printed = [], raised = Some e\<rparr>
      | Inr files \<Rightarrow>
          if files = [] then
            \<lparr>exit_code = 0, final_disk = d,
             printed = [lit ''No *'' @ ext a @ lit '' files found under '' @ show_path (root a)],
             raised = None\<rparr>
          else
            (case run_files a faults \<lparr>disk = d, total_changed = 0, total_hits = [], stdout = []\<rparr> files of
               Inl (e, st) \<Rightarrow>
                 \<lparr>exit_code = 1, final_disk = disk st, printed = stdout st, raised = Some e\<rparr>
             | Inr st \<Rightarrow>
                 \<lparr>exit_code = 0, final_disk = disk st,
                  printed = stdout st @ summary_lines (length files) (total_changed st) (total_hits st),
                  raised = None\<rparr>))"

text \<open>The extensions for which the glob \<^verbatim>\<open>*ext\<close> is a plain suffix test: no
  \<^verbatim>\<open>*\<close>, \<^verbatim>\<open>?\<close>, \<^verbatim>\<open>[\<close> or \<^verbatim>\<open>/\<close>.\<close>

definition glob_free :: "pystr \<Rightarrow> bool" where
  "glob_free e \<longleftrightarrow> (\<forall>c \<in> set e. c \<noteq> 42 \<and> c \<noteq> 63 \<and> c \<noteq> 91 \<and> c \<noteq> 47)"

subsection \<open>Properties of one file and of the loop\<close>

lemma set_normalize_spec: "set (normalize_spec mode s) \<subseteq> set s \<union> {HYPHEN_MINUS}"
  by (induction s) (auto simp: norm_char_def split: category.splits)

lemma normalize_text_unchanged:
  "\<forall>c \<in> set data. \<not> classified c \<Longrightarrow> normalize_text data mode = (data, [])"
  by (simp add: normalize_text_eq normalize_spec_id filter_empty_conv)

lemma read_file_Inr_scalar:
  "read_file d f = Inr data \<Longrightarrow> \<forall>c \<in> set data. is_scalar c"
  by (auto simp: read_file_def read_text_scalar split: option.splits node.splits)

lemma read_file_Inr_no_CR:
  "read_file d f = Inr data \<Longrightarrow> CR \<notin> set data"
  by (auto simp: read_file_def read_text_def univ_newlines_no_CR split: option.splits node.splits)

lemma write_text_normalized:
  assumes "read_file d f = Inr data"
  shows "\<exists>bs. write_text (fst (normalize_text data mode)) = Some bs"
proof -
  have "\<forall>c \<in> set (normalize_spec mode data). is_scalar c"
    using read_file_Inr_scalar [OF assms] set_normalize_spec [of mode data]
    by (auto simp: is_scalar_def)
  then show ?thesis
    by (simp add: write_text_def normalize_text_refines utf8_encode_Some_iff)
qed

lemma tmp_path_neq: "tmp_path f \<noteq> f"
proof
  assume eq: "tmp_path f = f"
  show False
  proof (cases f rule: rev_cases)
    case Nil
    with eq show False by (simp add: tmp_path_def)
  next
    case (snoc g n)
    with eq have "n @ lit ''.tmp'' = n" by (simp add: tmp_path_def)
    then show False by simp
  qed
qed

lemma process_file_read_error:
  "read_file (disk st) f = Inl e \<Longrightarrow> process_file a faults st f = Inl (e, st)"
  by (simp add: process_file_def)

text \<open>C12. No-op stability: a file whose text contains no classified code point is
  neither counted, nor reported, nor written: the state after \<open>process_file\<close> is the
  state before, disk included.\<close>

theorem process_file_unchanged:
  "read_file (disk st) f = Inr data \<Longrightarrow> \<forall>c \<in> set data. \<not> classified c \<Longrightarrow>
   process_file a faults st f = Inr st"
  by (simp add: process_file_def normalize_text_unchanged)

lemma process_file_dry_run:
  "dry_run a \<Longrightarrow> process_file a faults st f = Inr st' \<Longrightarrow> disk st' = disk st"
  by (auto simp: process_file_def Let_def split: sum.splits prod.splits if_splits)

text \<open>C14. Every exception of \<open>process_file\<close> leaves the file being processed as it
  was, and the only other path that may have changed is its temporary sibling: the
  replacement is atomic.\<close>

theorem process_file_error_keeps_file:
  assumes "process_file a faults st f = Inl (e, st')"
  shows "disk st' f = disk st f \<and> (\<forall>p. p \<noteq> tmp_path f \<longrightarrow> disk st' p = disk st p)"
  using assms tmp_path_neq [of f]
  by (auto simp: process_file_def write_back_def Let_def
      split: sum.splits prod.splits if_splits option.splits write_fault.splits)

lemma read_file_written:
  assumes "read_file d f = Inr data" "write_text (fst (normalize_text data mode)) = Some bs"
  shows "read_file (d'(f \<mapsto> File bs)) f = Inr (fst (normalize_text data mode))"
proof -
  let ?new = "fst (normalize_text data mode)"
  have "CR \<notin> set ?new"
    using read_file_Inr_no_CR [OF assms(1)] set_normalize_spec [of mode data]
    by (auto simp: normalize_text_refines)
  then have "univ_newlines ?new = ?new" by (rule univ_newlines_id)
  moreover have "utf8_decode bs = Some ?new"
    using assms(2) by (simp add: write_text_def utf8_encode_decode)
  ultimately show ?thesis by (simp add: read_file_def read_text_def)
qed

text \<open>C13. Write-back of a changed file: when the text changed, dry-run is off and the
  temporary sibling can be written, the file is counted, its counts are merged, the
  temporary file is gone afterwards, nothing else on disk changes, and reading the file
  back gives exactly the normalised text (the UTF-8 round trip and the absence of
  carriage returns after a text-mode read make the write lossless).\<close>

theorem process_file_write_back:
  assumes "\<not> dry_run a" "read_file (disk st) f = Inr data"
    "normalize_text data (soft_hyphen a) = (new, counts)" "new \<noteq> data"
    "disk st (tmp_path f) \<noteq> Some Dir" "faults (tmp_path f) = None"
  shows "\<exists>st'. process_file a faults st f = Inr st' \<and> read_file (disk st') f = Inr new \<and>
    disk st' (tmp_path f) = None \<and> (\<forall>p. p \<noteq> f \<and> p \<noteq> tmp_path f \<longrightarrow> disk st' p = disk st p) \<and>
    total_changed st' = Suc (total_changed st) \<and> total_hits st' = merge_counts (total_hits st) counts"
proof -
  obtain bs where bs: "write_text new = Some bs"
    using write_text_normalized [OF assms(2), of "soft_hyphen a"] assms(3) by auto
  have rd: "read_file ((disk st)(tmp_path f := None, f \<mapsto> File bs)) f = Inr new"
    using read_file_written [OF assms(2), of "soft_hyphen a" bs] assms(3) bs by simp
  have "process_file a faults st f =
      Inr (st\<lparr>total_changed := Suc (total_changed st),
              stdout := stdout st @ [lit ''[CHANGED] '' @ show_path f],
              total_hits := merge_counts (total_hits st) counts,
              disk := (disk st)(tmp_path f := None, f \<mapsto> File bs)\<rparr>)"
    using assms bs by (simp add: process_file_def write_back_def Let_def)
  with rd tmp_path_neq [of f] show ?thesis by auto
qed

lemma dict_mset_merge_counts:
  "dict_mset (merge_counts h c) = dict_mset h + dict_mset c"
  unfolding merge_counts_def
proof (induction c arbitrary: h)
  case Nil
  then show ?case by simp
next
  case (Cons p c)
  obtain k n where p: "p = (k, n)" by (cases p)
  show ?case by (simp add: p Cons.IH dict_mset_update_with_aux add.assoc)
qed

lemma process_file_Inr:
  assumes "process_file a faults st f = Inr st'"
  shows "\<exists>data. read_file (disk st) f = Inr data \<and>
    dict_mset (total_hits st') = dict_mset (total_hits st) + filter_mset classified (mset data) \<and>
    total_changed st' = total_changed st + (if fst (normalize_text data (soft_hyphen a)) \<noteq> data then 1 else 0) \<and>
    stdout st' = stdout st @
      (if fst (normalize_text data (soft_hyphen a)) \<noteq> data then [lit ''[CHANGED] '' @ show_path f] else []) \<and>
    (\<forall>p. p \<noteq> f \<and> p \<noteq> tmp_path f \<longrightarrow> disk st' p = disk st p)"
proof -
  from assms obtain data where rd: "read_file (disk st) f = Inr data"
    by (cases "read_file (disk st) f") (auto simp: process_file_def)
  obtain new counts where nt: "normalize_text data (soft_hyphen a) = (new, counts)"
    by (cases "normalize_text data (soft_hyphen a)")
  have cnt: "dict_mset counts = filter_mset classified (mset data)"
    using normalize_text_counts [of data "soft_hyphen a"] nt by simp
  have unch: "new = data \<Longrightarrow> counts = []"
    using normalize_text_changed_iff_hits [of data "soft_hyphen a"] nt by simp
  show ?thesis
  proof (cases "new = data")
    case True
    with assms rd nt unch cnt show ?thesis by (simp add: process_file_def)
  next
    case False
    with assms rd nt cnt show ?thesis
      by (auto simp: process_file_def write_back_def Let_def dict_mset_merge_counts
          split: if_splits option.splits write_fault.splits)
  qed
qed

lemma read_file_cong: "d g = d' g \<Longrightarrow> read_file d g = read_file d' g"
  by (simp add: read_file_def)

lemma run_files_Inr_totals:
  assumes "run_files a faults st files = Inr st'" "distinct files"
    "\<forall>f \<in> set files. tmp_path f \<notin> set files"
  shows "\<exists>texts. map (read_file (disk st)) files = map Inr texts \<and>
    dict_mset (total_hits st') =
      dict_mset (total_hits st) + (\<Sum>s \<leftarrow> texts. filter_mset classified (mset s)) \<and>
    total_changed st' =
      total_changed st + length [s \<leftarrow> texts. fst (normalize_text s (soft_hyphen a)) \<noteq> s] \<and>
    stdout st' = stdout st @
      [lit ''[CHANGED] '' @ show_path (fst fs). fs \<leftarrow> zip files texts,
        fst (normalize_text (snd fs) (soft_hyphen a)) \<noteq> snd fs]"
  using assms
proof (induction files arbitrary: st)
  case Nil
  then show ?case by simp
next
  case (Cons f fs)
  from Cons.prems(1) obtain st1 where p: "process_file a faults st f = Inr st1"
    and r: "run_files a faults st1 fs = Inr st'"
    by (auto split: sum.splits)
  from process_file_Inr [OF p] obtain data where rd: "read_file (disk st) f = Inr data"
    and h1: "dict_mset (total_hits st1) = dict_mset (total_hits st) + filter_mset classified (mset data)"
    and c1: "total_changed st1 = total_changed st +
               (if fst (normalize_text data (soft_hyphen a)) \<noteq> data then 1 else 0)"
    and o1: "stdout st1 = stdout st @
      (if fst (normalize_text data (soft_hyphen a)) \<noteq> data then [lit ''[CHANGED] '' @ show_path f] else [])"
    and fr: "\<forall>q. q \<noteq> f \<and> q \<noteq> tmp_path f \<longrightarrow> disk st1 q = disk st q"
    by blast
  have "distinct fs" "\<forall>g \<in> set fs. tmp_path g \<notin> set fs" using Cons.prems(2,3) by auto
  from Cons.IH [OF r this] obtain texts where
    rds: "map (read_file (disk st1)) fs = map Inr texts"
    and h2: "dict_mset (total_hits st') =
      dict_mset (total_hits st1) + (\<Sum>s \<leftarrow> texts. filter_mset classified (mset s))"
    and c2: "total_changed st' =
      total_changed st1 + length [s \<leftarrow> texts. fst (normalize_text s (soft_hyphen a)) \<noteq> s]"
    and o2: "stdout st' = stdout st1 @
      [lit ''[CHANGED] '' @ show_path (fst fs). fs \<leftarrow> zip fs texts,
        fst (normalize_text (snd fs) (soft_hyphen a)) \<noteq> snd fs]"
    by blast
  have "\<forall>g \<in> set fs. disk st1 g = disk st g"
    using fr Cons.prems(2,3) by auto
  then have "map (read_file (disk st)) fs = map (read_file (disk st1)) fs"
    by (auto intro: read_file_cong)
  with rds rd have "map (read_file (disk st)) (f # fs) = map Inr (data # texts)" by simp
  moreover from h1 h2 have "dict_mset (total_hits st') =
      dict_mset (total_hits st) + (\<Sum>s \<leftarrow> data # texts. filter_mset classified (mset s))"
    by (simp add: add.assoc)
  moreover from c1 c2 have "total_changed st' = total_changed st +
      length [s \<leftarrow> data # texts. fst (normalize_text s (soft_hyphen a)) \<noteq> s]"
    by simp
  moreover from o1 o2 have "stdout st' = stdout st @
      [lit ''[CHANGED] '' @ show_path (fst fs). fs \<leftarrow> zip (f # fs) (data # texts),
        fst (normalize_text (snd fs) (soft_hyphen a)) \<noteq> snd fs]"
    by simp
  ultimately show ?case by blast
qed

text \<open>C17. The run invariant of the loop: over a list of distinct files none of which is
  another's temporary sibling, a run that raises nothing has read every file, its
  \<^verbatim>\<open>total_hits\<close> abstracts to the multiset of classified code points of all the
  texts read, \<^verbatim>\<open>total_changed\<close> counts the texts that changed, and exactly the changed
  files were announced by a \<^verbatim>\<open>[CHANGED]\<close> line, in order.\<close>

theorem run_files_totals:
  assumes "run_files a faults st files = Inr st'" "distinct files"
    "\<forall>f \<in> set files. tmp_path f \<notin> set files"
  shows "\<exists>texts. map (read_file (disk st)) files = map Inr texts \<and>
    dict_mset (total_hits st') =
      dict_mset (total_hits st) + (\<Sum>s \<leftarrow> texts. filter_mset classified (mset s)) \<and>
    total_changed st' =
      total_changed st + length [s \<leftarrow> texts. fst (normalize_text s (soft_hyphen a)) \<noteq> s] \<and>
    stdout st' = stdout st @
      [lit ''[CHANGED] '' @ show_path (fst fs). fs \<leftarrow> zip files texts,
        fst (normalize_text (snd fs) (soft_hyphen a)) \<noteq> snd fs]"
  using assms by (rule run_files_Inr_totals)

text \<open>C15. A write that fails part-way raises and leaves the original file intact, but
  the partly written temporary file stays on disk: the script does not remove it.\<close>

theorem process_file_write_fails:
  assumes "\<not> dry_run a" "read_file (disk st) f = Inr data"
    "fst (normalize_text data (soft_hyphen a)) \<noteq> data"
    "disk st (tmp_path f) \<noteq> Some Dir" "faults (tmp_path f) = Some (FailsAfter k)"
  shows "\<exists>st' bs. process_file a faults st f = Inl (WriteError (tmp_path f), st') \<and>
    write_text (fst (normalize_text data (soft_hyphen a))) = Some bs \<and>
    disk st' f = disk st f \<and> disk st' (tmp_path f) = Some (File (take k bs))"
proof -
  obtain bs where bs: "write_text (fst (normalize_text data (soft_hyphen a))) = Some bs"
    using write_text_normalized [OF assms(2)] by blast
  obtain new counts where nt: "normalize_text data (soft_hyphen a) = (new, counts)"
    by (cases "normalize_text data (soft_hyphen a)")
  with assms bs tmp_path_neq [of f] show ?thesis
    by (auto simp: process_file_def write_back_def Let_def)
qed

lemma read_file_errors:
  "read_file d f = Inl e \<Longrightarrow> e \<in> {FileNotFoundError f, IsADirectoryError f, UnicodeDecodeError f}"
  by (auto simp: read_file_def split: option.splits node.splits)

text \<open>C16. The write-back never raises \<^verbatim>\<open>UnicodeEncodeError\<close>: the text read by a
  strict UTF-8 decode holds only Unicode scalar values, and the normalisation adds only
  hyphen-minus.\<close>

theorem process_file_no_encode_error:
  "process_file a faults st f = Inl (e, st') \<Longrightarrow> e \<noteq> UnicodeEncodeError p"
proof
  assume p: "process_file a faults st f = Inl (e, st')" and e: "e = UnicodeEncodeError p"
  then obtain data where rd: "read_file (disk st) f = Inr data"
    by (cases "read_file (disk st) f") (auto simp: process_file_def dest: read_file_errors)
  obtain bs where bs: "write_text (fst (normalize_text data (soft_hyphen a))) = Some bs"
    using write_text_normalized [OF rd] by blast
  obtain new counts where nt: "normalize_text data (soft_hyphen a) = (new, counts)"
    by (cases "normalize_text data (soft_hyphen a)")
  from p e rd bs nt show False
    by (auto simp: process_file_def write_back_def Let_def
        split: if_splits option.splits write_fault.splits)
qed

lemma run_files_dry_run:
  "dry_run a \<Longrightarrow> run_files a faults st files = Inr st' \<or> run_files a faults st files = Inl (e, st') \<Longrightarrow>
   disk st' = disk st"
proof (induction files arbitrary: st)
  case Nil
  then show ?case by auto
next
  case (Cons f fs)
  show ?case
  proof (cases "process_file a faults st f")
    case (Inl err)
    then obtain e0 s0 where "err = (e0, s0)" by (cases err)
    moreover have "process_file a faults st f = Inl (e0, s0) \<Longrightarrow> s0 = st"
      by (auto simp: process_file_def Let_def Cons.prems(1) split: sum.splits prod.splits if_splits)
    ultimately show ?thesis using Cons.prems Inl by auto
  next
    case (Inr st1)
    with Cons.prems(1) have "disk st1 = disk st" by (rule process_file_dry_run)
    with Cons.IH [of st1] Cons.prems Inr show ?thesis by auto
  qed
qed

text \<open>C18. With \<^verbatim>\<open>--dry-run\<close> the program never changes the disk, whatever happens
  during the run.\<close>

theorem main_dry_run:
  "dry_run a \<Longrightarrow> final_disk (main a faults d walk) = d"
  using run_files_dry_run [of a faults "\<lparr>disk = d, total_changed = 0, total_hits = [], stdout = []\<rparr>"]
  by (fastforce simp: main_def Let_def split: sum.splits)

text \<open>C19. When no file matches, the program prints a single "No *ext files found under
  root" line and exits with status 0; no summary is printed.\<close>

theorem main_no_files:
  "iter_files d walk (root a) (ext a) = Inr [] \<Longrightarrow>
   main a faults d walk =
     \<lparr>exit_code = 0, final_disk = d,
      printed = [lit ''No *'' @ ext a @ lit '' files found under '' @ show_path (root a)],
      raised = None\<rparr>"
  by (simp add: main_def)

text \<open>C20. A root that does not exist (or is not a directory) is not an error: for
  an extension that makes a valid pattern (\<^verbatim>\<open>*ext\<close> is \<^verbatim>\<open>**\<close> or holds no
  \<^verbatim>\<open>**\<close>) the program exits with status 0, raises nothing and leaves the disk
  unchanged.\<close>

theorem main_root_not_a_directory:
  "d (root a) \<noteq> Some Dir \<Longrightarrow> ext a = [42] \<or> \<not> has_double_star (42 # ext a) \<Longrightarrow>
   exit_code (main a faults d walk) = 0 \<and> final_disk (main a faults d walk) = d \<and> raised (main a faults d walk) = None"
  by (auto simp: main_def iter_files_def rglob_def)

subsection \<open>The program as a whole\<close>

lemma main_Inr:
  "iter_files d walk (root a) (ext a) = Inr files \<Longrightarrow> files \<noteq> [] \<Longrightarrow>
   run_files a faults \<lparr>disk = d, total_changed = 0, total_hits = [], stdout = []\<rparr> files = Inr st \<Longrightarrow>
   main a faults d walk =
     \<lparr>exit_code = 0, final_disk = disk st,
      printed = stdout st @ summary_lines (length files) (total_changed st) (total_hits st), raised = None\<rparr>"
  by (simp add: main_def)

lemma main_Inl:
  "iter_files d walk (root a) (ext a) = Inr files \<Longrightarrow> files \<noteq> [] \<Longrightarrow>
   run_files a faults \<lparr>disk = d, total_changed = 0, total_hits = [], stdout = []\<rparr> files = Inl (e, st) \<Longrightarrow>
   main a faults d walk = \<lparr>exit_code = 1, final_disk = disk st, printed = stdout st, raised = Some e\<rparr>"
  by (simp add: main_def)


lemma process_file_completes:
  assumes "read_file (disk st) f = Inr data" "disk st (tmp_path f) \<noteq> Some Dir" "faults (tmp_path f) = None"
  shows "\<exists>st'. process_file a faults st f = Inr st' \<and> disk st' (tmp_path f) \<noteq> Some Dir \<and>
    (\<forall>p. p \<noteq> f \<and> p \<noteq> tmp_path f \<longrightarrow> disk st' p = disk st p)"
proof -
  obtain new counts where nt: "normalize_text data (soft_hyphen a) = (new, counts)"
    by (cases "normalize_text data (soft_hyphen a)")
  obtain bs where bs: "write_text new = Some bs"
    using write_text_normalized [OF assms(1), of "soft_hyphen a"] nt by auto
  show ?thesis
    using assms nt bs tmp_path_neq [of f]
    by (auto simp: process_file_def write_back_def Let_def)
qed

lemma run_files_completes:
  assumes "map (read_file (disk st)) files = map Inr texts" "distinct files"
    "\<forall>f \<in> set files. tmp_path f \<notin> set files"
    "\<forall>f \<in> set files. disk st (tmp_path f) \<noteq> Some Dir \<and> faults (tmp_path f) = None"
  shows "\<exists>st'. run_files a faults st files = Inr st'"
  using assms
proof (induction files arbitrary: st texts)
  case Nil
  then show ?case by simp
next
  case (Cons f fs)
  from Cons.prems(1) obtain data ts where rd: "read_file (disk st) f = Inr data"
    and rds: "map (read_file (disk st)) fs = map Inr ts"
    by (cases texts) auto
  from Cons.prems(4) have "disk st (tmp_path f) \<noteq> Some Dir" "faults (tmp_path f) = None" by auto
  from process_file_completes [where faults = faults and a = a, OF rd this] obtain st1 where
    p: "process_file a faults st f = Inr st1" and t1: "disk st1 (tmp_path f) \<noteq> Some Dir"
    and fr: "\<forall>q. q \<noteq> f \<and> q \<noteq> tmp_path f \<longrightarrow> disk st1 q = disk st q"
    by blast
  have ne: "\<forall>g \<in> set fs. g \<noteq> f \<and> g \<noteq> tmp_path f \<and> tmp_path g \<noteq> f"
    using Cons.prems(2,3) by auto
  with fr have "map (read_file (disk st1)) fs = map (read_file (disk st)) fs"
    by (auto intro: read_file_cong)
  with rds have "map (read_file (disk st1)) fs = map Inr ts" by simp
  moreover have "distinct fs" "\<forall>g \<in> set fs. tmp_path g \<notin> set fs" using Cons.prems(2,3) by auto
  moreover have "\<forall>g \<in> set fs. disk st1 (tmp_path g) \<noteq> Some Dir \<and> faults (tmp_path g) = None"
  proof
    fix g assume g: "g \<in> set fs"
    have "disk st1 (tmp_path g) \<noteq> Some Dir"
    proof (cases "tmp_path g = tmp_path f")
      case True with t1 show ?thesis by simp
    next
      case False with fr ne g Cons.prems(4) show ?thesis by auto
    qed
    with g Cons.prems(4) show "disk st1 (tmp_path g) \<noteq> Some Dir \<and> faults (tmp_path g) = None" by auto
  qed
  ultimately obtain st' where "run_files a faults st1 fs = Inr st'" using Cons.IH by blast
  with p show ?case by simp
qed

text \<open>C30. Liveness of a run: when every file found can be read, no file is another's
  temporary sibling, no temporary path is a directory and no write fails, the program
  runs to the end: it exits with status 0 and raises nothing.\<close>

theorem main_completes:
  assumes "iter_files d walk (root a) (ext a) = Inr files" "map (read_file d) files = map Inr texts"
    "distinct files" "\<forall>f \<in> set files. tmp_path f \<notin> set files"
    "\<forall>f \<in> set files. d (tmp_path f) \<noteq> Some Dir \<and> faults (tmp_path f) = None"
  shows "exit_code (main a faults d walk) = 0 \<and> raised (main a faults d walk) = None"
proof (cases "files = []")
  case True
  with assms(1) show ?thesis by (simp add: main_def)
next
  case False
  from run_files_completes [of "\<lparr>disk = d, total_changed = 0, total_hits = [], stdout = []\<rparr>", simplified, OF assms(2-5)]
  obtain st where "run_files a faults \<lparr>disk = d, total_changed = 0, total_hits = [], stdout = []\<rparr> files = Inr st"
    by blast
  from main_Inr [OF assms(1) False this] show ?thesis by simp
qed

text \<open>C31. The report of a complete run, in terms of the files read: the
  \<^verbatim>\<open>[CHANGED]\<close> lines of the files whose text changed, in order, then the summary with
  the number of files found, the number of changed texts, and a table whose hits are the
  classified code points of all the texts.\<close>

theorem main_report:
  assumes "iter_files d walk (root a) (ext a) = Inr files" "files \<noteq> []" "map (read_file d) files = map Inr texts"
    "distinct files" "\<forall>f \<in> set files. tmp_path f \<notin> set files"
    "\<forall>f \<in> set files. d (tmp_path f) \<noteq> Some Dir \<and> faults (tmp_path f) = None"
  shows "\<exists>h. printed (main a faults d walk) =
      [lit ''[CHANGED] '' @ show_path (fst fs). fs \<leftarrow> zip files texts,
        fst (normalize_text (snd fs) (soft_hyphen a)) \<noteq> snd fs] @
      summary_lines (length files) (length [s \<leftarrow> texts. fst (normalize_text s (soft_hyphen a)) \<noteq> s]) h \<and>
    dict_mset h = (\<Sum>s \<leftarrow> texts. filter_mset classified (mset s))"
proof -
  let ?st0 = "\<lparr>disk = d, total_changed = 0, total_hits = [], stdout = []\<rparr>"
  from run_files_completes [of ?st0, simplified, OF assms(3-6)]
  obtain st where r: "run_files a faults ?st0 files = Inr st" by blast
  from run_files_Inr_totals [OF r assms(4,5)] obtain texts' where
    rd: "map (read_file d) files = map Inr texts'"
    and h: "dict_mset (total_hits st) = (\<Sum>s \<leftarrow> texts'. filter_mset classified (mset s))"
    and c: "total_changed st = length [s \<leftarrow> texts'. fst (normalize_text s (soft_hyphen a)) \<noteq> s]"
    and o: "stdout st = [lit ''[CHANGED] '' @ show_path (fst fs). fs \<leftarrow> zip files texts',
        fst (normalize_text (snd fs) (soft_hyphen a)) \<noteq> snd fs]"
    by auto
  from rd assms(3) have "texts' = texts" by (simp add: inj_map_eq_map)
  with main_Inr [OF assms(1,2) r] h c o show ?thesis by auto
qed

subsection \<open>Enumeration\<close>

lemma has_double_star_Cons:
  "has_double_star (c # s) \<longleftrightarrow> (c = 42 \<and> s \<noteq> [] \<and> hd s = 42) \<or> has_double_star s"
  by (cases s) auto

lemma has_double_star_tl: "has_double_star s \<Longrightarrow> 42 \<in> set (tl s)"
proof (induction s)
  case (Cons c s)
  then show ?case by (cases s) (auto simp: has_double_star_Cons)
qed simp

lemma has_double_star_append:
  "has_double_star (s @ t) \<longleftrightarrow>
     has_double_star s \<or> has_double_star t \<or> (s \<noteq> [] \<and> t \<noteq> [] \<and> last s = 42 \<and> hd t = 42)"
  by (induction s) (auto simp: has_double_star_Cons)

lemma glob_free_no_double_star: "glob_free e \<Longrightarrow> \<not> has_double_star (c # e)"
  using has_double_star_tl [of "c # e"] by (auto simp: glob_free_def)

text \<open>For a valid pattern the files found are those below the root whose name lies in the
  language of the translated pattern.\<close>

lemma iter_files_lang:
  "\<not> has_double_star (42 # e) \<Longrightarrow> d r = Some Dir \<Longrightarrow>
   iter_files d walk r e =
     Inr [p \<leftarrow> walk. length r < length p \<and> take (length r) p = r \<and> last p \<in> glob_lang (translate (42 # e)) \<and>
       is_file d p]"
  by (cases "e = [42]") (simp_all add: iter_files_def rglob_def gmatch_glob_lang conj_assoc)

text \<open>C24. For an extension without glob metacharacters, \<open>iter_files\<close> lists, in
  traversal order, exactly the files strictly below the root whose name ends with the
  extension: the suffix test the specification describes.\<close>

theorem iter_files_suffix:
  "glob_free e \<Longrightarrow> d r = Some Dir \<Longrightarrow>
   iter_files d walk r e =
     Inr [p \<leftarrow> walk. length r < length p \<and> take (length r) p = r \<and> (\<exists>u. last p = u @ e) \<and> is_file d p]"
proof -
  assume g: "glob_free e" and r: "d r = Some Dir"
  from g have "\<forall>c \<in> set e. c \<noteq> 42 \<and> c \<noteq> 63 \<and> c \<noteq> 91" by (simp add: glob_free_def)
  then have "\<And>n. fnmatch (42 # e) n \<longleftrightarrow> (\<exists>u. n = u @ e)" by (rule fnmatch_star_literal)
  with r glob_free_no_double_star [OF g, of 42] show ?thesis
    by (cases "e = [42]") (simp_all add: iter_files_def rglob_def conj_assoc)
qed

text \<open>C32. The extension is a glob pattern, not a suffix: for an extension without
  brackets that makes a valid pattern, the files found are those whose name lies in the
  language of \<^verbatim>\<open>*ext\<close> read with \<^verbatim>\<open>*\<close> as any string and \<^verbatim>\<open>?\<close> as any
  character (\<open>pat_lang\<close>), so \<^verbatim>\<open>--ext .t?x\<close> also lists \<^verbatim>\<open>a.tax\<close>.\<close>

theorem iter_files_pattern:
  "91 \<notin> set e \<Longrightarrow> \<not> has_double_star (42 # e) \<Longrightarrow> d r = Some Dir \<Longrightarrow>
   iter_files d walk r e =
     Inr [p \<leftarrow> walk. length r < length p \<and> take (length r) p = r \<and> last p \<in> pat_lang (42 # e) \<and> is_file d p]"
proof -
  assume h: "91 \<notin> set e" "\<not> has_double_star (42 # e)" "d r = Some Dir"
  from h(1) have "glob_lang (translate (42 # e)) = pat_lang (42 # e)" by (intro glob_lang_translate_plain) simp
  with iter_files_lang [where d = d and r = r and walk = walk, OF h(2,3)] show ?thesis by (simp only:)
qed

text \<open>C33. A bracket expression in the extension tests one character: for literal text
  \<open>u\<close> and \<open>v\<close> around a bracket of plain characters \<open>w\<close> (no range, negated by a
  leading \<^verbatim>\<open>!\<close> when \<open>neg\<close>), the files found are those whose name ends with
  \<open>u\<close>, one character that is in \<open>w\<close> (not in \<open>w\<close> when negated), and \<open>v\<close>.\<close>

theorem iter_files_bracket:
  assumes "glob_free u" "glob_free v" "w \<noteq> []" "hd w \<noteq> 33" "93 \<notin> set w" "45 \<notin> set w"
    "\<not> has_double_star w" "d r = Some Dir"
  shows "iter_files d walk r (u @ 91 # (if neg then 33 # w else w) @ 93 # v) =
    Inr [p \<leftarrow> walk. length r < length p \<and> take (length r) p = r \<and>
      (\<exists>x c. last p = x @ u @ c # v \<and> (c \<in> set w) \<noteq> neg) \<and> is_file d p]"
proof -
  let ?s = "if neg then 33 # w else w"
  have g: "\<forall>c \<in> set u. c \<noteq> 42 \<and> c \<noteq> 63 \<and> c \<noteq> 91" "\<forall>c \<in> set v. c \<noteq> 42 \<and> c \<noteq> 63 \<and> c \<noteq> 91"
    using assms(1,2) by (auto simp: glob_free_def)
  have t: "translate (42 # u @ 91 # ?s @ 93 # v) = GStar # map GChar u @ GClass neg [w] # map GChar v"
    using translate_star_class [OF g bracket_plain(1) [OF assms(3-6)]] bracket_plain(2) [OF assms(3-6)] by simp
  have nd: "\<not> has_double_star (42 # u @ 91 # ?s @ 93 # v)"
    using assms(7) glob_free_no_double_star [OF assms(1), of 42] glob_free_no_double_star [OF assms(2), of 93]
    by (auto simp: has_double_star_append has_double_star_Cons hd_append)
  have m: "n \<in> glob_lang (translate (42 # u @ 91 # ?s @ 93 # v)) \<longleftrightarrow>
      (\<exists>x c. n = x @ u @ c # v \<and> (c \<in> set w) \<noteq> neg)" for n
    unfolding t by (subst glob_lang_star_item) (auto simp: in_class_def)
  show ?thesis unfolding iter_files_lang [where d = d and r = r, OF nd assms(8)] m ..
qed

text \<open>C34. CPython's removal of empty ranges turns a later \<^verbatim>\<open>!\<close> into a negation:
  for \<open>b < a\<close>, the bracket \<^verbatim>\<open>[a-b!w]\<close> selects the names whose character is
  \<^emph>\<open>not\<close> in \<open>w\<close>, although as written it holds an empty range, \<^verbatim>\<open>!\<close> and
  \<open>w\<close>.\<close>

theorem iter_files_bracket_quirk:
  assumes "glob_free u" "glob_free v" "b < a" "a \<noteq> 33" "a \<noteq> 93" "b \<noteq> 93" "93 \<notin> set w" "45 \<notin> set w"
    "\<not> has_double_star w" "d r = Some Dir"
  shows "iter_files d walk r (u @ 91 # a # 45 # b # 33 # w @ 93 # v) =
    Inr [p \<leftarrow> walk. length r < length p \<and> take (length r) p = r \<and>
      (\<exists>x c. last p = x @ u @ c # v \<and> c \<notin> set w) \<and> is_file d p]"
proof -
  have g: "\<forall>c \<in> set u. c \<noteq> 42 \<and> c \<noteq> 63 \<and> c \<noteq> 91" "\<forall>c \<in> set v. c \<noteq> 42 \<and> c \<noteq> 63 \<and> c \<noteq> 91"
    using assms(1,2) by (auto simp: glob_free_def)
  have t: "translate (42 # u @ 91 # a # 45 # b # 33 # w @ 93 # v) = GStar # map GChar u @ GClass True [w] # map GChar v"
    using translate_star_class [OF g bracket_empty_range_bang(1) [OF assms(3-8)]]
      bracket_empty_range_bang(2) [OF assms(3-8)] by simp
  have nd: "\<not> has_double_star (42 # u @ 91 # a # 45 # b # 33 # w @ 93 # v)"
    using assms(9) glob_free_no_double_star [OF assms(1), of 42] glob_free_no_double_star [OF assms(2), of 93]
    by (auto simp: has_double_star_append has_double_star_Cons hd_append)
  have m: "n \<in> glob_lang (translate (42 # u @ 91 # a # 45 # b # 33 # w @ 93 # v)) \<longleftrightarrow>
      (\<exists>x c. n = x @ u @ c # v \<and> c \<notin> set w)" for n
    unfolding t by (subst glob_lang_star_item) (auto simp: in_class_def)
  show ?thesis unfolding iter_files_lang [where d = d and r = r, OF nd assms(10)] m ..
qed

text \<open>C35. An extension that makes \<^verbatim>\<open>*ext\<close> hold \<^verbatim>\<open>**\<close> without being it (any
  extension starting with \<^verbatim>\<open>*\<close> but \<^verbatim>\<open>*\<close> itself) makes \<^verbatim>\<open>Path.rglob\<close>
  raise \<^verbatim>\<open>ValueError\<close>: the program exits with status 1, prints nothing and leaves
  the disk unchanged, whatever the root.\<close>

theorem main_invalid_pattern:
  "has_double_star (42 # ext a) \<Longrightarrow> ext a \<noteq> [42] \<Longrightarrow>
   main a faults d walk =
     \<lparr>exit_code = 1, final_disk = d, printed = [], raised = Some (ValueError (42 # ext a))\<rparr>"
  by (simp add: main_def iter_files_def rglob_def)

text \<open>C36. With \<^verbatim>\<open>--ext '*'\<close> the pattern is \<^verbatim>\<open>**\<close>, which selects directories
  only: no file is ever found, and the program reports that none was found.\<close>

theorem main_ext_star:
  "ext a = [42] \<Longrightarrow>
   main a faults d walk =
     \<lparr>exit_code = 0, final_disk = d,
      printed = [lit ''No *'' @ ext a @ lit '' files found under '' @ show_path (root a)],
      raised = None\<rparr>"
  by (simp add: main_def iter_files_def rglob_def is_file_def filter_empty_conv)

subsection \<open>Witnesses\<close>

theorem process_file_unchanged_witness:
  "read_file (disk \<lparr>disk = [[[100]] \<mapsto> Dir, [[100], [97]] \<mapsto> File [112]], total_changed = 0, total_hits = [], stdout = []\<rparr>)
     [[100], [97]] = Inr [112] \<and>
   \<not> classified 112 \<and>
   process_file \<lparr>root = [[100]], ext = [97], soft_hyphen = lit ''hyphen'', dry_run = False\<rparr> (\<lambda>_. None)
     \<lparr>disk = [[[100]] \<mapsto> Dir, [[100], [97]] \<mapsto> File [112]], total_changed = 0, total_hits = [], stdout = []\<rparr>
     [[100], [97]] =
   Inr \<lparr>disk = [[[100]] \<mapsto> Dir, [[100], [97]] \<mapsto> File [112]], total_changed = 0, total_hits = [], stdout = []\<rparr>"
proof -
  have h1: "read_file (disk \<lparr>disk = [[[100]] \<mapsto> Dir, [[100], [97]] \<mapsto> File [112]], total_changed = 0, total_hits = [], stdout = []\<rparr>)
     [[100], [97]] = Inr [112]"
    by (simp add: read_file_def read_text_def utf8_seq_def)
  have h2: "\<forall>c \<in> set [112]. \<not> classified c"
    by (simp add: classified_iff TO_ASCII_HYPHEN_def REMOVE_def SOFT_HYPHEN_def)
  show ?thesis using h1 h2 process_file_unchanged [OF h1 h2] by simp
qed

theorem process_file_write_back_witness:
  "\<not> dry_run \<lparr>root = [[100]], ext = [97], soft_hyphen = lit ''hyphen'', dry_run = False\<rparr> \<and>
   read_file (disk \<lparr>disk = [[[100]] \<mapsto> Dir, [[100], [97]] \<mapsto> File [109, 0xE2, 0x80, 0x93]],
       total_changed = 0, total_hits = [], stdout = []\<rparr>) [[100], [97]] = Inr [109, 0x2013] \<and>
   normalize_text [109, 0x2013] (soft_hyphen \<lparr>root = [[100]], ext = [97], soft_hyphen = lit ''hyphen'', dry_run = False\<rparr>)
     = ([109, 45], [(0x2013, 1)]) \<and>
   [109, 45] \<noteq> [109, 0x2013::nat] \<and>
   disk \<lparr>disk = [[[100]] \<mapsto> Dir, [[100], [97]] \<mapsto> File [109, 0xE2, 0x80, 0x93]],
       total_changed = 0, total_hits = [], stdout = []\<rparr> (tmp_path [[100], [97]]) \<noteq> Some Dir \<and>
   (\<lambda>_. None) (tmp_path [[100], [97]]) = (None :: write_fault option) \<and>
   (\<exists>st'. process_file \<lparr>root = [[100]], ext = [97], soft_hyphen = lit ''hyphen'', dry_run = False\<rparr> (\<lambda>_. None)
       \<lparr>disk = [[[100]] \<mapsto> Dir, [[100], [97]] \<mapsto> File [109, 0xE2, 0x80, 0x93]],
        total_changed = 0, total_hits = [], stdout = []\<rparr> [[100], [97]] = Inr st' \<and>
     read_file (disk st') [[100], [97]] = Inr [109, 45] \<and>
     disk st' (tmp_path [[100], [97]]) = None \<and>
     (\<forall>p. p \<noteq> [[100], [97]] \<and> p \<noteq> tmp_path [[100], [97]] \<longrightarrow>
        disk st' p = ([[[100]] \<mapsto> Dir, [[100], [97]] \<mapsto> File [109, 0xE2, 0x80, 0x93]]) p) \<and>
     total_changed st' = Suc 0 \<and> total_hits st' = merge_counts [] [(0x2013, 1)])"
proof -
  let ?a = "\<lparr>root = [[100]], ext = [97], soft_hyphen = lit ''hyphen'', dry_run = False\<rparr>"
  let ?st = "\<lparr>disk = [[[100]] \<mapsto> Dir, [[100], [97]] \<mapsto> File [109, 0xE2, 0x80, 0x93]],
        total_changed = 0, total_hits = [], stdout = []\<rparr>"
  have h1: "\<not> dry_run ?a" by simp
  have h2: "read_file (disk ?st) [[100], [97]] = Inr [109, 0x2013]"
    by (simp add: read_file_def read_text_def utf8_seq_def is_cont_def)
  have h3: "normalize_text [109, 0x2013] (soft_hyphen ?a) = ([109, 45], [(0x2013, 1)])"
    by (simp add: normalize_text_def bump_def TO_ASCII_HYPHEN_def REMOVE_def SOFT_HYPHEN_def)
  have h4: "[109, 45] \<noteq> [109, 0x2013::nat]" by simp
  have h5: "disk ?st (tmp_path [[100], [97]]) \<noteq> Some Dir" by (simp add: tmp_path_def)
  have h6: "(\<lambda>_. None) (tmp_path [[100], [97]]) = (None :: write_fault option)" by simp
  from process_file_write_back [OF h1 h2 h3 h4 h5 h6] h1 h2 h3 h4 h5 h6 show ?thesis by simp
qed

theorem process_file_write_fails_witness:
  "\<not> dry_run \<lparr>root = [[100]], ext = [97], soft_hyphen = lit ''hyphen'', dry_run = False\<rparr> \<and>
   read_file [[[100]] \<mapsto> Dir, [[100], [97]] \<mapsto> File [109, 0xE2, 0x80, 0x93]] [[100], [97]] = Inr [109, 0x2013] \<and>
   fst (normalize_text [109, 0x2013] (lit ''hyphen'')) \<noteq> [109, 0x2013] \<and>
   ([[[100]] \<mapsto> Dir, [[100], [97]] \<mapsto> File [109, 0xE2, 0x80, 0x93]]) (tmp_path [[100], [97]]) \<noteq> Some Dir \<and>
   (\<lambda>p. if p = tmp_path [[100], [97]] then Some (FailsAfter 1) else None) (tmp_path [[100], [97]]) =
     Some (FailsAfter 1) \<and>
   (\<exists>st' bs. process_file \<lparr>root = [[100]], ext = [97], soft_hyphen = lit ''hyphen'', dry_run = False\<rparr>
       (\<lambda>p. if p = tmp_path [[100], [97]] then Some (FailsAfter 1) else None)
       \<lparr>disk = [[[100]] \<mapsto> Dir, [[100], [97]] \<mapsto> File [109, 0xE2, 0x80, 0x93]],
        total_changed = 0, total_hits = [], stdout = []\<rparr> [[100], [97]] =
       Inl (WriteError (tmp_path [[100], [97]]), st') \<and>
     write_text (fst (normalize_text [109, 0x2013] (lit ''hyphen''))) = Some bs \<and>
     disk st' [[100], [97]] = Some (File [109, 0xE2, 0x80, 0x93]) \<and>
     disk st' (tmp_path [[100], [97]]) = Some (File (take 1 bs)))"
proof -
  let ?a = "\<lparr>root = [[100]], ext = [97], soft_hyphen = lit ''hyphen'', dry_run = False\<rparr>"
  let ?d = "[[[100]] \<mapsto> Dir, [[100], [97]] \<mapsto> File [109, 0xE2, 0x80, 0x93]]"
  let ?st = "\<lparr>disk = ?d, total_changed = 0, total_hits = [], stdout = []\<rparr>"
  let ?F = "\<lambda>p. if p = tmp_path [[100], [97]] then Some (FailsAfter 1) else None"
  have h1: "\<not> dry_run ?a" by simp
  have h2: "read_file (disk ?st) [[100], [97]] = Inr [109, 0x2013]"
    by (simp add: read_file_def read_text_def utf8_seq_def is_cont_def)
  have h3: "fst (normalize_text [109, 0x2013] (soft_hyphen ?a)) \<noteq> [109, 0x2013]"
    by (simp add: normalize_text_def bump_def TO_ASCII_HYPHEN_def REMOVE_def SOFT_HYPHEN_def)
  have h4: "disk ?st (tmp_path [[100], [97]]) \<noteq> Some Dir" by (simp add: tmp_path_def)
  have h5: "?F (tmp_path [[100], [97]]) = Some (FailsAfter 1)" by simp
  from process_file_write_fails [where faults = ?F, OF h1 h2 h3 h4 h5] h1 h2 h3 h4 h5 show ?thesis by simp
qed

theorem process_file_error_keeps_file_witness:
  "process_file \<lparr>root = [[100]], ext = [97], soft_hyphen = lit ''hyphen'', dry_run = False\<rparr> (\<lambda>_. None)
     \<lparr>disk = [[[100]] \<mapsto> Dir, [[100], [97]] \<mapsto> File [0xFF]], total_changed = 0, total_hits = [], stdout = []\<rparr>
     [[100], [97]] =
   Inl (UnicodeDecodeError [[100], [97]],
     \<lparr>disk = [[[100]] \<mapsto> Dir, [[100], [97]] \<mapsto> File [0xFF]], total_changed = 0, total_hits = [], stdout = []\<rparr>) \<and>
   disk \<lparr>disk = [[[100]] \<mapsto> Dir, [[100], [97]] \<mapsto> File [0xFF]], total_changed = 0, total_hits = [], stdout = []\<rparr>
     [[100], [97]] = Some (File [0xFF])"
proof -
  let ?st = "\<lparr>disk = [[[100]] \<mapsto> Dir, [[100], [97]] \<mapsto> File [0xFF]], total_changed = 0, total_hits = [], stdout = []\<rparr>"
  have h: "process_file \<lparr>root = [[100]], ext = [97], soft_hyphen = lit ''hyphen'', dry_run = False\<rparr> (\<lambda>_. None)
     ?st [[100], [97]] = Inl (UnicodeDecodeError [[100], [97]], ?st)"
    by (simp add: process_file_def read_file_def read_text_def utf8_seq_def)
  from process_file_error_keeps_file [OF h] h show ?thesis by simp
qed

theorem process_file_no_encode_error_witness:
  "process_file \<lparr>root = [[100]], ext = [97], soft_hyphen = lit ''hyphen'', dry_run = False\<rparr> (\<lambda>_. None)
     \<lparr>disk = [[[100]] \<mapsto> Dir, [[100], [97]] \<mapsto> File [0xFF]], total_changed = 0, total_hits = [], stdout = []\<rparr>
     [[100], [97]] =
   Inl (UnicodeDecodeError [[100], [97]],
     \<lparr>disk = [[[100]] \<mapsto> Dir, [[100], [97]] \<mapsto> File [0xFF]], total_changed = 0, total_hits = [], stdout = []\<rparr>) \<and>
   UnicodeDecodeError [[100], [97]] \<noteq> UnicodeEncodeError (tmp_path [[100], [97]])"
proof -
  let ?st = "\<lparr>disk = [[[100]] \<mapsto> Dir, [[100], [97]] \<mapsto> File [0xFF]], total_changed = 0, total_hits = [], stdout = []\<rparr>"
  have h: "process_file \<lparr>root = [[100]], ext = [97], soft_hyphen = lit ''hyphen'', dry_run = False\<rparr> (\<lambda>_. None)
     ?st [[100], [97]] = Inl (UnicodeDecodeError [[100], [97]], ?st)"
    by (simp add: process_file_def read_file_def read_text_def utf8_seq_def)
  from process_file_no_encode_error [OF h, of "tmp_path [[100], [97]]"] h show ?thesis by simp
qed

theorem main_dry_run_witness:
  "dry_run \<lparr>root = [[100]], ext = [97], soft_hyphen = lit ''remove'', dry_run = True\<rparr> \<and>
   final_disk (main \<lparr>root = [[100]], ext = [97], soft_hyphen = lit ''remove'', dry_run = True\<rparr> (\<lambda>_. None)
     [[[100]] \<mapsto> Dir, [[100], [97]] \<mapsto> File [0xC2, 0xAD]] [[[100]], [[100], [97]]]) =
   [[[100]] \<mapsto> Dir, [[100], [97]] \<mapsto> File [0xC2, 0xAD]]"
proof -
  have h: "dry_run \<lparr>root = [[100]], ext = [97], soft_hyphen = lit ''remove'', dry_run = True\<rparr>" by simp
  show ?thesis using h main_dry_run [OF h, of "\<lambda>_. None" "[[[100]] \<mapsto> Dir, [[100], [97]] \<mapsto> File [0xC2, 0xAD]]"
      "[[[100]], [[100], [97]]]"] by simp
qed

theorem main_no_files_witness:
  "iter_files [[[100]] \<mapsto> Dir, [[100], [120]] \<mapsto> File [112]] [[[100]], [[100], [120]]] [[100]] [97] = Inr [] \<and>
   main \<lparr>root = [[100]], ext = [97], soft_hyphen = lit ''hyphen'', dry_run = False\<rparr> (\<lambda>_. None)
     [[[100]] \<mapsto> Dir, [[100], [120]] \<mapsto> File [112]] [[[100]], [[100], [120]]] =
   \<lparr>exit_code = 0, final_disk = [[[100]] \<mapsto> Dir, [[100], [120]] \<mapsto> File [112]],
    printed = [lit ''No *'' @ [97] @ lit '' files found under '' @ show_path [[100]]], raised = None\<rparr>"
proof -
  let ?a = "\<lparr>root = [[100]], ext = [97], soft_hyphen = lit ''hyphen'', dry_run = False\<rparr>"
  have h: "iter_files [[[100]] \<mapsto> Dir, [[100], [120]] \<mapsto> File [112]] [[[100]], [[100], [120]]] (root ?a) (ext ?a) = Inr []"
    by (simp add: iter_files_def rglob_def)
  from main_no_files [OF h, of "\<lambda>_. None"] h show ?thesis by simp
qed

theorem main_root_not_a_directory_witness:
  "([[[100], [97]] \<mapsto> File [0xE2, 0x80, 0x93]]) (root \<lparr>root = [[120]], ext = [97], soft_hyphen = lit ''hyphen'', dry_run = False\<rparr>)
     \<noteq> Some Dir \<and> \<not> has_double_star (42 # ext \<lparr>root = [[120]], ext = [97], soft_hyphen = lit ''hyphen'', dry_run = False\<rparr>) \<and>
   exit_code (main \<lparr>root = [[120]], ext = [97], soft_hyphen = lit ''hyphen'', dry_run = False\<rparr> (\<lambda>_. None)
     [[[100], [97]] \<mapsto> File [0xE2, 0x80, 0x93]] [[[100], [97]]]) = 0 \<and>
   raised (main \<lparr>root = [[120]], ext = [97], soft_hyphen = lit ''hyphen'', dry_run = False\<rparr> (\<lambda>_. None)
     [[[100], [97]] \<mapsto> File [0xE2, 0x80, 0x93]] [[[100], [97]]]) = None"
proof -
  let ?a = "\<lparr>root = [[120]], ext = [97], soft_hyphen = lit ''hyphen'', dry_run = False\<rparr>"
  let ?d = "[[[100], [97]] \<mapsto> File [0xE2, 0x80, 0x93]]"
  have h: "?d (root ?a) \<noteq> Some Dir" by simp
  have v: "\<not> has_double_star (42 # ext ?a)" by simp
  from main_root_not_a_directory [where d = ?d, OF h disjI2 [OF v], of "\<lambda>_. None" "[[[100], [97]]]"] h v
  show ?thesis by simp
qed

theorem run_files_totals_witness:
  "\<exists>st'. run_files \<lparr>root = [[100]], ext = [], soft_hyphen = lit ''hyphen'', dry_run = False\<rparr> (\<lambda>_. None)
       \<lparr>disk = [[[100]] \<mapsto> Dir, [[100], [97]] \<mapsto> File [109, 0xE2, 0x80, 0x93], [[100], [98]] \<mapsto> File [112]],
        total_changed = 0, total_hits = [], stdout = []\<rparr> [[[100], [97]], [[100], [98]]] = Inr st' \<and>
     distinct [[[100], [97]], [[100], [98::nat]]] \<and>
     (\<forall>f \<in> set [[[100], [97]], [[100], [98]]]. tmp_path f \<notin> set [[[100], [97]], [[100], [98]]]) \<and>
     (\<exists>texts. map (read_file [[[100]] \<mapsto> Dir, [[100], [97]] \<mapsto> File [109, 0xE2, 0x80, 0x93], [[100], [98]] \<mapsto> File [112]])
          [[[100], [97]], [[100], [98]]] = map Inr texts \<and>
        dict_mset (total_hits st') = (\<Sum>s \<leftarrow> texts. filter_mset classified (mset s)) \<and>
        total_changed st' = length [s \<leftarrow> texts. fst (normalize_text s (lit ''hyphen'')) \<noteq> s] \<and>
        stdout st' = [lit ''[CHANGED] '' @ show_path (fst fs). fs \<leftarrow> zip [[[100], [97]], [[100], [98]]] texts,
          fst (normalize_text (snd fs) (lit ''hyphen'')) \<noteq> snd fs])"
proof -
  let ?a = "\<lparr>root = [[100]], ext = [], soft_hyphen = lit ''hyphen'', dry_run = False\<rparr>"
  let ?st = "\<lparr>disk = [[[100]] \<mapsto> Dir, [[100], [97]] \<mapsto> File [109, 0xE2, 0x80, 0x93], [[100], [98]] \<mapsto> File [112]],
        total_changed = 0, total_hits = [], stdout = []\<rparr>"
  let ?files = "[[[100], [97]], [[100], [98::nat]]]"
  have "\<exists>st'. run_files ?a (\<lambda>_. None) ?st ?files = Inr st'"
    by (simp add: process_file_def read_file_def read_text_def utf8_seq_def is_cont_def normalize_text_def
        bump_def TO_ASCII_HYPHEN_def REMOVE_def SOFT_HYPHEN_def write_back_def tmp_path_def write_text_def
        utf8_encode_char_def Let_def)
  then obtain st' where r: "run_files ?a (\<lambda>_. None) ?st ?files = Inr st'" by blast
  have d: "distinct ?files" by simp
  have t: "\<forall>f \<in> set ?files. tmp_path f \<notin> set ?files" by (simp add: tmp_path_def)
  from run_files_totals [OF r d t] r d t show ?thesis by auto
qed

theorem iter_files_suffix_witness:
  "glob_free (lit ''.t'') \<and> ([[lit ''d''] \<mapsto> Dir, [lit ''d'', lit ''a.t''] \<mapsto> File []]) [lit ''d''] = Some Dir \<and>
   iter_files [[lit ''d''] \<mapsto> Dir, [lit ''d'', lit ''a.t''] \<mapsto> File []] [[lit ''d''], [lit ''d'', lit ''a.t'']] [lit ''d''] (lit ''.t'') =
     Inr [p \<leftarrow> [[lit ''d''], [lit ''d'', lit ''a.t'']]. length [lit ''d''] < length p \<and> take (length [lit ''d'']) p = [lit ''d''] \<and>
        (\<exists>u. last p = u @ lit ''.t'') \<and> is_file [[lit ''d''] \<mapsto> Dir, [lit ''d'', lit ''a.t''] \<mapsto> File []] p]"
proof -
  have g: "glob_free (lit ''.t'')" by (simp add: glob_free_def)
  have r: "([[lit ''d''] \<mapsto> Dir, [lit ''d'', lit ''a.t''] \<mapsto> File []]) [lit ''d''] = Some Dir" by simp
  from iter_files_suffix [where d = "[[lit ''d''] \<mapsto> Dir, [lit ''d'', lit ''a.t''] \<mapsto> File []]", OF g r] g r
  show ?thesis by blast
qed

lemma witness_run_facts:
  "iter_files [[lit ''d''] \<mapsto> Dir, [lit ''d'', lit ''a.t''] \<mapsto> File [109, 0xE2, 0x80, 0x93]] [[lit ''d''], [lit ''d'', lit ''a.t'']] (root \<lparr>root = [lit ''d''], ext = lit ''.t'', soft_hyphen = lit ''hyphen'', dry_run = False\<rparr>) (ext \<lparr>root = [lit ''d''], ext = lit ''.t'', soft_hyphen = lit ''hyphen'', dry_run = False\<rparr>) = Inr [[lit ''d'', lit ''a.t'']]"
  "map (read_file ([[lit ''d''] \<mapsto> Dir, [lit ''d'', lit ''a.t''] \<mapsto> File [109, 0xE2, 0x80, 0x93]])) [[lit ''d'', lit ''a.t'']] = map Inr [[109, 8211]]"
  "distinct [[lit ''d'', lit ''a.t'']]"
  "\<forall>f \<in> set [[lit ''d'', lit ''a.t'']]. tmp_path f \<notin> set [[lit ''d'', lit ''a.t'']]"
  "\<forall>f \<in> set [[lit ''d'', lit ''a.t'']]. ([[lit ''d''] \<mapsto> Dir, [lit ''d'', lit ''a.t''] \<mapsto> File [109, 0xE2, 0x80, 0x93]]) (tmp_path f) \<noteq> Some Dir \<and> (\<lambda>_. None) (tmp_path f) = (None :: write_fault option)"
  by (simp_all add: iter_files_def rglob_def is_file_def read_file_def read_text_def utf8_seq_def is_cont_def tmp_path_def)

theorem main_completes_witness:
  "tmp_path [lit ''d'', lit ''a.t''] \<noteq> [lit ''d'', lit ''a.t''] \<and> ([[lit ''d''] \<mapsto> Dir, [lit ''d'', lit ''a.t''] \<mapsto> File [109, 0xE2, 0x80, 0x93]]) (tmp_path [lit ''d'', lit ''a.t'']) = None \<and>
   exit_code (main \<lparr>root = [lit ''d''], ext = lit ''.t'', soft_hyphen = lit ''hyphen'', dry_run = False\<rparr> (\<lambda>_. None) ([[lit ''d''] \<mapsto> Dir, [lit ''d'', lit ''a.t''] \<mapsto> File [109, 0xE2, 0x80, 0x93]]) [[lit ''d''], [lit ''d'', lit ''a.t'']]) = 0 \<and>
   raised (main \<lparr>root = [lit ''d''], ext = lit ''.t'', soft_hyphen = lit ''hyphen'', dry_run = False\<rparr> (\<lambda>_. None) ([[lit ''d''] \<mapsto> Dir, [lit ''d'', lit ''a.t''] \<mapsto> File [109, 0xE2, 0x80, 0x93]]) [[lit ''d''], [lit ''d'', lit ''a.t'']]) = None"
proof -
  have t: "tmp_path [lit ''d'', lit ''a.t''] \<noteq> [lit ''d'', lit ''a.t''] \<and> ([[lit ''d''] \<mapsto> Dir, [lit ''d'', lit ''a.t''] \<mapsto> File [109, 0xE2, 0x80, 0x93]]) (tmp_path [lit ''d'', lit ''a.t'']) = None" by (simp add: tmp_path_def)
  from t main_completes [OF witness_run_facts] show ?thesis by blast
qed

theorem main_report_witness:
  "\<exists>h. printed (main \<lparr>root = [lit ''d''], ext = lit ''.t'', soft_hyphen = lit ''hyphen'', dry_run = False\<rparr> (\<lambda>_. None) ([[lit ''d''] \<mapsto> Dir, [lit ''d'', lit ''a.t''] \<mapsto> File [109, 0xE2, 0x80, 0x93]]) [[lit ''d''], [lit ''d'', lit ''a.t'']]) =
      [lit ''[CHANGED] /d/a.t''] @ summary_lines 1 1 h \<and> dict_mset h = {#8211#}"
proof -
  have ne: "[[lit ''d'', lit ''a.t'']] \<noteq> []" by simp
  from main_report [OF witness_run_facts(1) ne witness_run_facts(2-5)] obtain h where
    "printed (main \<lparr>root = [lit ''d''], ext = lit ''.t'', soft_hyphen = lit ''hyphen'', dry_run = False\<rparr> (\<lambda>_. None) ([[lit ''d''] \<mapsto> Dir, [lit ''d'', lit ''a.t''] \<mapsto> File [109, 0xE2, 0x80, 0x93]]) [[lit ''d''], [lit ''d'', lit ''a.t'']]) =
      [lit ''[CHANGED] '' @ show_path (fst fs). fs \<leftarrow> zip [[lit ''d'', lit ''a.t'']] [[109, 8211]],
        fst (normalize_text (snd fs) (soft_hyphen \<lparr>root = [lit ''d''], ext = lit ''.t'', soft_hyphen = lit ''hyphen'', dry_run = False\<rparr>)) \<noteq> snd fs] @
      summary_lines (length [[lit ''d'', lit ''a.t'']]) (length [s \<leftarrow> [[109, 8211]]. fst (normalize_text s (soft_hyphen \<lparr>root = [lit ''d''], ext = lit ''.t'', soft_hyphen = lit ''hyphen'', dry_run = False\<rparr>)) \<noteq> s]) h"
    "dict_mset h = (\<Sum>s \<leftarrow> [[109, 8211]]. filter_mset classified (mset s))"
    by blast
  moreover have "fst (normalize_text [109, 8211] (lit ''hyphen'')) \<noteq> [109, 8211]"
    by (simp add: normalize_text_def bump_def TO_ASCII_HYPHEN_def REMOVE_def SOFT_HYPHEN_def)
  moreover have "classified 8211" "\<not> classified 109"
    by (simp_all add: classified_iff TO_ASCII_HYPHEN_def REMOVE_def SOFT_HYPHEN_def)
  ultimately show ?thesis by (auto simp: show_path_def)
qed

theorem iter_files_pattern_witness:
  "91 \<notin> set (lit ''.t?x'') \<and> \<not> has_double_star (42 # lit ''.t?x'') \<and>
   ([[lit ''d''] \<mapsto> Dir, [lit ''d'', lit ''a.tax''] \<mapsto> File []]) [lit ''d''] = Some Dir \<and>
   iter_files [[lit ''d''] \<mapsto> Dir, [lit ''d'', lit ''a.tax''] \<mapsto> File []] [[lit ''d''], [lit ''d'', lit ''a.tax'']] [lit ''d''] (lit ''.t?x'') =
     Inr [p \<leftarrow> [[lit ''d''], [lit ''d'', lit ''a.tax'']]. length [lit ''d''] < length p \<and> take (length [lit ''d'']) p = [lit ''d''] \<and>
        last p \<in> pat_lang (42 # lit ''.t?x'') \<and> is_file [[lit ''d''] \<mapsto> Dir, [lit ''d'', lit ''a.tax''] \<mapsto> File []] p]"
proof -
  have h1: "91 \<notin> set (lit ''.t?x'')" by simp
  have h2: "\<not> has_double_star (42 # lit ''.t?x'')" by simp
  have h3: "([[lit ''d''] \<mapsto> Dir, [lit ''d'', lit ''a.tax''] \<mapsto> File []]) [lit ''d''] = Some Dir" by simp
  show ?thesis by (intro conjI h1 h2 h3 iter_files_pattern [where e = "lit ''.t?x''"
    and d = "[[lit ''d''] \<mapsto> Dir, [lit ''d'', lit ''a.tax''] \<mapsto> File []]" and r = "[lit ''d'']", OF h1 h2 h3])
qed

theorem iter_files_bracket_witness:
  "glob_free (lit ''.'') \<and> glob_free (lit ''ex'') \<and> lit ''tT'' \<noteq> [] \<and> hd (lit ''tT'') \<noteq> 33 \<and>
   93 \<notin> set (lit ''tT'') \<and> 45 \<notin> set (lit ''tT'') \<and> \<not> has_double_star (lit ''tT'') \<and>
   ([[lit ''d''] \<mapsto> Dir, [lit ''d'', lit ''a.tex''] \<mapsto> File []]) [lit ''d''] = Some Dir \<and>
   iter_files [[lit ''d''] \<mapsto> Dir, [lit ''d'', lit ''a.tex''] \<mapsto> File []] [[lit ''d''], [lit ''d'', lit ''a.tex'']] [lit ''d'']
     (lit ''.'' @ 91 # (if False then 33 # lit ''tT'' else lit ''tT'') @ 93 # lit ''ex'') =
   Inr [p \<leftarrow> [[lit ''d''], [lit ''d'', lit ''a.tex'']]. length [lit ''d''] < length p \<and> take (length [lit ''d'']) p = [lit ''d''] \<and>
      (\<exists>x c. last p = x @ lit ''.'' @ c # lit ''ex'' \<and> (c \<in> set (lit ''tT'')) \<noteq> False) \<and>
      is_file [[lit ''d''] \<mapsto> Dir, [lit ''d'', lit ''a.tex''] \<mapsto> File []] p]"
proof -
  have h1: "glob_free (lit ''.'')" "glob_free (lit ''ex'')" by (simp_all add: glob_free_def)
  have h2: "lit ''tT'' \<noteq> []" "hd (lit ''tT'') \<noteq> 33" "93 \<notin> set (lit ''tT'')" "45 \<notin> set (lit ''tT'')"
    "\<not> has_double_star (lit ''tT'')" by simp_all
  have h3: "([[lit ''d''] \<mapsto> Dir, [lit ''d'', lit ''a.tex''] \<mapsto> File []]) [lit ''d''] = Some Dir" by simp
  show ?thesis by (intro conjI h1 h2 h3 iter_files_bracket [where d = "[[lit ''d''] \<mapsto> Dir, [lit ''d'', lit ''a.tex''] \<mapsto> File []]" and r = "[lit ''d'']",
    OF h1 h2 h3])
qed

theorem iter_files_bracket_quirk_witness:
  "glob_free (lit ''.'') \<and> glob_free [] \<and> (97::nat) < 122 \<and> (122::nat) \<noteq> 33 \<and> (122::nat) \<noteq> 93 \<and> (97::nat) \<noteq> 93 \<and>
   93 \<notin> set (lit ''b'') \<and> 45 \<notin> set (lit ''b'') \<and> \<not> has_double_star (lit ''b'') \<and>
   ([[lit ''d''] \<mapsto> Dir, [lit ''d'', lit ''x.c''] \<mapsto> File []]) [lit ''d''] = Some Dir \<and>
   iter_files [[lit ''d''] \<mapsto> Dir, [lit ''d'', lit ''x.c''] \<mapsto> File []] [[lit ''d''], [lit ''d'', lit ''x.c'']] [lit ''d'']
     (lit ''.'' @ 91 # 122 # 45 # 97 # 33 # lit ''b'' @ 93 # []) =
   Inr [p \<leftarrow> [[lit ''d''], [lit ''d'', lit ''x.c'']]. length [lit ''d''] < length p \<and> take (length [lit ''d'']) p = [lit ''d''] \<and>
      (\<exists>x c. last p = x @ lit ''.'' @ c # [] \<and> c \<notin> set (lit ''b'')) \<and>
      is_file [[lit ''d''] \<mapsto> Dir, [lit ''d'', lit ''x.c''] \<mapsto> File []] p]"
proof -
  have h1: "glob_free (lit ''.'')" "glob_free []" by (simp_all add: glob_free_def)
  have h2: "(97::nat) < 122" "(122::nat) \<noteq> 33" "(122::nat) \<noteq> 93" "(97::nat) \<noteq> 93" "93 \<notin> set (lit ''b'')"
    "45 \<notin> set (lit ''b'')" "\<not> has_double_star (lit ''b'')" by simp_all
  have h3: "([[lit ''d''] \<mapsto> Dir, [lit ''d'', lit ''x.c''] \<mapsto> File []]) [lit ''d''] = Some Dir" by simp
  show ?thesis by (intro conjI h1 h2 h3 iter_files_bracket_quirk [where u = "lit ''.''" and v = "[]" and a = 122 and b = 97
    and w = "lit ''b''" and d = "[[lit ''d''] \<mapsto> Dir, [lit ''d'', lit ''x.c''] \<mapsto> File []]" and r = "[lit ''d'']", OF h1 h2 h3])
qed

theorem main_invalid_pattern_witness:
  "has_double_star (42 # ext \<lparr>root = [lit ''d''], ext = lit ''*.tex'', soft_hyphen = lit ''hyphen'', dry_run = False\<rparr>) \<and>
   ext \<lparr>root = [lit ''d''], ext = lit ''*.tex'', soft_hyphen = lit ''hyphen'', dry_run = False\<rparr> \<noteq> [42] \<and>
   main \<lparr>root = [lit ''d''], ext = lit ''*.tex'', soft_hyphen = lit ''hyphen'', dry_run = False\<rparr> (\<lambda>_. None)
     [[lit ''d''] \<mapsto> Dir, [lit ''d'', lit ''a.tex''] \<mapsto> File []] [[lit ''d''], [lit ''d'', lit ''a.tex'']] =
   \<lparr>exit_code = 1, final_disk = [[lit ''d''] \<mapsto> Dir, [lit ''d'', lit ''a.tex''] \<mapsto> File []], printed = [],
    raised = Some (ValueError (lit ''**.tex''))\<rparr>"
proof -
  let ?a = "\<lparr>root = [lit ''d''], ext = lit ''*.tex'', soft_hyphen = lit ''hyphen'', dry_run = False\<rparr>"
  have h1: "has_double_star (42 # ext ?a)" and h2: "ext ?a \<noteq> [42]" by simp_all
  from main_invalid_pattern [OF h1 h2, of "\<lambda>_. None" "[[lit ''d''] \<mapsto> Dir, [lit ''d'', lit ''a.tex''] \<mapsto> File []]"
    "[[lit ''d''], [lit ''d'', lit ''a.tex'']]"] h1 h2 show ?thesis by simp
qed

theorem main_ext_star_witness:
  "ext \<lparr>root = [lit ''d''], ext = lit ''*'', soft_hyphen = lit ''hyphen'', dry_run = False\<rparr> = [42] \<and>
   main \<lparr>root = [lit ''d''], ext = lit ''*'', soft_hyphen = lit ''hyphen'', dry_run = False\<rparr> (\<lambda>_. None)
     [[lit ''d''] \<mapsto> Dir, [lit ''d'', lit ''e''] \<mapsto> Dir, [lit ''d'', lit ''a.tex''] \<mapsto> File []]
     [[lit ''d''], [lit ''d'', lit ''e''], [lit ''d'', lit ''a.tex'']] =
   \<lparr>exit_code = 0, final_disk = [[lit ''d''] \<mapsto> Dir, [lit ''d'', lit ''e''] \<mapsto> Dir, [lit ''d'', lit ''a.tex''] \<mapsto> File []],
    printed = [lit ''No ** files found under /d''], raised = None\<rparr>"
proof -
  let ?a = "\<lparr>root = [lit ''d''], ext = lit ''*'', soft_hyphen = lit ''hyphen'', dry_run = False\<rparr>"
  have h: "ext ?a = [42]" by simp
  from main_ext_star [OF h, of "\<lambda>_. None" "[[lit ''d''] \<mapsto> Dir, [lit ''d'', lit ''e''] \<mapsto> Dir, [lit ''d'', lit ''a.tex''] \<mapsto> File []]"
    "[[lit ''d''], [lit ''d'', lit ''e''], [lit ''d'', lit ''a.tex'']]"] h show ?thesis by (simp add: show_path_def)
qed

end
