(* ===== verification/Cli.thy ===== *)
theory Cli
  imports Files
begin

text \<open>
  The command line of \<^verbatim>\<open>main\<close> (lines 87--101) and the entry point (lines
  143--144).  \<^verbatim>\<open>main\<close> builds an \<^verbatim>\<open>argparse.ArgumentParser\<close> with four options
  (lines 88--93) and the implicit \<^verbatim>\<open>-h\<close>/\<^verbatim>\<open>--help\<close>, parses
  \<^verbatim>\<open>sys.argv[1:]\<close> (line 94) and resolves the root (line 96).  The parser is library
  code, modelled after CPython 3.11.10's \<^verbatim>\<open>argparse\<close> for exactly this option table:
  every argument is first classified (\<open>parse_optional\<close>, with abbreviations of long
  options by unique prefix, \<^verbatim>\<open>--opt=value\<close>, the \<^verbatim>\<open>--\<close> separator and
  negative-number-like arguments), then the classified arguments are consumed left to
  right (\<open>consume\<close>), storing values, checking \<^verbatim>\<open>choices\<close>, exiting on
  \<^verbatim>\<open>--help\<close>, and collecting what no option takes as unrecognized.  A usage error
  ends the program with status 2, help with status 0, both before any file is touched.
\<close>

subsection \<open>The option table\<close>

datatype action = Help | Root | Ext | SoftHyphen | DryRun

text \<open>\<^verbatim>\<open>parser._option_string_actions\<close>, in insertion order.\<close>

definition option_string_actions :: "(pystr \<times> action) list" where
  "option_string_actions =
     [(lit ''-h'', Help), (lit ''--help'', Help), (lit ''--root'', Root), (lit ''--ext'', Ext),
      (lit ''--soft-hyphen'', SoftHyphen), (lit ''--dry-run'', DryRun)]"

definition soft_hyphen_choices :: "pystr list" where
  "soft_hyphen_choices = [lit ''hyphen'', lit ''remove'']"

text \<open>\<^verbatim>\<open>store\<close> actions take one argument (\<^verbatim>\<open>nargs=None\<close>); \<^verbatim>\<open>help\<close> and
  \<^verbatim>\<open>store_true\<close> take none.\<close>

fun takes_value :: "action \<Rightarrow> bool" where
  "takes_value Root = True"
| "takes_value Ext = True"
| "takes_value SoftHyphen = True"
| "takes_value Help = False"
| "takes_value DryRun = False"

record namespace =
  ns_root :: pystr
  ns_ext :: pystr
  ns_soft_hyphen :: pystr
  ns_dry_run :: bool

definition defaults :: namespace where
  "defaults = \<lparr>ns_root = lit ''.'', ns_ext = lit ''.tex'', ns_soft_hyphen = lit ''hyphen'',
     ns_dry_run = False\<rparr>"

datatype arg_error =
    Ambiguous pystr "pystr list"
  | ExpectedOne action
  | IgnoredExplicit action pystr
  | InvalidChoice pystr
  | Unrecognized "pystr list"

datatype cli_exit = Usage arg_error | HelpShown

subsection \<open>Classifying the arguments\<close>

text \<open>An argument is the separator \<^verbatim>\<open>--\<close>, a positional (pattern \<^verbatim>\<open>A\<close>), or an
  optional (pattern \<^verbatim>\<open>O\<close>): the action it selects (none if unknown), the option
  string, and the explicit argument after \<^verbatim>\<open>=\<close> or after a short option, with
  \<^verbatim>\<open>sep\<close>, whether it came after \<^verbatim>\<open>=\<close>.\<close>

datatype arg_kind = Sep | Pos | Opt "action option" pystr "(bool \<times> pystr) option"

definition startswith :: "pystr \<Rightarrow> pystr \<Rightarrow> bool" where
  "startswith s p \<longleftrightarrow> take (length p) s = p"

definition is_digit :: "codepoint \<Rightarrow> bool" where
  "is_digit c \<longleftrightarrow> 48 \<le> c \<and> c \<le> 57"

text \<open>\<^verbatim>\<open>_negative_number_matcher\<close>, \<^verbatim>\<open>^-\d+$|^-\d*\.\d+$\<close> (with ASCII digits;
  \<^verbatim>\<open>$\<close> also matches before a final newline).\<close>

definition negative_number :: "pystr \<Rightarrow> bool" where
  "negative_number s \<longleftrightarrow>
     (let t = (if s \<noteq> [] \<and> last s = 10 then butlast s else s) in
      t \<noteq> [] \<and> hd t = 45 \<and>
      (let u = tl t; ds = takeWhile is_digit u; r = dropWhile is_digit u in
        (r = [] \<and> ds \<noteq> []) \<or> (r \<noteq> [] \<and> hd r = 46 \<and> tl r \<noteq> [] \<and> (\<forall>c \<in> set (tl r). is_digit c))))"

definition split_eq :: "pystr \<Rightarrow> pystr \<times> pystr" where
  "split_eq s = (takeWhile (\<lambda>c. c \<noteq> 61) s, tl (dropWhile (\<lambda>c. c \<noteq> 61) s))"

text \<open>\<^verbatim>\<open>_get_option_tuples\<close>: the interpretations of an argument as an abbreviation.\<close>

definition option_tuples :: "pystr \<Rightarrow> arg_kind list" where
  "option_tuples s =
     (if s ! 1 = 45 then
        (let (pre, ex) = (if 61 \<in> set s then (fst (split_eq s), Some (True, snd (split_eq s))) else (s, None)) in
         [Opt (Some a) os ex. (os, a) \<leftarrow> option_string_actions, startswith os pre])
      else
        [(if os = take 2 s then Opt (Some a) os (Some (False, drop 2 s)) else Opt (Some a) os None).
           (os, a) \<leftarrow> option_string_actions, os = take 2 s \<or> startswith os s])"

definition opt_string :: "arg_kind \<Rightarrow> pystr" where
  "opt_string k = (case k of Opt _ os _ \<Rightarrow> os | _ \<Rightarrow> [])"

text \<open>\<^verbatim>\<open>_parse_optional\<close>.\<close>

definition parse_optional :: "pystr \<Rightarrow> arg_error + arg_kind" where
  "parse_optional s =
     (if s = [] \<or> hd s \<noteq> 45 then Inr Pos
      else case map_of option_string_actions s of
        Some a \<Rightarrow> Inr (Opt (Some a) s None)
      | None \<Rightarrow>
          if length s = 1 then Inr Pos
          else if 61 \<in> set s \<and> map_of option_string_actions (fst (split_eq s)) \<noteq> None then
            Inr (Opt (map_of option_string_actions (fst (split_eq s))) (fst (split_eq s)) (Some (True, snd (split_eq s))))
          else (case option_tuples s of
              [t] \<Rightarrow> Inr t
            | t # u # ts \<Rightarrow> Inl (Ambiguous s (map opt_string (t # u # ts)))
            | [] \<Rightarrow> if negative_number s then Inr Pos
                    else if 32 \<in> set s then Inr Pos
                    else Inr (Opt None s None)))"

text \<open>The classification loop of \<^verbatim>\<open>_parse_known_args\<close>: everything after the first
  \<^verbatim>\<open>--\<close> is positional.\<close>

fun classify :: "pystr list \<Rightarrow> arg_error + (pystr \<times> arg_kind) list" where
  "classify [] = Inr []"
| "classify (s # ss) =
     (if s = lit ''--'' then Inr ((s, Sep) # map (\<lambda>t. (t, Pos)) ss)
      else (case parse_optional s of
              Inl e \<Rightarrow> Inl e
            | Inr k \<Rightarrow> (case classify ss of Inl e \<Rightarrow> Inl e | Inr ks \<Rightarrow> Inr ((s, k) # ks))))"

subsection \<open>Consuming the arguments\<close>

text \<open>\<^verbatim>\<open>take_action\<close> for a \<^verbatim>\<open>store\<close> action: the value is checked against
  \<^verbatim>\<open>choices\<close>, then stored.\<close>

fun store :: "action \<Rightarrow> pystr \<Rightarrow> namespace \<Rightarrow> cli_exit + namespace" where
  "store Root v ns = Inr (ns\<lparr>ns_root := v\<rparr>)"
| "store Ext v ns = Inr (ns\<lparr>ns_ext := v\<rparr>)"
| "store SoftHyphen v ns =
     (if v \<in> set soft_hyphen_choices then Inr (ns\<lparr>ns_soft_hyphen := v\<rparr>)
      else Inl (Usage (InvalidChoice v)))"
| "store Help v ns = Inl HelpShown"
| "store DryRun v ns = Inr (ns\<lparr>ns_dry_run := True\<rparr>)"

text \<open>\<^verbatim>\<open>consume_optional\<close> and the main loop of \<^verbatim>\<open>_parse_known_args\<close>, with
  \<^verbatim>\<open>parse_args\<close>' final check for unrecognized arguments.  Options never take
  \<^verbatim>\<open>--\<close> as their argument (their \<^verbatim>\<open>nargs\<close> pattern has the \<^verbatim>\<open>-\<close> removed),
  and since the parser has no positionals, the separator and every positional end up
  among the unrecognized arguments.  A zero-argument short option with an explicit
  argument (\<^verbatim>\<open>-hx\<close>) is read as combined short flags (\<open>help_chain\<close>).\<close>

text \<open>The loop of \<^verbatim>\<open>consume_optional\<close> over the flags packed after \<^verbatim>\<open>-h\<close>
  (\<^verbatim>\<open>-h\<close> is the only short option): the help action is queued, then an explicit
  argument after \<^verbatim>\<open>=\<close> or starting with \<^verbatim>\<open>-\<close> (or left empty after
  \<^verbatim>\<open>=\<close>) is an error raised before any queued action runs; a next character other
  than \<^verbatim>\<open>h\<close> goes to the unrecognized arguments and ends the loop, and the help is
  shown; another \<^verbatim>\<open>h\<close> starts the next round on the rest.\<close>

fun help_chain :: "bool \<Rightarrow> pystr \<Rightarrow> cli_exit" where
  "help_chain sep e =
     (if e = [] then Usage (IgnoredExplicit Help [])
      else if sep \<or> hd e = 45 then Usage (IgnoredExplicit Help e)
      else if hd e \<noteq> 104 then HelpShown
      else if tl e = [] then HelpShown
      else if hd (tl e) = 61 then help_chain True (tl (tl e))
      else help_chain False (tl e))"

declare help_chain.simps [simp del]

fun consume :: "(pystr \<times> arg_kind) list \<Rightarrow> namespace \<Rightarrow> pystr list \<Rightarrow> cli_exit + namespace" where
  "consume [] ns extras = (if extras = [] then Inr ns else Inl (Usage (Unrecognized extras)))"
| "consume ((s, Sep) # rest) ns extras = consume rest ns (extras @ [s])"
| "consume ((s, Pos) # rest) ns extras = consume rest ns (extras @ [s])"
| "consume ((s, Opt None os e) # rest) ns extras = consume rest ns (extras @ [s])"
| "consume ((s, Opt (Some a) os (Some (sep, e))) # rest) ns extras =
     (if takes_value a then
        (case store a e ns of Inl x \<Rightarrow> Inl x | Inr ns' \<Rightarrow> consume rest ns' extras)
      else if os ! 1 \<noteq> 45 \<and> e \<noteq> [] then Inl (help_chain sep e)
      else Inl (Usage (IgnoredExplicit a e)))"
| "consume ((s, Opt (Some a) os None) # rest) ns extras =
     (if takes_value a then
        (case rest of
           (v, Pos) # rest' \<Rightarrow> (case store a v ns of Inl x \<Rightarrow> Inl x | Inr ns' \<Rightarrow> consume rest' ns' extras)
         | _ \<Rightarrow> Inl (Usage (ExpectedOne a)))
      else (case store a [] ns of Inl x \<Rightarrow> Inl x | Inr ns' \<Rightarrow> consume rest ns' extras))"

definition parse_args :: "pystr list \<Rightarrow> cli_exit + namespace" where
  "parse_args argv =
     (case classify argv of Inl e \<Rightarrow> Inl (Usage e) | Inr ks \<Rightarrow> consume ks defaults [])"

subsection \<open>Resolving the root\<close>

text \<open>\<^verbatim>\<open>str.split('/')\<close>.\<close>

fun split_on :: "codepoint \<Rightarrow> pystr \<Rightarrow> pystr list" where
  "split_on c [] = [[]]"
| "split_on c (x # xs) =
     (if x = c then [] # split_on c xs
      else (case split_on c xs of w # ws \<Rightarrow> (x # w) # ws | [] \<Rightarrow> [[x]]))"

text \<open>\<^verbatim>\<open>Path(s).resolve()\<close> on a tree without symbolic links
  (\<^verbatim>\<open>os.path.realpath\<close>): a relative path is taken from the working directory, empty
  and \<^verbatim>\<open>.\<close> components are dropped and \<^verbatim>\<open>..\<close> goes up, staying at \<^verbatim>\<open>/\<close>.\<close>

fun resolve_parts :: "path \<Rightarrow> pystr list \<Rightarrow> path" where
  "resolve_parts p [] = p"
| "resolve_parts p (c # cs) =
     resolve_parts (if c = [] \<or> c = lit ''.'' then p else if c = lit ''..'' then butlast p else p @ [c]) cs"

definition resolve :: "path \<Rightarrow> pystr \<Rightarrow> path" where
  "resolve cwd s = resolve_parts (if s \<noteq> [] \<and> hd s = 47 then [] else cwd) (split_on 47 s)"

subsection \<open>The program\<close>

datatype cli_outcome = Exited cli_exit | Ran outcome

text \<open>Lines 87--96: parse the arguments, resolve the root, and run the rest of
  \<^verbatim>\<open>main\<close> (lines 97--140, \<open>Files.main\<close>).\<close>

definition cli_main ::
  "path \<Rightarrow> pystr list \<Rightarrow> (path \<Rightarrow> write_fault option) \<Rightarrow> disk \<Rightarrow> path list \<Rightarrow> cli_outcome" where
  "cli_main cwd argv faults d walk =
     (case parse_args argv of
        Inl x \<Rightarrow> Exited x
      | Inr ns \<Rightarrow> Ran (main \<lparr>root = resolve cwd (ns_root ns), ext = ns_ext ns,
                             soft_hyphen = ns_soft_hyphen ns, dry_run = ns_dry_run ns\<rparr> faults d walk))"

text \<open>Lines 143--144, \<^verbatim>\<open>raise SystemExit(main())\<close>; \<^verbatim>\<open>parser.error\<close> exits
  with status 2 and the help action with status 0.\<close>

fun exit_status :: "cli_outcome \<Rightarrow> nat" where
  "exit_status (Exited HelpShown) = 0"
| "exit_status (Exited (Usage e)) = 2"
| "exit_status (Ran os) = exit_code os"

subsection \<open>Lemmas on prefixes and the option table\<close>

lemma startswith_refl [simp]: "startswith p p"
  by (simp add: startswith_def)

lemma startswith_length: "startswith os p \<Longrightarrow> length p \<le> length os"
proof -
  assume "startswith os p"
  then have "length (take (length p) os) = length p" unfolding startswith_def by (rule arg_cong)
  then show ?thesis by (simp add: min_def split: if_splits)
qed

lemma startswith_take: "startswith os p \<Longrightarrow> n \<le> length p \<Longrightarrow> take n os = take n p"
  unfolding startswith_def by (metis min.absorb1 take_take)

lemma startswith_set: "startswith os p \<Longrightarrow> set p \<subseteq> set os"
  unfolding startswith_def by (metis set_take_subset)

lemma option_table_facts:
  "distinct (map fst option_string_actions)"
  "\<forall>(o1, a1) \<in> set option_string_actions. \<forall>(o2, a2) \<in> set option_string_actions.
     take 3 o1 = take 3 o2 \<longrightarrow> o1 = o2 \<and> a1 = a2"
  "\<forall>(os, a) \<in> set option_string_actions. 3 \<le> length os \<longrightarrow> take 2 os = lit ''--'' \<and> 61 \<notin> set os"
  by (simp_all add: option_string_actions_def)

lemma option_unique_prefix:
  "(o1, a1) \<in> set option_string_actions \<Longrightarrow> (o2, a2) \<in> set option_string_actions \<Longrightarrow>
   startswith o1 p \<Longrightarrow> startswith o2 p \<Longrightarrow> 3 \<le> length p \<Longrightarrow> o1 = o2 \<and> a1 = a2"
proof -
  assume m: "(o1, a1) \<in> set option_string_actions" "(o2, a2) \<in> set option_string_actions"
    and s: "startswith o1 p" "startswith o2 p" and l: "3 \<le> length p"
  from startswith_take [OF s(1) l] startswith_take [OF s(2) l] have "take 3 o1 = take 3 o2" by simp
  with option_table_facts(2) m show ?thesis by fast
qed

lemma concat_map_unique:
  "distinct xs \<Longrightarrow> y \<in> set xs \<Longrightarrow> (\<forall>x \<in> set xs. P x \<longleftrightarrow> x = y) \<Longrightarrow>
   concat (map (\<lambda>x. if P x then [f x] else []) xs) = [f y]"
proof (induction xs)
  case (Cons x xs)
  show ?case
  proof (cases "x = y")
    case True
    with Cons.prems have "\<forall>z \<in> set xs. \<not> P z" by auto
    then have "concat (map (\<lambda>x. if P x then [f x] else []) xs) = []" by (induction xs) auto
    with True Cons.prems show ?thesis by simp
  qed (use Cons in auto)
qed simp

lemma long_option_prefix:
  assumes m: "(os, a) \<in> set option_string_actions" and sw: "startswith os p" and l: "3 \<le> length p"
  shows "p = 45 # 45 # drop 2 p" and "61 \<notin> set p"
proof -
  from l startswith_length [OF sw] m option_table_facts(3) have os: "take 2 os = [45, 45]" "61 \<notin> set os"
    by auto
  from startswith_take [OF sw, of 2] l os(1) have "take 2 p = [45, 45]" by simp
  then show "p = 45 # 45 # drop 2 p" by (metis append_take_drop_id append_Cons append_Nil)
  from startswith_set [OF sw] os(2) show "61 \<notin> set p" by blast
qed

lemma option_tuples_long:
  assumes m: "(os, a) \<in> set option_string_actions" and sw: "startswith os p" and l: "3 \<le> length p"
  shows "option_tuples p = [Opt (Some a) os None]"
proof -
  have uniq: "\<forall>x \<in> set option_string_actions. startswith (fst x) p \<longleftrightarrow> x = (os, a)"
  proof
    fix x assume x: "x \<in> set option_string_actions"
    show "startswith (fst x) p \<longleftrightarrow> x = (os, a)"
    proof
      assume "startswith (fst x) p"
      with option_unique_prefix [of "fst x" "snd x" os a p] x m sw l show "x = (os, a)"
        by (cases x) simp
    qed (use sw in simp)
  qed
  have c: "concat (map (\<lambda>x. if startswith (fst x) p then [Opt (Some (snd x)) (fst x) None] else [])
      option_string_actions) = [Opt (Some a) os None]"
    using concat_map_unique [OF distinct_map [THEN iffD1, OF option_table_facts(1), THEN conjunct1] m uniq,
        of "\<lambda>x. Opt (Some (snd x)) (fst x) None"]
    by simp
  have p: "p = 45 # 45 # drop 2 p" and e: "61 \<notin> set p" using long_option_prefix [OF m sw l] by auto
  have "p ! 1 = 45" by (subst p) simp
  with e c show ?thesis by (simp add: option_tuples_def split_def cong: if_cong)
qed

lemma parse_optional_value: "v = [] \<or> hd v \<noteq> 45 \<Longrightarrow> parse_optional v = Inr Pos"
  by (auto simp: parse_optional_def)

lemma store_choice:
  "store a v ns = Inr ns' \<Longrightarrow> ns_soft_hyphen ns \<in> set soft_hyphen_choices \<Longrightarrow>
   ns_soft_hyphen ns' \<in> set soft_hyphen_choices"
  by (cases a) (auto split: if_splits)

lemma consume_choice:
  "consume ks ns extras = Inr ns' \<Longrightarrow> ns_soft_hyphen ns \<in> set soft_hyphen_choices \<Longrightarrow>
   ns_soft_hyphen ns' \<in> set soft_hyphen_choices"
proof (induction ks ns extras rule: consume.induct)
  case (6 s a os rest ns extras)
  show ?case
  proof (cases "takes_value a")
    case True
    with "6.prems" obtain v rest' ns'' where "rest = (v, Pos) # rest'" "store a v ns = Inr ns''"
        "consume rest' ns'' extras = Inr ns'"
      by (auto split: list.splits prod.splits arg_kind.splits sum.splits)
    with True "6.IH"(1) "6.prems"(2) show ?thesis by (blast dest: store_choice)
  next
    case False
    with "6.prems" "6.IH"(2) show ?thesis by (auto split: sum.splits dest: store_choice)
  qed
qed (auto split: if_splits sum.splits dest: store_choice)

lemma help_chain_shown:
  "c \<noteq> 45 \<Longrightarrow> c \<noteq> 61 \<Longrightarrow> c \<noteq> 104 \<Longrightarrow> help_chain False (replicate n 104 @ c # rest) = HelpShown"
  by (induction n) (subst help_chain.simps, simp add: hd_append)+

lemma help_chain_sep: "help_chain True x = Usage (IgnoredExplicit Help x)"
  by (subst help_chain.simps) simp

lemma help_chain_explicit:
  "help_chain False (replicate (Suc n) 104 @ 61 # x) = Usage (IgnoredExplicit Help x)"
  by (induction n) (subst help_chain.simps, simp add: help_chain_sep)+

lemma parse_optional_packed:
  "t \<noteq> [] \<Longrightarrow> hd t \<noteq> 61 \<Longrightarrow>
   parse_optional (45 # 104 # t) = Inr (Opt (Some Help) (lit ''-h'') (Some (False, t)))"
  by (cases t) (auto simp: parse_optional_def option_string_actions_def option_tuples_def split_eq_def
      startswith_def)

subsection \<open>Properties of the command line\<close>

text \<open>C26. The parser enforces \<^verbatim>\<open>choices\<close>: every namespace \<^verbatim>\<open>parse_args\<close>
  returns has \<^verbatim>\<open>soft_hyphen\<close> equal to \<^verbatim>\<open>hyphen\<close> or \<^verbatim>\<open>remove\<close>, so through the
  command line \<^verbatim>\<open>normalize_text\<close> only ever sees the two documented modes.\<close>

theorem parse_args_soft_hyphen:
  "parse_args argv = Inr ns \<Longrightarrow> ns_soft_hyphen ns \<in> set soft_hyphen_choices"
proof -
  assume "parse_args argv = Inr ns"
  then obtain ks where "consume ks defaults [] = Inr ns"
    by (auto simp: parse_args_def split: sum.splits)
  then show ?thesis
    by (rule consume_choice) (simp add: defaults_def soft_hyphen_choices_def)
qed

text \<open>C27. The command line sets each argument of \<^verbatim>\<open>main\<close>: given every option,
  with values that do not start with \<^verbatim>\<open>-\<close> and a documented mode, the program runs
  \<^verbatim>\<open>main\<close> with the root resolved against the working directory, the extension and
  the mode as given, and dry-run exactly when \<^verbatim>\<open>--dry-run\<close> is present; the empty
  command line runs it on the defaults (root \<^verbatim>\<open>.\<close>, \<^verbatim>\<open>.tex\<close>, \<^verbatim>\<open>hyphen\<close>).\<close>

theorem cli_invocation:
  assumes "x = [] \<or> hd x \<noteq> 45" "y = [] \<or> hd y \<noteq> 45" "m \<in> set soft_hyphen_choices"
  shows "cli_main cwd ([lit ''--root'', x, lit ''--ext'', y, lit ''--soft-hyphen'', m] @
       (if dr then [lit ''--dry-run''] else [])) faults d walk =
     Ran (main \<lparr>root = resolve cwd x, ext = y, soft_hyphen = m, dry_run = dr\<rparr> faults d walk) \<and>
   cli_main cwd [] faults d walk =
     Ran (main \<lparr>root = cwd, ext = lit ''.tex'', soft_hyphen = lit ''hyphen'', dry_run = False\<rparr> faults d walk)"
proof -
  have hm: "m = [] \<or> hd m \<noteq> 45" using assms(3) by (auto simp: soft_hyphen_choices_def)
  have v: "parse_optional x = Inr Pos" "parse_optional y = Inr Pos" "parse_optional m = Inr Pos"
    using assms(1,2) hm by (simp_all add: parse_optional_value)
  have n: "x \<noteq> lit ''--''" "y \<noteq> lit ''--''" "m \<noteq> lit ''--''" using assms(1,2) hm by auto
  have o: "parse_optional (lit ''--root'') = Inr (Opt (Some Root) (lit ''--root'') None)"
    "parse_optional (lit ''--ext'') = Inr (Opt (Some Ext) (lit ''--ext'') None)"
    "parse_optional (lit ''--soft-hyphen'') = Inr (Opt (Some SoftHyphen) (lit ''--soft-hyphen'') None)"
    "parse_optional (lit ''--dry-run'') = Inr (Opt (Some DryRun) (lit ''--dry-run'') None)"
    by (simp_all add: parse_optional_def option_string_actions_def)
  show ?thesis
    using v n o assms(3) by (cases dr) (simp_all add: cli_main_def parse_args_def defaults_def resolve_def)
qed

text \<open>C28. Long options may be abbreviated: every prefix of an option string of at least
  three characters (\<^verbatim>\<open>--d\<close>, \<^verbatim>\<open>--dry\<close>, \<^verbatim>\<open>--soft\<close>, ...) is classified as
  that option, since the option strings differ in their third character.\<close>

theorem option_abbreviation:
  "(os, a) \<in> set option_string_actions \<Longrightarrow> startswith os p \<Longrightarrow> 3 \<le> length p \<Longrightarrow>
   parse_optional p = Inr (Opt (Some a) os None)"
proof -
  assume m: "(os, a) \<in> set option_string_actions" and sw: "startswith os p" and l: "3 \<le> length p"
  have p: "p = 45 # 45 # drop 2 p" and e: "61 \<notin> set p" using long_option_prefix [OF m sw l] by auto
  obtain r where pr: "p = 45 # 45 # r" using p by blast
  have "p \<noteq> [] \<and> hd p = 45 \<and> length p \<noteq> 1" by (simp add: pr)
  moreover have "map_of option_string_actions p = (if p = os then Some a else None)"
  proof (cases "p = os")
    case True
    with m option_table_facts(1) show ?thesis by simp
  next
    case False
    have "map_of option_string_actions p = None"
    proof (rule ccontr)
      assume "map_of option_string_actions p \<noteq> None"
      then obtain a' where "(p, a') \<in> set option_string_actions" by (auto dest: map_of_SomeD)
      from option_unique_prefix [OF this m startswith_refl sw l] False show False by simp
    qed
    with False show ?thesis by simp
  qed
  ultimately show ?thesis
    using e option_tuples_long [OF m sw l] by (simp add: parse_optional_def)
qed

text \<open>C29. A value of \<^verbatim>\<open>--soft-hyphen\<close> outside the choices is a usage error:
  the program exits with status 2 before looking at any file.\<close>

theorem invalid_choice_exits_2:
  "v \<notin> set soft_hyphen_choices \<Longrightarrow> v = [] \<or> hd v \<noteq> 45 \<Longrightarrow>
   cli_main cwd [lit ''--soft-hyphen'', v] faults d walk = Exited (Usage (InvalidChoice v)) \<and>
   exit_status (cli_main cwd [lit ''--soft-hyphen'', v] faults d walk) = 2"
proof -
  assume c: "v \<notin> set soft_hyphen_choices" and h: "v = [] \<or> hd v \<noteq> 45"
  then have "v \<noteq> lit ''--''" by auto
  with h have "classify [lit ''--soft-hyphen'', v] = Inr [(lit ''--soft-hyphen'', Opt (Some SoftHyphen) (lit ''--soft-hyphen'') None), (v, Pos)]"
    by (simp add: parse_optional_value) (simp add: parse_optional_def option_string_actions_def)
  with c show ?thesis by (simp add: cli_main_def parse_args_def)
qed

text \<open>C37. Flags packed after \<^verbatim>\<open>-h\<close>, as CPython 3.11.10 reads them: any run of
  \<^verbatim>\<open>h\<close> followed by a character that is not \<^verbatim>\<open>-\<close>, \<^verbatim>\<open>=\<close> or \<^verbatim>\<open>h\<close>
  shows the help (the rest of the argument is set aside as unrecognized), while an
  \<^verbatim>\<open>=\<close> after the run makes what follows an ignored explicit argument of
  \<^verbatim>\<open>-h\<close>: a usage error, reported before the help could be shown.\<close>

theorem packed_help_flags:
  assumes "c \<noteq> 45" "c \<noteq> 61" "c \<noteq> 104"
  shows "parse_args [lit ''-h'' @ replicate n 104 @ c # rest] = Inl HelpShown \<and>
    parse_args [lit ''-h'' @ replicate n 104 @ 61 # x] = Inl (Usage (IgnoredExplicit Help x))"
proof
  have "parse_optional (45 # 104 # replicate n 104 @ c # rest) =
      Inr (Opt (Some Help) (lit ''-h'') (Some (False, replicate n 104 @ c # rest)))"
    using assms(2) by (intro parse_optional_packed) (auto simp: hd_append)
  then show "parse_args [lit ''-h'' @ replicate n 104 @ c # rest] = Inl HelpShown"
    using help_chain_shown [OF assms] by (simp add: parse_args_def)
next
  show "parse_args [lit ''-h'' @ replicate n 104 @ 61 # x] = Inl (Usage (IgnoredExplicit Help x))"
  proof (cases n)
    case 0
    have "parse_optional (45 # 104 # 61 # x) = Inr (Opt (Some Help) (lit ''-h'') (Some (True, x)))"
      by (simp add: parse_optional_def option_string_actions_def split_eq_def)
    with 0 show ?thesis by (simp add: parse_args_def help_chain_sep)
  next
    case (Suc m)
    have "parse_optional (45 # 104 # replicate n 104 @ 61 # x) =
        Inr (Opt (Some Help) (lit ''-h'') (Some (False, replicate n 104 @ 61 # x)))"
      using Suc by (intro parse_optional_packed) simp_all
    with Suc show ?thesis using help_chain_explicit [of m x] by (simp add: parse_args_def)
  qed
qed

subsection \<open>Witnesses\<close>

theorem parse_args_soft_hyphen_witness:
  "parse_args [lit ''--soft-hyphen'', lit ''remove''] =
     Inr \<lparr>ns_root = lit ''.'', ns_ext = lit ''.tex'', ns_soft_hyphen = lit ''remove'', ns_dry_run = False\<rparr> \<and>
   ns_soft_hyphen \<lparr>ns_root = lit ''.'', ns_ext = lit ''.tex'', ns_soft_hyphen = lit ''remove'', ns_dry_run = False\<rparr>
     \<in> set soft_hyphen_choices"
proof -
  have p: "parse_args [lit ''--soft-hyphen'', lit ''remove''] =
     Inr \<lparr>ns_root = lit ''.'', ns_ext = lit ''.tex'', ns_soft_hyphen = lit ''remove'', ns_dry_run = False\<rparr>"
    by (simp add: parse_args_def parse_optional_def option_string_actions_def defaults_def soft_hyphen_choices_def)
  from p parse_args_soft_hyphen [OF p] show ?thesis by simp
qed

theorem option_abbreviation_witness:
  "(lit ''--dry-run'', DryRun) \<in> set option_string_actions \<and> startswith (lit ''--dry-run'') (lit ''--dry'') \<and>
   3 \<le> length (lit ''--dry'') \<and>
   parse_optional (lit ''--dry'') = Inr (Opt (Some DryRun) (lit ''--dry-run'') None)"
proof -
  have m: "(lit ''--dry-run'', DryRun) \<in> set option_string_actions" by (simp add: option_string_actions_def)
  have s: "startswith (lit ''--dry-run'') (lit ''--dry'')" by (simp add: startswith_def)
  have l: "3 \<le> length (lit ''--dry'')" by simp
  from m s l option_abbreviation [OF m s l] show ?thesis by blast
qed

theorem invalid_choice_exits_2_witness:
  "lit ''x'' \<notin> set soft_hyphen_choices \<and>
   cli_main [] [lit ''--soft-hyphen'', lit ''x''] (\<lambda>_. None) Map.empty [] = Exited (Usage (InvalidChoice (lit ''x''))) \<and>
   exit_status (cli_main [] [lit ''--soft-hyphen'', lit ''x''] (\<lambda>_. None) Map.empty []) = 2"
proof -
  have c: "lit ''x'' \<notin> set soft_hyphen_choices" by (simp add: soft_hyphen_choices_def)
  have h: "lit ''x'' = [] \<or> hd (lit ''x'') \<noteq> 45" by simp
  from c invalid_choice_exits_2 [OF c h] show ?thesis by blast
qed


theorem cli_invocation_witness:
  "hd (lit ''sections'') \<noteq> 45 \<and> hd (lit ''.tex'') \<noteq> 45 \<and> lit ''remove'' \<in> set soft_hyphen_choices \<and>
   cli_main [lit ''home''] ([lit ''--root'', lit ''sections'', lit ''--ext'', lit ''.tex'', lit ''--soft-hyphen'', lit ''remove''] @
       (if True then [lit ''--dry-run''] else [])) (\<lambda>_. None) Map.empty [] =
     Ran (main \<lparr>root = resolve [lit ''home''] (lit ''sections''), ext = lit ''.tex'', soft_hyphen = lit ''remove'',
       dry_run = True\<rparr> (\<lambda>_. None) Map.empty []) \<and>
   cli_main [lit ''home''] [] (\<lambda>_. None) Map.empty [] =
     Ran (main \<lparr>root = [lit ''home''], ext = lit ''.tex'', soft_hyphen = lit ''hyphen'', dry_run = False\<rparr>
       (\<lambda>_. None) Map.empty [])"
proof -
  have h1: "hd (lit ''sections'') \<noteq> 45" "hd (lit ''.tex'') \<noteq> 45" by simp_all
  have h2: "lit ''remove'' \<in> set soft_hyphen_choices" by (simp add: soft_hyphen_choices_def)
  from h1 h2 cli_invocation [where cwd = "[lit ''home'']" and dr = True and faults = "\<lambda>_. None" and d = Map.empty
      and walk = "[]", OF disjI2 [OF h1(1)] disjI2 [OF h1(2)] h2]
  show ?thesis by blast
qed

theorem packed_help_flags_witness:
  "(120::nat) \<noteq> 45 \<and> (120::nat) \<noteq> 61 \<and> (120::nat) \<noteq> 104 \<and>
   parse_args [lit ''-h'' @ replicate 2 104 @ 120 # lit ''yz''] = Inl HelpShown \<and>
   parse_args [lit ''-h'' @ replicate 2 104 @ 61 # lit ''x''] = Inl (Usage (IgnoredExplicit Help (lit ''x'')))"
proof -
  have c: "(120::nat) \<noteq> 45" "(120::nat) \<noteq> 61" "(120::nat) \<noteq> 104" by simp_all
  from c packed_help_flags [OF c, of 2 "lit ''yz''" "lit ''x''"] show ?thesis by blast
qed
end
