(* ===== verification/Spec2Isabelle.thy ===== *)
theory Spec2Isabelle
  imports Normalize Utf8 Report Glob Files Cli
begin

text \<open>
  \<^bold>\<open>A verification development of \<^verbatim>\<open>src/tools/normalize_hyphens.py\<close>.\<close>

  \<^bold>\<open>The program.\<close> One Python script.  \<^verbatim>\<open>main\<close> parses four flags
  (\<^verbatim>\<open>--root\<close>, \<^verbatim>\<open>--ext\<close>, \<^verbatim>\<open>--soft-hyphen\<close>, \<^verbatim>\<open>--dry-run\<close>), lists the
  files under the root whose names match \<^verbatim>\<open>*ext\<close> (\<^verbatim>\<open>iter_files\<close>, a
  \<^verbatim>\<open>Path.rglob\<close>), and for each file reads its text as strict UTF-8, calls
  \<^verbatim>\<open>normalize_text\<close>, and, if the text changed, counts the file, prints it, merges its
  hit counts into \<^verbatim>\<open>total_hits\<close> and (unless dry-run) writes the new text to a
  sibling \<^verbatim>\<open>.tmp\<close> file that \<^verbatim>\<open>os.replace\<close> moves over the original.  At the end
  it prints a summary whose table is sorted by descending count, then code point.  Any
  exception ends the run with a traceback (exit status 1).

  \<^bold>\<open>Theories and how they correspond to the code.\<close>
  \<^item> \<open>Prelude\<close>: the types of the model (a Python \<open>str\<close> is a list of code points
    \<open>pystr\<close>, ASCII literals are converted by \<open>lit\<close>, a byte is an \<open>8 word\<close>, a
    \<open>dict\<close> of counts is an association list in insertion order, updated by
    \<open>AList.update_with_aux\<close>) and the dictionary lemmas: \<open>dict_get\<close> models
    \<^verbatim>\<open>d.get(k, 0)\<close>, \<open>dict_mset\<close> abstracts a count dictionary to a multiset,
    \<open>wf_dict\<close> is its invariant (distinct keys, positive counts).
  \<^item> \<open>Normalize\<close>: the tables \<^verbatim>\<open>TO_ASCII_HYPHEN\<close>, \<^verbatim>\<open>REMOVE\<close>,
    \<^verbatim>\<open>SOFT_HYPHEN\<close> (lines 25--45), the closure \<^verbatim>\<open>bump\<close> as \<open>bump\<close>, the
    \<^verbatim>\<open>for\<close> loop of \<^verbatim>\<open>normalize_text\<close> with its accumulators \<^verbatim>\<open>out\<close> and
    \<^verbatim>\<open>counts\<close> as \<open>normalize_loop\<close>, and \<open>normalize_text\<close> (lines 47--76).  The
    abstract specification \<open>normalize_spec\<close> replaces each code point by
    \<open>norm_char\<close> of its \<open>category_of\<close>.
  \<^item> \<open>Utf8\<close>: the library code the script calls, modelled from the Unicode standard:
    Python's strict UTF-8 codec (\<open>utf8_decode\<close>, \<open>utf8_encode\<close>, following
    Table 3-7 of the standard: no overlong forms, no surrogates, nothing above U+10FFFF),
    universal-newline translation on reading (\<open>univ_newlines\<close>, \<open>read_text\<close>),
    and writing with POSIX newlines (\<open>write_text\<close>).
  \<^item> \<open>Report\<close>: the summary of lines 126--138: \<open>format_04X\<close> and \<open>code_of\<close>
    (\<^verbatim>\<open>f"U+{ord(ch):04X}"\<close>), \<open>label_of\<close>, \<open>ljust\<close> (\<^verbatim>\<open>:<8\<close>,
    \<^verbatim>\<open>:<11\<close>), \<open>str_nat\<close>, \<open>report_line\<close>, \<open>sort_hits\<close> (the
    \<^verbatim>\<open>sorted\<close> call with key \<open>hit_key\<close>) and \<open>summary_lines\<close>, with read-back
    parsers \<open>parse_hex\<close>, \<open>parse_dec\<close> and \<open>report_fields\<close> for the round trips.
  \<^item> \<open>Glob\<close>: the library code behind \<^verbatim>\<open>Path.rglob(f"*{ext}")\<close>: CPython 3.11's
    \<^verbatim>\<open>fnmatch.translate\<close> as \<open>translate\<close> (stars, \<^verbatim>\<open>?\<close>, bracket expressions
    with negation, ranges and the removal of empty ranges, an unclosed \<^verbatim>\<open>[\<close> as a
    literal), matching as \<open>gmatch\<close> and \<open>fnmatch\<close>, the reference language
    \<open>glob_lang\<close> of an item list, and \<open>pat_lang\<close>, the reading of a bracket-free
    pattern with \<^verbatim>\<open>*\<close> as any string and \<^verbatim>\<open>?\<close> as any character.
  \<^item> \<open>Files\<close>: the file system as a map \<open>disk\<close> from paths to nodes, traversed in
    an order \<open>walk\<close> given as input; \<open>rglob\<close> (the selector CPython 3.11 builds for
    \<^verbatim>\<open>("**", pattern)\<close>: \<^verbatim>\<open>ValueError\<close> for a pattern holding \<^verbatim>\<open>**\<close>
    without being it, directories only for \<^verbatim>\<open>**\<close>, otherwise the entries below the
    root whose name matches) and \<open>iter_files\<close> (lines 79--84), \<open>read_file\<close>
    (\<^verbatim>\<open>read_text\<close> with its exceptions), \<open>tmp_path\<close> and \<open>write_back\<close>
    (lines 117--121), \<open>merge_counts\<close> (lines 113--115), one iteration of the loop as
    \<open>process_file\<close> (lines 106--124) on the state \<open>run_state\<close> (disk,
    \<^verbatim>\<open>total_changed\<close>, \<^verbatim>\<open>total_hits\<close>, printed lines), the loop as
    \<open>run_files\<close>, and \<open>main\<close> after argument parsing (lines 97--140) returning an
    \<open>outcome\<close> (exit code, final disk, printed lines, raised exception).  Exceptions are
    values: \<open>Inl (error, state)\<close> carries the state at the point of the raise.
    Write failures (disk full, permission denied) are not decided by the program; they
    are an input \<open>faults\<close> that says, per path, whether opening fails or after how many
    bytes the write stops.
  \<^item> \<open>Cli\<close>: the command line.  The option table of lines 88--93
    (\<open>option_string_actions\<close>, \<open>soft_hyphen_choices\<close>, \<open>defaults\<close>), CPython
    3.11.10's \<^verbatim>\<open>argparse\<close> for it (classification \<open>parse_optional\<close>/\<open>classify\<close>
    with unique-prefix abbreviations, \<^verbatim>\<open>--opt=value\<close>, the \<^verbatim>\<open>--\<close> separator
    and negative numbers; consumption \<open>consume\<close>/\<open>store\<close> with choices, help,
    flags packed after \<^verbatim>\<open>-h\<close> (\<open>help_chain\<close>) and unrecognized arguments;
    \<open>parse_args\<close>), \<^verbatim>\<open>Path.resolve\<close> of the root as \<open>resolve\<close>, lines 87--96 as
    \<open>cli_main\<close> (parse, resolve, then \<open>main\<close>), and \<^verbatim>\<open>raise SystemExit(main())\<close>
    (lines 143--144) as \<open>exit_status\<close>: a usage error exits 2 and help exits 0, before
    any file is touched.
  \<^item> \<open>Spec2Isabelle\<close> (this theory): whole runs of \<open>main\<close> on concrete file systems.

  \<^bold>\<open>What is proved.\<close>
  \<^item> Normalisation (C1--C8, C25): the loop refines the specification (C1); its counts are a
    well-formed dictionary whose multiset is the multiset of classified code points of the
    input (C2); the output differs from the input exactly when a hit was counted (C3), so
    the script's test \<^verbatim>\<open>new != data\<close> and the counts agree; the transformation is
    idempotent (C4); each category behaves as specified (C5--C8); any mode other than
    \<^verbatim>\<open>hyphen\<close> acts as \<^verbatim>\<open>remove\<close> (C25).
  \<^item> Report (C9--C11): the table is sorted by descending count and then code point and is
    a permutation of the hits (C9); each line reads back as the code point, its label and
    its count (C10); for every code point Python accepts the code takes 6 to 8 characters,
    so the \<^verbatim>\<open>:<8\<close> column never overflows (C11).
  \<^item> Files and the main loop (C12--C20, C30, C31): a file without hits leaves the state
    unchanged (C12); a successful write-back leaves the normalised text at the original
    path and no \<^verbatim>\<open>.tmp\<close> file (C13); a failed write never touches the original
    (C14, C15) and the write-back never raises an encoding error (C16); over a run,
    \<^verbatim>\<open>total_changed\<close> is the number of changed files, \<^verbatim>\<open>total_hits\<close> the
    multiset of classified code points of all files read (a file without hits adds
    nothing), and the printed lines are the \<^verbatim>\<open>[CHANGED]\<close> lines of the changed
    files in order (C17); a dry run leaves the disk as it was (C18); the zero-file message
    and the missing-root behaviour (C19, C20); a run over readable files whose writes
    succeed always completes with status 0 (C30, liveness), and its output is the
    \<^verbatim>\<open>[CHANGED]\<close> lines of the changed files followed by the summary of the texts
    read (C31).
  \<^item> Enumeration (C24, C32--C36): \<^verbatim>\<open>iter_files\<close> is a suffix filter for a literal
    extension (C24); for an extension without brackets it selects the names of the
    glob language of \<^verbatim>\<open>*ext\<close> (C32, an equivalence of \<open>translate\<close> and
    \<open>gmatch\<close> with \<open>pat_lang\<close>); a bracket expression selects by one character
    (C33), and CPython's removal of empty ranges turns \<^verbatim>\<open>[a-b!w]\<close> into a negated
    class (C34); an extension starting with \<^verbatim>\<open>*\<close> makes the run raise
    \<^verbatim>\<open>ValueError\<close> (C35), except \<^verbatim>\<open>*\<close> itself, which finds no file (C36).
  \<^item> Command line (C26--C29, C37): every parsed namespace has a mode among the choices (C26);
    the full invocation sets every argument of \<open>main\<close> and the empty one the defaults
    (C27); every prefix of three or more characters of a long option selects it (C28); an
    invalid mode exits 2 (C29); flags packed after \<^verbatim>\<open>-h\<close> show the help, and an
    \<^verbatim>\<open>=\<close> after them is an ignored explicit argument (C37).
  \<^item> Whole runs (C21--C23): the dry-run scenario of the specification, CRLF line endings
    rewritten to LF, and a decode error aborting the run after earlier files were written.
  \<^item> Utf8: decoding inverts encoding on scalar values and encoding inverts decoding on every
    byte string the strict decoder accepts (\<open>utf8_encode_decode\<close>,
    \<open>utf8_decode_encode\<close>); text read from a file holds only Unicode scalar values
    (\<open>read_text_scalar\<close>) and no CR (\<open>univ_newlines_no_CR\<close>).

  \<^bold>\<open>Bounds and evaluation.\<close>  Nothing in the model uses fuel: \<open>normalize_loop\<close>,
  \<open>run_files\<close>, \<open>univ_newlines\<close>, \<open>utf8_encode\<close> and the digit printers recurse
  structurally; \<open>utf8_decode\<close>, \<open>translate\<close> and \<open>chunks_from\<close> are
  \<open>function\<close>s with a termination proof (a length measure), and \<open>gmatch\<close>,
  \<open>classify\<close>, \<open>consume\<close> and \<open>help_chain\<close> recurse on their lists, so every
  operation is total.  Code points are unbounded \<open>nat\<close>s; the bound U+10FFFF is
  enforced by the codec where Python enforces it.

  \<^bold>\<open>Not modelled.\<close>  Symbolic links (the disk has no link nodes, so neither
  \<^verbatim>\<open>Path.resolve\<close> following them nor \<^verbatim>\<open>rglob\<close> not descending into linked
  directories has a counterpart); an extension containing \<^verbatim>\<open>/\<close>, which makes
  \<^verbatim>\<open>*ext\<close> a pattern of several path components; a failure of \<^verbatim>\<open>os.replace\<close>
  itself (line 121: the target was just read and the temporary file just written, and
  the fault oracle only covers the write of the temporary file); the text of argparse's
  usage and help messages (only the error and the exit status are recorded); non-ASCII
  decimal digits in argparse's negative-number test; file permissions and metadata,
  which \<^verbatim>\<open>os.replace\<close> does not preserve; the unused variable \<^verbatim>\<open>hint\<close>; the
  contents of the traceback printed on an exception (only its exception is recorded).
\<close>


subsection \<open>Whole runs of the program\<close>

lemma report_line_soft: "report_line (0xAD, 1) = lit ''    U+00AD   SOFT_HYPHEN count=1''"
proof -
  have c: "code_of 0xAD = lit ''U+00AD''"
    by (simp add: code_of_def format_04X_def hex_digits.simps hex_char_def replicate_numeral)
  have l1: "ljust 8 (lit ''U+00AD'') = lit ''U+00AD  ''" by (simp add: ljust_def replicate_numeral)
  have n: "str_nat 1 = lit ''1''" by (simp add: str_nat_def dec_digits.simps)
  have l2: "ljust 11 (label_of 0xAD) = lit ''SOFT_HYPHEN''" by (simp add: ljust_def label_of_def SOFT_HYPHEN_def)
  show ?thesis by (simp only: report_line_def prod.case c l1 n l2 lit_append [symmetric]) simp
qed

text \<open>C21. Scenario 5 of the specification, end to end: with \<^verbatim>\<open>--dry-run\<close> a
  file \<^verbatim>\<open>micro\<close>, U+00AD, \<^verbatim>\<open>scopic\<close> is reported as changed, the
  summary counts one file scanned, one modified and one soft hyphen, the program exits 0,
  and the file on disk is left as it was.\<close>

theorem scenario_dry_run:
  "main \<lparr>root = [lit ''d''], ext = lit ''.t'', soft_hyphen = lit ''hyphen'', dry_run = True\<rparr> (\<lambda>_. None)
     [[lit ''d''] \<mapsto> Dir, [lit ''d'', lit ''a.t''] \<mapsto> File [109, 105, 99, 114, 111, 0xC2, 0xAD, 115, 99, 111, 112, 105, 99]]
     [[lit ''d''], [lit ''d'', lit ''a.t'']] =
   \<lparr>exit_code = 0,
    final_disk = [[lit ''d''] \<mapsto> Dir, [lit ''d'', lit ''a.t''] \<mapsto> File [109, 105, 99, 114, 111, 0xC2, 0xAD, 115, 99, 111, 112, 105, 99]],
    printed = [lit ''[CHANGED] /d/a.t'', 10 # lit ''Summary:'', lit ''  Files scanned:   1'',
               lit ''  Files modified:  1'', lit ''  Replacements/removals:'',
               lit ''    U+00AD   SOFT_HYPHEN count=1''],
    raised = None\<rparr>"
proof -
  let ?a = "\<lparr>root = [lit ''d''], ext = lit ''.t'', soft_hyphen = lit ''hyphen'', dry_run = True\<rparr>"
  let ?d = "[[lit ''d''] \<mapsto> Dir, [lit ''d'', lit ''a.t''] \<mapsto> File [109, 105, 99, 114, 111, 0xC2, 0xAD, 115, 99, 111, 112, 105, 99]]"
  have it: "iter_files ?d [[lit ''d''], [lit ''d'', lit ''a.t'']] (root ?a) (ext ?a) = Inr [[lit ''d'', lit ''a.t'']]"
    by (simp add: iter_files_def rglob_def is_file_def)
  have rf: "run_files ?a (\<lambda>_. None) \<lparr>disk = ?d, total_changed = 0, total_hits = [], stdout = []\<rparr>
      [[lit ''d'', lit ''a.t'']] =
    Inr \<lparr>disk = ?d, total_changed = 1, total_hits = [(0xAD, 1)], stdout = [lit ''[CHANGED] /d/a.t'']\<rparr>"
    by (simp add: process_file_def read_file_def read_text_def utf8_seq_def is_cont_def normalize_text_def
        bump_def TO_ASCII_HYPHEN_def REMOVE_def SOFT_HYPHEN_def merge_counts_def show_path_def)
  have sl: "summary_lines 1 1 [(0xAD, 1)] = [10 # lit ''Summary:'', lit ''  Files scanned:   1'',
               lit ''  Files modified:  1'', lit ''  Replacements/removals:'',
               lit ''    U+00AD   SOFT_HYPHEN count=1'']"
  proof -
    have s1: "sort_hits [(0xAD, 1)] = [(0xAD, 1)]" by (simp add: sort_hits_def)
    have n: "str_nat 1 = lit ''1''" by (simp add: str_nat_def dec_digits.simps)
    show ?thesis
      by (simp only: summary_lines_def s1 list.map report_line_soft n lit_append [symmetric]) simp
  qed
  have ne: "[[lit ''d'', lit ''a.t'']] \<noteq> []" by simp
  have len: "length [[lit ''d'', lit ''a.t'']] = 1" by simp
  note main_Inr [OF it ne rf]
  also have "\<lparr>exit_code = 0, final_disk = disk \<lparr>disk = ?d, total_changed = 1, total_hits = [(0xAD, 1)], stdout = [lit ''[CHANGED] /d/a.t'']\<rparr>,
      printed = stdout \<lparr>disk = ?d, total_changed = 1, total_hits = [(0xAD, 1)], stdout = [lit ''[CHANGED] /d/a.t'']\<rparr> @
        summary_lines (length [[lit ''d'', lit ''a.t'']])
          (total_changed \<lparr>disk = ?d, total_changed = 1, total_hits = [(0xAD, 1)], stdout = [lit ''[CHANGED] /d/a.t'']\<rparr>)
          (total_hits \<lparr>disk = ?d, total_changed = 1, total_hits = [(0xAD, 1)], stdout = [lit ''[CHANGED] /d/a.t'']\<rparr>),
      raised = None\<rparr> =
    \<lparr>exit_code = 0, final_disk = ?d, printed = [lit ''[CHANGED] /d/a.t''] @ summary_lines 1 1 [(0xAD, 1)],
      raised = None\<rparr>"
    by (simp only: run_state.select_convs len)
  also have "\<dots> = \<lparr>exit_code = 0, final_disk = ?d,
    printed = [lit ''[CHANGED] /d/a.t'', 10 # lit ''Summary:'', lit ''  Files scanned:   1'',
               lit ''  Files modified:  1'', lit ''  Replacements/removals:'',
               lit ''    U+00AD   SOFT_HYPHEN count=1''],
    raised = None\<rparr>"
    by (simp only: sl append_Cons append_Nil)
  finally show ?thesis .
qed

text \<open>C22. A rewritten file also loses its Windows line endings: reading in text mode
  turns \<^verbatim>\<open>\r\n\<close> into \<^verbatim>\<open>\n\<close>, and the write-back writes the translated text,
  so the bytes \<^verbatim>\<open>a\r\n\<close> followed by an en dash become \<^verbatim>\<open>a\n-\<close>.\<close>

theorem crlf_line_endings_rewritten:
  "final_disk (main \<lparr>root = [lit ''d''], ext = lit ''.t'', soft_hyphen = lit ''hyphen'', dry_run = False\<rparr> (\<lambda>_. None)
     [[lit ''d''] \<mapsto> Dir, [lit ''d'', lit ''a.t''] \<mapsto> File [97, 13, 10, 0xE2, 0x80, 0x93]]
     [[lit ''d''], [lit ''d'', lit ''a.t'']]) [lit ''d'', lit ''a.t''] = Some (File [97, 10, 45])"
proof -
  let ?a = "\<lparr>root = [lit ''d''], ext = lit ''.t'', soft_hyphen = lit ''hyphen'', dry_run = False\<rparr>"
  let ?d = "[[lit ''d''] \<mapsto> Dir, [lit ''d'', lit ''a.t''] \<mapsto> File [97, 13, 10, 0xE2, 0x80, 0x93]]"
  let ?st = "\<lparr>disk = ?d(tmp_path [lit ''d'', lit ''a.t''] := None, [lit ''d'', lit ''a.t''] \<mapsto> File [97, 10, 45]),
     total_changed = 1, total_hits = [(0x2013, 1)], stdout = [lit ''[CHANGED] /d/a.t'']\<rparr>"
  have it: "iter_files ?d [[lit ''d''], [lit ''d'', lit ''a.t'']] (root ?a) (ext ?a) = Inr [[lit ''d'', lit ''a.t'']]"
    by (simp add: iter_files_def rglob_def is_file_def)
  have ne: "[[lit ''d'', lit ''a.t'']] \<noteq> []" by simp
  have rf: "run_files ?a (\<lambda>_. None) \<lparr>disk = ?d, total_changed = 0, total_hits = [], stdout = []\<rparr>
      [[lit ''d'', lit ''a.t'']] = Inr ?st"
    by (simp add: process_file_def read_file_def read_text_def utf8_seq_def is_cont_def normalize_text_def
        bump_def TO_ASCII_HYPHEN_def REMOVE_def SOFT_HYPHEN_def merge_counts_def show_path_def
        write_back_def write_text_def utf8_encode_char_def byte_of_def Let_def tmp_path_def)
  from main_Inr [OF it ne rf] show ?thesis by (simp add: tmp_path_def)
qed

text \<open>C23. A file that is not valid UTF-8 aborts the run: exit status 1, the
  \<^verbatim>\<open>UnicodeDecodeError\<close> raised, no summary printed, and the files rewritten before it
  stay rewritten (there is no rollback).\<close>

theorem decode_error_aborts_run:
  "main \<lparr>root = [lit ''d''], ext = lit ''.t'', soft_hyphen = lit ''hyphen'', dry_run = False\<rparr> (\<lambda>_. None)
     [[lit ''d''] \<mapsto> Dir, [lit ''d'', lit ''a.t''] \<mapsto> File [0xE2, 0x80, 0x93], [lit ''d'', lit ''b.t''] \<mapsto> File [0xFF]]
     [[lit ''d''], [lit ''d'', lit ''a.t''], [lit ''d'', lit ''b.t'']] =
   \<lparr>exit_code = 1,
    final_disk = [[lit ''d''] \<mapsto> Dir, [lit ''d'', lit ''a.t''] \<mapsto> File [0xE2, 0x80, 0x93], [lit ''d'', lit ''b.t''] \<mapsto> File [0xFF]]
      (tmp_path [lit ''d'', lit ''a.t''] := None, [lit ''d'', lit ''a.t''] \<mapsto> File [45]),
    printed = [lit ''[CHANGED] /d/a.t''],
    raised = Some (UnicodeDecodeError [lit ''d'', lit ''b.t''])\<rparr>"
proof -
  let ?a = "\<lparr>root = [lit ''d''], ext = lit ''.t'', soft_hyphen = lit ''hyphen'', dry_run = False\<rparr>"
  let ?d = "[[lit ''d''] \<mapsto> Dir, [lit ''d'', lit ''a.t''] \<mapsto> File [0xE2, 0x80, 0x93], [lit ''d'', lit ''b.t''] \<mapsto> File [0xFF]]"
  let ?files = "[[lit ''d'', lit ''a.t''], [lit ''d'', lit ''b.t'']]"
  let ?st = "\<lparr>disk = ?d(tmp_path [lit ''d'', lit ''a.t''] := None, [lit ''d'', lit ''a.t''] \<mapsto> File [45]),
     total_changed = 1, total_hits = [(0x2013, 1)], stdout = [lit ''[CHANGED] /d/a.t'']\<rparr>"
  have it: "iter_files ?d [[lit ''d''], [lit ''d'', lit ''a.t''], [lit ''d'', lit ''b.t'']] (root ?a) (ext ?a) = Inr ?files"
    by (simp add: iter_files_def rglob_def is_file_def)
  have ne: "?files \<noteq> []" by simp
  have rf: "run_files ?a (\<lambda>_. None) \<lparr>disk = ?d, total_changed = 0, total_hits = [], stdout = []\<rparr> ?files =
      Inl (UnicodeDecodeError [lit ''d'', lit ''b.t''], ?st)"
    by (simp add: process_file_def read_file_def read_text_def utf8_seq_def is_cont_def normalize_text_def
        bump_def TO_ASCII_HYPHEN_def REMOVE_def SOFT_HYPHEN_def merge_counts_def show_path_def
        write_back_def write_text_def utf8_encode_char_def byte_of_def Let_def tmp_path_def)
  from main_Inl [OF it ne rf] show ?thesis by (simp only: run_state.select_convs)
qed

end
